(* ===== verification/Prelude.thy ===== *)
theory Prelude
  imports Main "HOL-Library.Word" "HOL-Library.Sublist"
begin

text \<open>
  Shared vocabulary of the development: machine integers, the return codes of
  \<^verbatim>\<open>tuya_error_code.h\<close>, and the way calls that leave the firmware are modelled.

  Every component keeps, beside its own variables, the list of platform calls it has issued
  (field \<open>calls\<close> of the record \<open>machine\<close>, oldest call first). The answers of the platform
  (ESP-IDF, FreeRTOS, lwIP, the Tuya SDK) are a parameter of the operations: a function of the
  calls issued so far and of the call being made, so the same call may be answered differently
  at two moments of a run. Theorems quantify over that function.

  The interfaces that several components share are stated here as locales and interpreted by the
  components: a component that follows an abstract description event by event (\<open>simulation\<close>), one
  driven by a sequence of inputs that keeps an invariant (\<open>invariant_system\<close>), one that only ever
  appends to its call list (\<open>logging_system\<close>), and an object whose operations give the answers of
  an abstract description (\<open>op_refinement\<close>).
\<close>

unbundle bit_operations_syntax

section \<open>Machine integers and return codes\<close>

type_synonym byte = "8 word"
type_synonym uint16 = "16 word"
type_synonym uint32 = "32 word"
type_synonym int32 = "32 word"

definition OPRT_OK :: int where [simp]: "OPRT_OK = 0"
definition OPRT_COM_ERROR :: int where [simp]: "OPRT_COM_ERROR = -1"
definition OPRT_INVALID_PARM :: int where [simp]: "OPRT_INVALID_PARM = -2"
definition OPRT_MALLOC_FAILED :: int where [simp]: "OPRT_MALLOC_FAILED = -3"
definition OPRT_NOT_SUPPORTED :: int where [simp]: "OPRT_NOT_SUPPORTED = -4"

text \<open>ESP-IDF's \<^verbatim>\<open>ESP_OK\<close>.\<close>

definition ESP_OK :: int where [simp]: "ESP_OK = 0"

section \<open>Platform calls\<close>

record 'c machine =
  calls :: "'c list"

text \<open>\<open>issue c s\<close> makes a call whose answer is not looked at.\<close>

definition issue :: "'c \<Rightarrow> ('c, 'z) machine_scheme \<Rightarrow> ('c, 'z) machine_scheme" where
  "issue c s = s\<lparr>calls := calls s @ [c]\<rparr>"

text \<open>
  \<open>try_call p c e k s\<close> is \<^verbatim>\<open>if (ESP_OK != c()) return e;\<close> followed by \<open>k\<close>;
  \<open>try_calls\<close> is a sequence of such statements with the same error code.
\<close>

definition try_call ::
  "('c list \<Rightarrow> 'c \<Rightarrow> int) \<Rightarrow> 'c \<Rightarrow> 'a
   \<Rightarrow> (('c, 'z) machine_scheme \<Rightarrow> 'a \<times> ('c, 'z) machine_scheme)
   \<Rightarrow> ('c, 'z) machine_scheme \<Rightarrow> 'a \<times> ('c, 'z) machine_scheme" where
  "try_call p c e k s = (if p (calls s) c \<noteq> ESP_OK then (e, issue c s) else k (issue c s))"

fun try_calls ::
  "('c list \<Rightarrow> 'c \<Rightarrow> int) \<Rightarrow> 'c list \<Rightarrow> 'a
   \<Rightarrow> (('c, 'z) machine_scheme \<Rightarrow> 'a \<times> ('c, 'z) machine_scheme)
   \<Rightarrow> ('c, 'z) machine_scheme \<Rightarrow> 'a \<times> ('c, 'z) machine_scheme" where
  "try_calls p [] e k s = k s"
| "try_calls p (c # cs) e k s = try_call p c e (try_calls p cs e k) s"

text \<open>All calls of a sequence, made after the calls \<open>tr\<close>, are answered \<^verbatim>\<open>ESP_OK\<close>.\<close>

fun all_ok :: "('c list \<Rightarrow> 'c \<Rightarrow> int) \<Rightarrow> 'c list \<Rightarrow> 'c list \<Rightarrow> bool" where
  "all_ok p tr [] = True"
| "all_ok p tr (c # cs) = (p tr c = ESP_OK \<and> all_ok p (tr @ [c]) cs)"

text \<open>
  \<open>every_call P tr\<close>: each call of the list satisfies \<open>P\<close>, which may look at the calls before it.
\<close>

fun every_call_from :: "('c list \<Rightarrow> 'c \<Rightarrow> bool) \<Rightarrow> 'c list \<Rightarrow> 'c list \<Rightarrow> bool" where
  "every_call_from P tr [] = True"
| "every_call_from P tr (c # cs) = (P tr c \<and> every_call_from P (tr @ [c]) cs)"

definition every_call :: "('c list \<Rightarrow> 'c \<Rightarrow> bool) \<Rightarrow> 'c list \<Rightarrow> bool" where
  "every_call P tr = every_call_from P [] tr"

text \<open>
  \<open>hist f a tr\<close> reads a call list from left to right; \<open>f\<close> sees the calls before the one it reads.
\<close>

fun hist_from :: "('c list \<Rightarrow> 'c \<Rightarrow> 'a \<Rightarrow> 'a) \<Rightarrow> 'c list \<Rightarrow> 'a \<Rightarrow> 'c list \<Rightarrow> 'a" where
  "hist_from f tr a [] = a"
| "hist_from f tr a (c # cs) = hist_from f (tr @ [c]) (f tr c a) cs"

definition hist :: "('c list \<Rightarrow> 'c \<Rightarrow> 'a \<Rightarrow> 'a) \<Rightarrow> 'a \<Rightarrow> 'c list \<Rightarrow> 'a" where
  "hist f a tr = hist_from f [] a tr"

section \<open>Lemmas on words\<close>

lemma unat_less_32: "unat (w :: uint32) < 2 ^ 32"
  using unsigned_less [of w] by simp

lemma unat_of_nat_32: "n < 2 ^ 32 \<Longrightarrow> unat (of_nat n :: uint32) = n"
  by (simp add: unsigned_of_nat take_bit_nat_eq_self)

lemma unat_ucast_byte: "unat (ucast (b :: byte) :: uint32) = unat b"
proof -
  have "unat b < 2 ^ 8" using unsigned_less [of b] by simp
  then show ?thesis by (simp add: unsigned_ucast_eq take_bit_nat_eq_self)
qed

lemma byte_ff_and [simp]: "(0xFF :: byte) AND b = b"
proof -
  have "(0xFF :: byte) = - 1" by simp
  then show ?thesis by (simp only: and.left_neutral)
qed

lemma unat_plus_exact:
  "unat (a :: uint32) + unat b < 2 ^ 32 \<Longrightarrow> unat (a + b) = unat a + unat b"
  by (subst unat_add_lem [symmetric]) simp_all

section \<open>Lemmas on calls\<close>

lemma hist_from_append:
  "hist_from f tr a (xs @ ys) = hist_from f (tr @ xs) (hist_from f tr a xs) ys"
  by (induction xs arbitrary: tr a) simp_all

lemma hist_Nil [simp]: "hist f a [] = a"
  by (simp add: hist_def)

lemma hist_append [simp]: "hist f a (xs @ ys) = hist_from f xs (hist f a xs) ys"
  by (simp add: hist_def hist_from_append)

lemma every_call_Nil [simp]: "every_call P []"
  by (simp add: every_call_def)

lemma every_call_from_append:
  "every_call_from P tr (xs @ ys) \<longleftrightarrow> every_call_from P tr xs \<and> every_call_from P (tr @ xs) ys"
  by (induction xs arbitrary: tr) auto

lemma every_call_append [simp]:
  "every_call P (xs @ ys) \<longleftrightarrow> every_call P xs \<and> every_call_from P xs ys"
  by (simp add: every_call_def every_call_from_append)

lemma every_call_at: "every_call P (pre @ c # post) \<Longrightarrow> P pre c"
  by simp

lemma calls_issue [simp]: "calls (issue c s) = calls s @ [c]"
  by (simp add: issue_def)

lemma issue_issue: "issue d (issue c s) = s\<lparr>calls := calls s @ [c, d]\<rparr>"
  by (simp add: issue_def)

lemma try_calls_ok:
  "all_ok p (calls s) cs \<Longrightarrow> try_calls p cs e k s = k (s\<lparr>calls := calls s @ cs\<rparr>)"
  by (induction cs arbitrary: s) (simp_all add: try_call_def issue_def)

text \<open>A sequence that does not reach its end stops at the first refused call.\<close>

lemma try_calls_refused:
  assumes "\<not> all_ok p (calls s) cs"
  shows "\<exists>ds d es. cs = ds @ d # es \<and> all_ok p (calls s) ds \<and> p (calls s @ ds) d \<noteq> ESP_OK
    \<and> try_calls p cs e k s = (e, s\<lparr>calls := calls s @ ds @ [d]\<rparr>)"
  using assms
proof (induction cs arbitrary: s)
  case Nil
  then show ?case by simp
next
  case (Cons c cs)
  show ?case
  proof (cases "p (calls s) c = ESP_OK")
    case True
    with Cons.prems have "\<not> all_ok p (calls (issue c s)) cs" by simp
    then obtain ds d es where
      "cs = ds @ d # es" "all_ok p (calls s @ [c]) ds" "p (calls s @ c # ds) d \<noteq> ESP_OK"
      "try_calls p cs e k (issue c s) = (e, (issue c s)\<lparr>calls := calls s @ c # ds @ [d]\<rparr>)"
      using Cons.IH [of "issue c s"] by auto
    with True show ?thesis
      by (intro exI [of _ "c # ds"] exI [of _ d] exI [of _ es])
        (simp add: try_call_def issue_def)
  next
    case False
    then show ?thesis
      by (intro exI [of _ "[]"] exI [of _ c] exI [of _ cs]) (simp add: try_call_def issue_def)
  qed
qed

text \<open>A result other than the error code tells that every call was accepted.\<close>

lemma try_calls_reached:
  assumes "try_calls p cs e k s = (r, s')" "r \<noteq> e"
  shows "k (s\<lparr>calls := calls s @ cs\<rparr>) = (r, s')"
proof (cases "all_ok p (calls s) cs")
  case True
  with assms(1) show ?thesis by (simp add: try_calls_ok)
next
  case False
  with assms try_calls_refused [OF False, of e k] show ?thesis by auto
qed

lemma try_call_reached:
  "try_call p c e k s = (r, s') \<Longrightarrow> r \<noteq> e \<Longrightarrow> k (issue c s) = (r, s')"
  by (simp add: try_call_def split: if_splits)

section \<open>Runs of an abstract description\<close>

text \<open>\<open>steps T a es b\<close>: the events \<open>es\<close> take an abstract state from \<open>a\<close> to \<open>b\<close>.\<close>

inductive steps :: "('a \<Rightarrow> 'e \<Rightarrow> 'a \<Rightarrow> bool) \<Rightarrow> 'a \<Rightarrow> 'e list \<Rightarrow> 'a \<Rightarrow> bool"
  for T where
  steps_Nil [intro]: "steps T a [] a"
| steps_Cons [intro]: "T a e b \<Longrightarrow> steps T b es c \<Longrightarrow> steps T a (e # es) c"

inductive_cases steps_NilE [elim!]: "steps T a [] b"
inductive_cases steps_ConsE [elim!]: "steps T a (e # es) b"

section \<open>Sequences of operations\<close>

text \<open>
  Operations that answer and may abort, run one after another, and the same for the operations of an
  abstract description, which do not abort. \<open>ok_along\<close>: each operation meets its precondition in
  the state the ones before it lead to.
\<close>

fun runs :: "('o \<Rightarrow> 's \<Rightarrow> ('r \<times> 's) option) \<Rightarrow> 'o list \<Rightarrow> 's \<Rightarrow> ('r list \<times> 's) option" where
  "runs exec [] s = Some ([], s)"
| "runs exec (op # ops) s = (case exec op s of None \<Rightarrow> None
     | Some (r, s) \<Rightarrow> (case runs exec ops s of None \<Rightarrow> None | Some (rs, s) \<Rightarrow> Some (r # rs, s)))"

fun spec_runs :: "('o \<Rightarrow> 'a \<Rightarrow> 'r \<times> 'a) \<Rightarrow> 'o list \<Rightarrow> 'a \<Rightarrow> 'r list \<times> 'a" where
  "spec_runs spec [] a = ([], a)"
| "spec_runs spec (op # ops) a = (case spec op a of (r, a) \<Rightarrow>
     (case spec_runs spec ops a of (rs, a) \<Rightarrow> (r # rs, a)))"

fun ok_along :: "('o \<Rightarrow> 'a \<Rightarrow> 'r \<times> 'a) \<Rightarrow> ('o \<Rightarrow> 'a \<Rightarrow> bool) \<Rightarrow> 'o list \<Rightarrow> 'a \<Rightarrow> bool" where
  "ok_along spec ok [] a = True"
| "ok_along spec ok (op # ops) a = (ok op a \<and> ok_along spec ok ops (snd (spec op a)))"

section \<open>Interfaces\<close>

text \<open>A component that follows an abstract description, event by event.\<close>

locale simulation =
  fixes trans :: "'a \<Rightarrow> 'e \<Rightarrow> 'a \<Rightarrow> bool"
    and step :: "'e \<Rightarrow> 's \<Rightarrow> 's"
    and abs :: "'s \<Rightarrow> 'a"
    and invar :: "'s \<Rightarrow> bool"
  assumes sim_step: "invar s \<Longrightarrow> trans (abs s) e (abs (step e s))"
    and sim_invar: "invar s \<Longrightarrow> invar (step e s)"
begin

lemma sim_run: "invar s \<Longrightarrow> steps trans (abs s) es (abs (fold step es s))"
  by (induction es arbitrary: s) (auto intro: sim_step sim_invar)

lemma invar_fold: "invar s \<Longrightarrow> invar (fold step es s)"
  by (induction es arbitrary: s) (auto intro: sim_invar)

end

text \<open>A component driven by inputs, with an invariant every input keeps.\<close>

locale invariant_system =
  fixes init :: "'s"
    and step :: "'i \<Rightarrow> 's \<Rightarrow> 's"
    and invar :: "'s \<Rightarrow> bool"
  assumes invar_init: "invar init"
    and invar_step: "invar s \<Longrightarrow> invar (step i s)"
begin

lemma invar_run_from: "invar s \<Longrightarrow> invar (fold step is s)"
  by (induction "is" arbitrary: s) (simp_all add: invar_step)

lemma invar_run: "invar (fold step is init)"
  by (rule invar_run_from) (rule invar_init)

end

text \<open>A component whose inputs only append to the call list: no call is ever taken back.\<close>

locale logging_system =
  fixes step :: "'i \<Rightarrow> ('c, 'z) machine_scheme \<Rightarrow> ('c, 'z) machine_scheme"
  assumes extends: "prefix (calls s) (calls (step i s))"
begin

lemma run_extends: "prefix (calls s) (calls (fold step is s))"
proof (induction "is" arbitrary: s)
  case Nil
  then show ?case by simp
next
  case (Cons i "is")
  then show ?case using extends [of s i] prefix_order.trans by fastforce
qed

lemma call_persists: "c \<in> set (calls s) \<Longrightarrow> c \<in> set (calls (fold step is s))"
  using run_extends [of s "is"] by (auto simp: prefix_def)

end

text \<open>
  An object whose operations give the answers of an abstract description and do not abort, as long
  as their preconditions hold.
\<close>

locale op_refinement =
  fixes exec :: "'o \<Rightarrow> 's \<Rightarrow> ('r \<times> 's) option"
    and spec :: "'o \<Rightarrow> 'a \<Rightarrow> 'r \<times> 'a"
    and abs :: "'s \<Rightarrow> 'a"
    and invar :: "'s \<Rightarrow> bool"
    and ok :: "'o \<Rightarrow> 'a \<Rightarrow> bool"
  assumes exec_spec: "invar s \<Longrightarrow> ok op (abs s) \<Longrightarrow>
    \<exists>s'. exec op s = Some (fst (spec op (abs s)), s') \<and> abs s' = snd (spec op (abs s)) \<and> invar s'"
begin

lemma runs_spec:
  "invar s \<Longrightarrow> ok_along spec ok ops (abs s) \<Longrightarrow>
    \<exists>rs s'. runs exec ops s = Some (rs, s') \<and> spec_runs spec ops (abs s) = (rs, abs s') \<and> invar s'"
proof (induction ops arbitrary: s)
  case (Cons op ops)
  obtain s1 where s1: "exec op s = Some (fst (spec op (abs s)), s1)" "abs s1 = snd (spec op (abs s))" "invar s1"
    using exec_spec [OF Cons.prems(1), of op] Cons.prems(2) by auto
  from Cons.IH [OF s1(3)] Cons.prems(2) s1 show ?case by (cases "spec op (abs s)") auto
qed simp

end

end
