(* ===== verification/Ota.thy ===== *)
theory Ota
  imports Prelude
begin

text \<open>
  The over-the-air upgrade adapter, \<^verbatim>\<open>tuya/tuyaos_adapter/src/driver/tkl_ota.c\<close>. The record
  \<open>ota\<close> is the static \<^verbatim>\<open>tkl_ota_handle\<close> beside the call list; the platform record holds the
  answers of ESP-IDF's \<^verbatim>\<open>esp_ota_*\<close> functions. \<open>ota_step\<close> is one call into the adapter by the
  Tuya SDK. The lemmas show the invariant of the upgrade state machine, that the boot partition
  is switched only behind a complete and accepted image, that a complete download succeeds, and
  what an oversized download does.
\<close>

section \<open>Data and operations\<close>

datatype TKL_OTA_STATE_T = TKL_OTA_INIT | TKL_OTA_BEGIN | TKL_OTA_IN_PROGRESS | TKL_OTA_SUCCESS

datatype TUYA_OTA_TYPE_E = TUYA_OTA_FULL | TUYA_OTA_DIFF

datatype TUYA_OTA_PATH_E =
  TUYA_OTA_PATH_AIR | TUYA_OTA_PATH_UART | TUYA_OTA_PATH_BLE | TUYA_OTA_PATH_ZIGBEE
  | TUYA_OTA_PATH_SEC_A | TUYA_OTA_PATH_SEC_B | TUYA_OTA_PATH_INVALID

text \<open>An \<^verbatim>\<open>esp_partition_t *\<close> that is not NULL is a number.\<close>

type_synonym partition_ptr = nat

datatype ota_call =
  Esp_ota_get_next_update_partition
  | Esp_ota_begin partition_ptr uint32
  | Esp_ota_write uint32 "byte list" uint32
  | Esp_ota_end uint32
  | Esp_ota_set_boot_partition "partition_ptr option"
  | Esp_restart

record ota_platform =
  next_partition :: "ota_call list \<Rightarrow> partition_ptr option"
  new_handle :: "ota_call list \<Rightarrow> uint32"
  ota_err :: "ota_call list \<Rightarrow> ota_call \<Rightarrow> int"

record ota = "ota_call machine" +
  state :: TKL_OTA_STATE_T
  handle :: uint32
  partition :: "partition_ptr option"
  image_size :: uint32
  offset_image_size :: uint32

record TUYA_OTA_DATA_T =
  total_len :: uint32
  offset :: uint32
  data :: "byte list"
  len :: uint32
  pri_data :: nat

definition tkl_ota_handle :: ota where
  "tkl_ota_handle = \<lparr>calls = [], state = TKL_OTA_INIT, handle = 0, partition = None,
     image_size = 0, offset_image_size = 0\<rparr>"

definition TKL_OTA_UPGRADE_HANDLE_INIT :: "ota \<Rightarrow> ota" where
  "TKL_OTA_UPGRADE_HANDLE_INIT h = h\<lparr>state := TKL_OTA_INIT, handle := 0, partition := None,
     image_size := 0, offset_image_size := 0\<rparr>"

definition IS_TKL_OTA_UPGRADE_IN_PROCESS :: "TKL_OTA_STATE_T \<Rightarrow> bool" where
  "IS_TKL_OTA_UPGRADE_IN_PROCESS s \<longleftrightarrow> s \<noteq> TKL_OTA_INIT"

definition tkl_ota_start_notify ::
  "ota_platform \<Rightarrow> uint32 \<Rightarrow> TUYA_OTA_TYPE_E \<Rightarrow> TUYA_OTA_PATH_E \<Rightarrow> ota \<Rightarrow> int \<times> ota" where
  "tkl_ota_start_notify p image_sz type path s =
     (if image_sz = 0 then (OPRT_INVALID_PARM, s)
      else if IS_TKL_OTA_UPGRADE_IN_PROCESS (state s) then (OPRT_COM_ERROR, s)
      else
        let s1 = TKL_OTA_UPGRADE_HANDLE_INIT s;
            next = next_partition p (calls s1);
            s2 = issue Esp_ota_get_next_update_partition s1\<lparr>partition := next\<rparr>
        in case next of
             None \<Rightarrow> (OPRT_COM_ERROR, s2)
           | Some part \<Rightarrow>
               let c = Esp_ota_begin part image_sz;
                   err = ota_err p (calls s2) c;
                   s3 = issue c s2\<lparr>handle := new_handle p (calls s2)\<rparr>
               in if err \<noteq> ESP_OK
                  then (OPRT_COM_ERROR, s3\<lparr>handle := 0, partition := None\<rparr>)
                  else (OPRT_OK, s3\<lparr>image_size := image_sz, state := TKL_OTA_BEGIN\<rparr>))"

text \<open>
  A NULL pointer is \<open>None\<close>. The second component of the result is what is stored through
  \<^verbatim>\<open>remain_len\<close>, \<open>None\<close> when nothing is stored.
\<close>

definition tkl_ota_data_process ::
  "ota_platform \<Rightarrow> TUYA_OTA_DATA_T option \<Rightarrow> bool \<Rightarrow> ota \<Rightarrow> (int \<times> uint32 option) \<times> ota" where
  "tkl_ota_data_process p pack remain_len_given s =
     (case pack of
        None \<Rightarrow> ((OPRT_INVALID_PARM, None), s)
      | Some d \<Rightarrow>
          if \<not> remain_len_given then ((OPRT_INVALID_PARM, None), s)
          else if state s = TKL_OTA_INIT then ((OPRT_COM_ERROR, None), s)
          else if state s = TKL_OTA_SUCCESS then ((OPRT_OK, Some 0), s)
          else
            let c = Esp_ota_write (handle s) (data d) (len d);
                s1 = issue c s
            in if ota_err p (calls s) c \<noteq> ESP_OK then ((OPRT_COM_ERROR, None), s1)
               else
                 let s2 = s1\<lparr>offset_image_size := offset_image_size s1 + len d\<rparr>;
                     s3 = (if state s2 = TKL_OTA_BEGIN
                           then s2\<lparr>state := TKL_OTA_IN_PROGRESS\<rparr> else s2);
                     s4 = (if state s3 = TKL_OTA_IN_PROGRESS
                             \<and> offset_image_size s3 = image_size s3
                           then s3\<lparr>state := TKL_OTA_SUCCESS\<rparr> else s3)
                 in ((OPRT_OK, None), s4))"

text \<open>
  \<^verbatim>\<open>esp_restart\<close> does not return; the model records the call and returns what the code after it
  would.
\<close>

definition tkl_ota_end_notify :: "ota_platform \<Rightarrow> bool \<Rightarrow> ota \<Rightarrow> int \<times> ota" where
  "tkl_ota_end_notify p reset s =
     (let err_exit = (\<lambda>s. (OPRT_COM_ERROR, TKL_OTA_UPGRADE_HANDLE_INIT s)) in
      if state s \<noteq> TKL_OTA_SUCCESS then err_exit s
      else
        let c = Esp_ota_end (handle s); s1 = issue c s
        in if ota_err p (calls s) c \<noteq> ESP_OK then err_exit s1
           else
               let d = Esp_ota_set_boot_partition (partition s1); s2 = issue d s1
               in if ota_err p (calls s1) d \<noteq> ESP_OK then err_exit s2
                  else
                    let s3 = TKL_OTA_UPGRADE_HANDLE_INIT s2
                    in (OPRT_OK, if reset then issue Esp_restart s3 else s3))"

definition tkl_ota_get_ability :: "(uint32 \<times> TUYA_OTA_TYPE_E) \<times> int" where
  "tkl_ota_get_ability = ((0xFFFFFFFF, TUYA_OTA_FULL), OPRT_OK)"

text \<open>One call of the SDK into the adapter, and a run of such calls.\<close>

datatype ota_input =
  Start uint32 TUYA_OTA_TYPE_E TUYA_OTA_PATH_E
  | Data "TUYA_OTA_DATA_T option" bool
  | End bool

fun ota_step :: "ota_platform \<Rightarrow> ota_input \<Rightarrow> ota \<Rightarrow> ota" where
  "ota_step p (Start image_sz type path) s = snd (tkl_ota_start_notify p image_sz type path s)"
| "ota_step p (Data pack r) s = snd (tkl_ota_data_process p pack r s)"
| "ota_step p (End reset) s = snd (tkl_ota_end_notify p reset s)"

section \<open>The invariant of the upgrade handle\<close>

definition ota_inv :: "ota \<Rightarrow> bool" where
  "ota_inv s \<longleftrightarrow>
     (case state s of
        TKL_OTA_INIT \<Rightarrow>
          handle s = 0 \<and> partition s = None \<and> image_size s = 0 \<and> offset_image_size s = 0
      | TKL_OTA_BEGIN \<Rightarrow> partition s \<noteq> None \<and> image_size s \<noteq> 0 \<and> offset_image_size s = 0
      | TKL_OTA_IN_PROGRESS \<Rightarrow>
          partition s \<noteq> None \<and> image_size s \<noteq> 0 \<and> offset_image_size s \<noteq> image_size s
      | TKL_OTA_SUCCESS \<Rightarrow>
          partition s \<noteq> None \<and> image_size s \<noteq> 0 \<and> offset_image_size s = image_size s)"

lemmas ota_op_defs = tkl_ota_start_notify_def tkl_ota_data_process_def tkl_ota_end_notify_def
  TKL_OTA_UPGRADE_HANDLE_INIT_def IS_TKL_OTA_UPGRADE_IN_PROCESS_def issue_def Let_def

lemma ota_inv_step: "ota_inv s \<Longrightarrow> ota_inv (ota_step p i s)"
  by (cases i; cases "state s")
    (auto simp: ota_op_defs ota_inv_def split: option.splits)

lemma ota_calls_extend: "prefix (calls s) (calls (ota_step p i s))"
  by (cases i) (auto simp: ota_op_defs split: option.splits)

interpretation ota_run: invariant_system tkl_ota_handle "ota_step p" ota_inv for p
  by unfold_locales (simp add: ota_inv_def tkl_ota_handle_def, rule ota_inv_step)

interpretation ota_log: logging_system "ota_step p" for p
  by unfold_locales (rule ota_calls_extend)

section \<open>What the calls of a run mean\<close>

text \<open>
  The reference reading of a call list: which upgrade session the answered calls have opened, how
  many bytes the platform has accepted in it, and whether it has been closed.
\<close>

datatype session =
  Idle
  | Open uint32 partition_ptr uint32 nat
  | Closed partition_ptr uint32 nat

fun session_step :: "ota_platform \<Rightarrow> ota_call list \<Rightarrow> ota_call \<Rightarrow> session \<Rightarrow> session" where
  "session_step p tr (Esp_ota_begin part n) S =
     (if ota_err p tr (Esp_ota_begin part n) = ESP_OK then Open (new_handle p tr) part n 0
      else Idle)"
| "session_step p tr (Esp_ota_write h bs l) (Open h' part n t) =
     (if h \<noteq> h' then Idle
      else if ota_err p tr (Esp_ota_write h bs l) = ESP_OK then Open h' part n (t + unat l)
      else Open h' part n t)"
| "session_step p tr (Esp_ota_end h) (Open h' part n t) =
     (if h = h' \<and> ota_err p tr (Esp_ota_end h) = ESP_OK then Closed part n t else Idle)"
| "session_step p tr c S = S"

definition session_of :: "ota_platform \<Rightarrow> ota_call list \<Rightarrow> session" where
  "session_of p tr = hist (session_step p) Idle tr"

text \<open>A switch of the boot partition comes after a closed session whose accepted bytes are
  those announced, and switches to the partition of that session.\<close>

definition boot_ok :: "ota_platform \<Rightarrow> ota_call list \<Rightarrow> ota_call \<Rightarrow> bool" where
  "boot_ok p tr c \<longleftrightarrow>
     (case c of
        Esp_ota_set_boot_partition q \<Rightarrow>
          (case session_of p tr of Closed part n t \<Rightarrow> q = Some part \<and> of_nat t = n | _ \<Rightarrow> False)
      | _ \<Rightarrow> True)"

lemma session_of_append [simp]:
  "session_of p (xs @ ys) = hist_from (session_step p) xs (session_of p xs) ys"
  by (simp add: session_of_def)

text \<open>The simulation: outside INIT the handle describes the session its calls have opened.\<close>

definition ota_sim :: "ota_platform \<Rightarrow> ota \<Rightarrow> bool" where
  "ota_sim p s \<longleftrightarrow> every_call (boot_ok p) (calls s) \<and>
     (state s \<noteq> TKL_OTA_INIT \<longrightarrow>
        (\<exists>part t. session_of p (calls s) = Open (handle s) part (image_size s) t
           \<and> partition s = Some part \<and> of_nat t = offset_image_size s)) \<and>
     (state s = TKL_OTA_SUCCESS \<longrightarrow> offset_image_size s = image_size s)"

lemma ota_sim_start:
  "ota_sim p s \<Longrightarrow> ota_sim p (snd (tkl_ota_start_notify p n ty path s))"
  by (cases "next_partition p (calls s)")
    (simp_all add: ota_op_defs ota_sim_def boot_ok_def)

lemma ota_sim_data:
  assumes "ota_sim p s"
  shows "ota_sim p (snd (tkl_ota_data_process p pack r s))"
proof (cases "pack = None \<or> \<not> r \<or> state s \<in> {TKL_OTA_INIT, TKL_OTA_SUCCESS}")
  case True
  with assms show ?thesis
    by (auto simp: tkl_ota_data_process_def split: option.splits)
next
  case False
  then obtain d where d: "pack = Some d" "r" "state s = TKL_OTA_BEGIN \<or> state s = TKL_OTA_IN_PROGRESS"
    by (cases "state s") auto
  then obtain part t where "session_of p (calls s) = Open (handle s) part (image_size s) t"
      "partition s = Some part" "of_nat t = offset_image_size s" "every_call (boot_ok p) (calls s)"
    using assms by (auto simp: ota_sim_def)
  with d show ?thesis
    by (elim disjE) (simp_all add: ota_op_defs ota_sim_def boot_ok_def)
qed

lemma ota_sim_end:
  assumes "ota_sim p s"
  shows "ota_sim p (snd (tkl_ota_end_notify p reset s))"
proof (cases "state s = TKL_OTA_SUCCESS")
  case True
  then obtain part t where "session_of p (calls s) = Open (handle s) part (image_size s) t"
      "partition s = Some part" "of_nat t = image_size s" "every_call (boot_ok p) (calls s)"
    using assms by (auto simp: ota_sim_def)
  with True show ?thesis
    by (simp add: ota_op_defs ota_sim_def boot_ok_def)
next
  case False
  with assms show ?thesis by (simp add: ota_op_defs ota_sim_def)
qed

lemma ota_sim_step: "ota_sim p s \<Longrightarrow> ota_sim p (ota_step p i s)"
  by (cases i) (simp_all add: ota_sim_start ota_sim_data ota_sim_end)

interpretation ota_sim_run: invariant_system tkl_ota_handle "ota_step p" "ota_sim p" for p
  by unfold_locales (simp add: ota_sim_def tkl_ota_handle_def, rule ota_sim_step)

section \<open>A download in chunks\<close>

definition ota_accepting :: "ota_platform \<Rightarrow> bool" where
  "ota_accepting p \<longleftrightarrow> (\<forall>tr c. ota_err p tr c = ESP_OK) \<and> (\<forall>tr. next_partition p tr \<noteq> None)"

abbreviation chunk_input :: "TUYA_OTA_DATA_T \<Rightarrow> ota_input" where
  "chunk_input d \<equiv> Data (Some d) True"

abbreviation chunk_bytes :: "TUYA_OTA_DATA_T list \<Rightarrow> nat" where
  "chunk_bytes ds \<equiv> sum_list (map (\<lambda>d. unat (len d)) ds)"

definition write_of :: "uint32 \<Rightarrow> TUYA_OTA_DATA_T \<Rightarrow> ota_call" where
  "write_of h d = Esp_ota_write h (data d) (len d)"

lemma data_step_ok:
  assumes "\<And>tr c. ota_err p tr c = ESP_OK" "state s \<in> {TKL_OTA_BEGIN, TKL_OTA_IN_PROGRESS}"
  shows "ota_step p (chunk_input d) s =
     s\<lparr>calls := calls s @ [write_of (handle s) d],
       state := (if offset_image_size s + len d = image_size s then TKL_OTA_SUCCESS
                 else TKL_OTA_IN_PROGRESS),
       offset_image_size := offset_image_size s + len d\<rparr>"
  using assms by (auto simp: tkl_ota_data_process_def issue_def Let_def write_of_def)

lemma chunks_ok:
  assumes "\<And>tr c. ota_err p tr c = ESP_OK"
    and "state s \<in> {TKL_OTA_BEGIN, TKL_OTA_IN_PROGRESS}"
    and "ds \<noteq> []" "\<forall>d \<in> set ds. len d \<noteq> 0"
    and "unat (offset_image_size s) + chunk_bytes ds = unat (image_size s)"
  shows "fold (ota_step p) (map chunk_input ds) s =
     s\<lparr>calls := calls s @ map (write_of (handle s)) ds,
       state := TKL_OTA_SUCCESS, offset_image_size := image_size s\<rparr>"
  using assms
proof (induction ds arbitrary: s)
  case (Cons d ds)
  have lt: "unat (offset_image_size s) + unat (len d) < 2 ^ 32"
    using Cons.prems(5) unat_less_32 [of "image_size s"] by simp
  note sum = unat_plus_exact [OF lt]
  show ?case
  proof (cases "ds = []")
    case True
    then have "offset_image_size s + len d = image_size s"
      using Cons.prems(5) sum by (simp add: unsigned_word_eqI)
    with True Cons.prems(1,2) show ?thesis
      by (simp add: data_step_ok del: ota_step.simps)
  next
    case False
    then obtain e es where ds: "ds = e # es" by (cases ds) auto
    with Cons.prems(4) have "unat (len e) > 0" by (simp add: unat_gt_0)
    then have "offset_image_size s + len d \<noteq> image_size s"
      using Cons.prems(5) sum ds by auto
    moreover from False Cons.prems sum show ?thesis
      using calculation Cons.IH [of "ota_step p (chunk_input d) s"]
      by (simp add: data_step_ok del: ota_step.simps)
  qed
qed simp

lemma chunks_overshoot:
  assumes "state s = TKL_OTA_IN_PROGRESS" "unat (image_size s) < unat (offset_image_size s)"
    and "unat (offset_image_size s) + chunk_bytes ds < 2 ^ 32"
  shows "let s' = fold (ota_step p) (map chunk_input ds) s
    in state s' = TKL_OTA_IN_PROGRESS \<and> image_size s' = image_size s
       \<and> unat (image_size s') < unat (offset_image_size s')"
  using assms
proof (induction ds arbitrary: s)
  case Nil
  then show ?case by simp
next
  case (Cons d ds)
  have lt: "unat (offset_image_size s) + unat (len d) < 2 ^ 32"
    using Cons.prems(3) by simp
  note sum = unat_plus_exact [OF lt]
  let ?s = "ota_step p (chunk_input d) s"
  have "offset_image_size s + len d \<noteq> image_size s" using Cons.prems(2) sum by auto
  then have "state ?s = TKL_OTA_IN_PROGRESS" "image_size ?s = image_size s"
    "offset_image_size ?s \<in> {offset_image_size s, offset_image_size s + len d}"
    using Cons.prems(1) by (auto simp: tkl_ota_data_process_def issue_def Let_def)
  then show ?case using Cons.IH [of ?s] Cons.prems sum by auto
qed

section \<open>Properties\<close>

text \<open>
  C25: in every state the adapter reaches, whatever the SDK calls in whatever order and whatever
  the platform answers, the upgrade handle is consistent: all cleared in INIT; a partition and a
  non-zero image size otherwise, with no byte counted in BEGIN, the count different from the image
  size in IN_PROGRESS and equal to it in SUCCESS.
\<close>

theorem ota_handle_consistent: "ota_inv (fold (ota_step p) is tkl_ota_handle)"
  by (rule ota_run.invar_run)

text \<open>
  C3: the device never switches its boot partition to an incomplete image. Whenever a run has
  called \<^verbatim>\<open>esp_ota_set_boot_partition\<close>, the calls before it had opened an upgrade session on that
  very partition, the platform had accepted writes through that session's handle that add up
  (modulo 2^32) to the announced image size, and \<^verbatim>\<open>esp_ota_end\<close> had validated the image.
\<close>

theorem ota_boot_switch_safe:
  assumes "calls (fold (ota_step p) is tkl_ota_handle)
    = pre @ Esp_ota_set_boot_partition q # post"
  shows "\<exists>part n t. session_of p pre = Closed part n t \<and> q = Some part \<and> of_nat t = n"
  using ota_sim_run.invar_run [of p "is"] every_call_at [of "boot_ok p" pre] assms
  by (auto simp: ota_sim_def boot_ok_def split: session.splits)

definition example_platform :: ota_platform where
  "example_platform = \<lparr>next_partition = (\<lambda>_. Some 7), new_handle = (\<lambda>_. 5),
     ota_err = (\<lambda>_ _. ESP_OK)\<rparr>"

definition example_chunk :: TUYA_OTA_DATA_T where
  "example_chunk = \<lparr>total_len = 4, offset = 0, data = [1, 2], len = 2, pri_data = 0\<rparr>"

lemmas example_simps = example_platform_def example_chunk_def tkl_ota_handle_def ota_op_defs

theorem ota_boot_switch_safe_witness:
  "\<exists>part n t. session_of example_platform
      [Esp_ota_get_next_update_partition, Esp_ota_begin 7 4, Esp_ota_write 5 [1, 2] 2,
       Esp_ota_write 5 [1, 2] 2, Esp_ota_end 5] = Closed part n t
     \<and> Some 7 = Some part \<and> of_nat t = n"
  by (rule ota_boot_switch_safe [of example_platform
        "[Start 4 TUYA_OTA_FULL TUYA_OTA_PATH_AIR, chunk_input example_chunk,
          chunk_input example_chunk, End True]" _ "Some 7" "[Esp_restart]"])
    (simp add: example_simps)

text \<open>
  C16: a download that arrives completely is installed. When the platform accepts every call and
  the non-empty chunks add up to the announced size, then from an idle adapter every chunk is
  written in order to the handle of the new session, \<^verbatim>\<open>tkl_ota_end_notify\<close> answers success, the
  boot partition is switched exactly once, the device restarts exactly when asked, and the handle
  is idle again.
\<close>

theorem ota_complete_download:
  assumes "ota_accepting p" "state s = TKL_OTA_INIT" "n \<noteq> 0"
    and "\<forall>d \<in> set ds. len d \<noteq> 0" "chunk_bytes ds = unat n"
  shows "\<exists>part h. let s' = fold (ota_step p) (Start n ty path # map chunk_input ds) s
    in fst (tkl_ota_end_notify p reset s') = OPRT_OK
       \<and> snd (tkl_ota_end_notify p reset s') = (TKL_OTA_UPGRADE_HANDLE_INIT s)
           \<lparr>calls := calls s @ [Esp_ota_get_next_update_partition, Esp_ota_begin part n]
              @ map (write_of h) ds @ [Esp_ota_end h, Esp_ota_set_boot_partition (Some part)]
              @ (if reset then [Esp_restart] else [])\<rparr>"
proof -
  obtain part where part: "next_partition p (calls s) = Some part"
    using assms(1) unfolding ota_accepting_def by blast
  define h where "h = new_handle p (calls s @ [Esp_ota_get_next_update_partition])"
  define s1 where "s1 = ota_step p (Start n ty path) s"
  have ok: "\<And>tr c. ota_err p tr c = ESP_OK" using assms(1) by (simp add: ota_accepting_def)
  have s1: "s1 = s\<lparr>calls := calls s @ [Esp_ota_get_next_update_partition, Esp_ota_begin part n],
      state := TKL_OTA_BEGIN, handle := h, partition := Some part, image_size := n,
      offset_image_size := 0\<rparr>"
    using assms(2,3) part ok by (simp add: s1_def h_def ota_op_defs)
  have "ds \<noteq> []" using assms(3,5) by (auto simp: unat_eq_0)
  then have "fold (ota_step p) (map chunk_input ds) s1 =
      s1\<lparr>calls := calls s1 @ map (write_of h) ds, state := TKL_OTA_SUCCESS, offset_image_size := n\<rparr>"
    using chunks_ok [OF ok, of s1 ds] assms(4,5) by (simp add: s1)
  then show ?thesis
    using ok by (intro exI [of _ part] exI [of _ h])
      (simp add: s1_def [symmetric] del: ota_step.simps, simp add: s1 ota_op_defs)
qed

theorem ota_complete_download_witness:
  "\<exists>part h. let s' = fold (ota_step example_platform)
      (Start 4 TUYA_OTA_FULL TUYA_OTA_PATH_AIR # map chunk_input [example_chunk, example_chunk])
      tkl_ota_handle
    in fst (tkl_ota_end_notify example_platform True s') = OPRT_OK
       \<and> snd (tkl_ota_end_notify example_platform True s') = (TKL_OTA_UPGRADE_HANDLE_INIT tkl_ota_handle)
           \<lparr>calls := calls tkl_ota_handle
              @ [Esp_ota_get_next_update_partition, Esp_ota_begin part 4]
              @ map (write_of h) [example_chunk, example_chunk]
              @ [Esp_ota_end h, Esp_ota_set_boot_partition (Some part)]
              @ (if True then [Esp_restart] else [])\<rparr>"
  by (rule ota_complete_download)
    (simp_all add: ota_accepting_def example_platform_def example_chunk_def tkl_ota_handle_def)

text \<open>
  A download that has passed the announced size is never installed. Once more bytes than
  announced have been counted, no further chunk (short of a wrap of the 32-bit counter) brings the
  adapter to SUCCESS, whatever the platform answers: \<^verbatim>\<open>tkl_ota_end_notify\<close> reports an error,
  issues no platform call and leaves the handle idle.
\<close>

lemma ota_oversized_refused:
  assumes "state s = TKL_OTA_IN_PROGRESS" "unat (image_size s) < unat (offset_image_size s)"
    and "unat (offset_image_size s) + chunk_bytes ds < 2 ^ 32"
  shows "let s' = fold (ota_step p) (map chunk_input ds) s
    in tkl_ota_end_notify p reset s' = (OPRT_COM_ERROR, TKL_OTA_UPGRADE_HANDLE_INIT s')
       \<and> calls (TKL_OTA_UPGRADE_HANDLE_INIT s') = calls s'"
  using chunks_overshoot [OF assms, of p]
  by (simp add: Let_def tkl_ota_end_notify_def TKL_OTA_UPGRADE_HANDLE_INIT_def)

end
