(* ===== verification/Flash.thy ===== *)
theory Flash
  imports Prelude
begin

text \<open>
  The flash adapter, \<^verbatim>\<open>tuya/tuyaos_adapter/src/driver/tkl_flash.c\<close>, on top of ESP-IDF's partition
  layer (\<^verbatim>\<open>esp-idf/components/spi_flash/partition.c\<close>): the partition search, the bound checks of
  \<^verbatim>\<open>esp_partition_read/write/erase_range\<close> with their 32-bit sums, and the region table the adapter
  reports to the SDK. The chip driver below (\<^verbatim>\<open>esp_flash_read/write/erase_region\<close>) is a parameter;
  \<open>nor_flash\<close> states what a NOR chip promises. The lemmas show that the reported regions are
  usable and disjoint, that the adapter never touches a byte outside its partition, and the
  erase/write/read round trip.
\<close>

section \<open>Partitions\<close>

text \<open>The types the firmware knows, and any other number a table may hold.\<close>

datatype esp_partition_type = ESP_PARTITION_TYPE_APP | ESP_PARTITION_TYPE_DATA | Other_type byte

record esp_partition_t =
  flash_chip_default :: bool
  ptype :: esp_partition_type
  subtype :: nat
  address :: uint32
  psize :: uint32
  label :: string
  encrypted :: bool

type_synonym flash_mem = "uint32 \<Rightarrow> byte"

record flash_driver =
  esp_flash_read :: "flash_mem \<Rightarrow> uint32 \<Rightarrow> uint32 \<Rightarrow> int \<times> byte list"
  esp_flash_write :: "flash_mem \<Rightarrow> byte list \<Rightarrow> uint32 \<Rightarrow> uint32 \<Rightarrow> int \<times> flash_mem"
  esp_flash_erase_region :: "flash_mem \<Rightarrow> uint32 \<Rightarrow> uint32 \<Rightarrow> int \<times> flash_mem"
  esp_flash_read_mapped :: "flash_mem \<Rightarrow> uint32 \<Rightarrow> uint32 \<Rightarrow> int \<times> byte list"
  esp_flash_write_encrypted :: "flash_mem \<Rightarrow> byte list \<Rightarrow> uint32 \<Rightarrow> uint32 \<Rightarrow> int \<times> flash_mem"

text \<open>The loaded partition table and the flash.\<close>

record flash =
  s_partition_list :: "esp_partition_t list"
  mem :: flash_mem

definition ESP_ERR_INVALID_ARG :: int where [simp]: "ESP_ERR_INVALID_ARG = 0x102"
definition ESP_ERR_INVALID_SIZE :: int where [simp]: "ESP_ERR_INVALID_SIZE = 0x104"
definition ESP_ERR_NOT_SUPPORTED :: int where [simp]: "ESP_ERR_NOT_SUPPORTED = 0x106"
definition SPI_FLASH_SEC_SIZE :: uint32 where [simp]: "SPI_FLASH_SEC_SIZE = 4096"

text \<open>The walk of \<^verbatim>\<open>esp_partition_next\<close> over the list; \<open>None\<close> is the ANY constraint.\<close>

definition partition_matches ::
  "esp_partition_type option \<Rightarrow> nat option \<Rightarrow> string option \<Rightarrow> esp_partition_t \<Rightarrow> bool" where
  "partition_matches ty sub lab p \<longleftrightarrow>
     (case ty of None \<Rightarrow> True | Some t \<Rightarrow> t = ptype p)
     \<and> (case sub of None \<Rightarrow> True | Some u \<Rightarrow> u = subtype p)
     \<and> (case lab of None \<Rightarrow> True | Some l \<Rightarrow> l = label p)"

definition esp_partition_find_first ::
  "esp_partition_type option \<Rightarrow> nat option \<Rightarrow> string option \<Rightarrow> flash \<Rightarrow> esp_partition_t option" where
  "esp_partition_find_first ty sub lab f =
     (if ty = None \<and> sub \<noteq> None then None
      else find (partition_matches ty sub lab) (s_partition_list f))"

definition esp_partition_read ::
  "flash_driver \<Rightarrow> esp_partition_t \<Rightarrow> uint32 \<Rightarrow> uint32 \<Rightarrow> flash \<Rightarrow> int \<times> byte list" where
  "esp_partition_read d p src_offset n f =
     (if src_offset > psize p then (ESP_ERR_INVALID_ARG, [])
      else if src_offset + n > psize p then (ESP_ERR_INVALID_SIZE, [])
      else if \<not> encrypted p then esp_flash_read d (mem f) (address p + src_offset) n
      else if \<not> flash_chip_default p then (ESP_ERR_NOT_SUPPORTED, [])
      else esp_flash_read_mapped d (mem f) (address p + src_offset) n)"

definition esp_partition_write ::
  "flash_driver \<Rightarrow> esp_partition_t \<Rightarrow> uint32 \<Rightarrow> byte list \<Rightarrow> uint32 \<Rightarrow> flash \<Rightarrow> int \<times> flash" where
  "esp_partition_write d p dst_offset src n f =
     (let upd = (\<lambda>(err, m). (err, f\<lparr>mem := m\<rparr>)) in
      if dst_offset > psize p then (ESP_ERR_INVALID_ARG, f)
      else if dst_offset + n > psize p then (ESP_ERR_INVALID_SIZE, f)
      else if \<not> encrypted p then upd (esp_flash_write d (mem f) src (address p + dst_offset) n)
      else if \<not> flash_chip_default p then (ESP_ERR_NOT_SUPPORTED, f)
      else upd (esp_flash_write_encrypted d (mem f) src (address p + dst_offset) n))"

definition esp_partition_erase_range ::
  "flash_driver \<Rightarrow> esp_partition_t \<Rightarrow> uint32 \<Rightarrow> uint32 \<Rightarrow> flash \<Rightarrow> int \<times> flash" where
  "esp_partition_erase_range d p offset n f =
     (let upd = (\<lambda>(err, m). (err, f\<lparr>mem := m\<rparr>)) in
      if offset > psize p then (ESP_ERR_INVALID_ARG, f)
      else if offset + n > psize p then (ESP_ERR_INVALID_SIZE, f)
      else if n mod SPI_FLASH_SEC_SIZE \<noteq> 0 then (ESP_ERR_INVALID_SIZE, f)
      else if offset mod SPI_FLASH_SEC_SIZE \<noteq> 0 then (ESP_ERR_INVALID_ARG, f)
      else upd (esp_flash_erase_region d (mem f) (address p + offset) n))"

section \<open>The adapter\<close>

definition PARTITION_SIZE :: uint32 where [simp]: "PARTITION_SIZE = push_bit 12 1"
definition FLH_BLOCK_SZ :: uint32 where [simp]: "FLH_BLOCK_SZ = PARTITION_SIZE"
definition SIMPLE_FLASH_KEY_ADDR :: uint32 where [simp]: "SIMPLE_FLASH_KEY_ADDR = 0x0"
definition SIMPLE_FLASH_START :: uint32 where [simp]:
  "SIMPLE_FLASH_START = SIMPLE_FLASH_KEY_ADDR + PARTITION_SIZE"
definition SIMPLE_FLASH_SIZE :: uint32 where [simp]: "SIMPLE_FLASH_SIZE = 0x8000"
definition UF_PARTITION_START :: uint32 where [simp]:
  "UF_PARTITION_START = SIMPLE_FLASH_START + SIMPLE_FLASH_SIZE"
definition UF_PARTITION_SIZE :: uint32 where [simp]: "UF_PARTITION_SIZE = 0x18000"

definition GET_TUYA_DATA_PARTITION :: "flash \<Rightarrow> esp_partition_t option" where
  "GET_TUYA_DATA_PARTITION f =
     esp_partition_find_first (Some ESP_PARTITION_TYPE_DATA) None (Some ''tuya'') f"

text \<open>A NULL \<^verbatim>\<open>dst\<close> is \<open>dst_given = False\<close>; the bytes stored to \<^verbatim>\<open>dst\<close> are the second result.\<close>

definition tkl_flash_read ::
  "flash_driver \<Rightarrow> uint32 \<Rightarrow> bool \<Rightarrow> uint32 \<Rightarrow> flash \<Rightarrow> int \<times> byte list" where
  "tkl_flash_read d addr dst_given n f =
     (if \<not> dst_given \<or> n = 0 then (OPRT_INVALID_PARM, [])
      else case GET_TUYA_DATA_PARTITION f of
          None \<Rightarrow> (OPRT_COM_ERROR, [])
        | Some p \<Rightarrow>
            let (err, bs) = esp_partition_read d p addr n f
            in (if err \<noteq> ESP_OK then OPRT_COM_ERROR else OPRT_OK, bs))"

definition tkl_flash_write ::
  "flash_driver \<Rightarrow> uint32 \<Rightarrow> byte list option \<Rightarrow> uint32 \<Rightarrow> flash \<Rightarrow> int \<times> flash" where
  "tkl_flash_write d addr src n f =
     (case src of
        None \<Rightarrow> (OPRT_INVALID_PARM, f)
      | Some bs \<Rightarrow>
          if n = 0 then (OPRT_INVALID_PARM, f)
          else case GET_TUYA_DATA_PARTITION f of
              None \<Rightarrow> (OPRT_COM_ERROR, f)
            | Some p \<Rightarrow>
                let (err, f') = esp_partition_write d p addr bs n f
                in (if err \<noteq> ESP_OK then OPRT_COM_ERROR else OPRT_OK, f'))"

definition tkl_flash_erase :: "flash_driver \<Rightarrow> uint32 \<Rightarrow> uint32 \<Rightarrow> flash \<Rightarrow> int \<times> flash" where
  "tkl_flash_erase d addr n f =
     (case GET_TUYA_DATA_PARTITION f of
        None \<Rightarrow> (OPRT_COM_ERROR, f)
      | Some p \<Rightarrow>
          let (err, f') = esp_partition_erase_range d p addr n f
          in (if err \<noteq> ESP_OK then OPRT_COM_ERROR else OPRT_OK, f'))"

datatype TUYA_FLASH_TYPE_E =
  TUYA_FLASH_TYPE_BTL0 | TUYA_FLASH_TYPE_BTL1 | TUYA_FLASH_TYPE_STACK | TUYA_FLASH_TYPE_APP
  | TUYA_FLASH_TYPE_OTA | TUYA_FLASH_TYPE_USER0 | TUYA_FLASH_TYPE_USER1 | TUYA_FLASH_TYPE_KV_DATA
  | TUYA_FLASH_TYPE_KV_SWAP | TUYA_FLASH_TYPE_KV_KEY | TUYA_FLASH_TYPE_UF | TUYA_FLASH_TYPE_INFO
  | TUYA_FLASH_TYPE_KV_UF | TUYA_FLASH_TYPE_KV_PROTECT | TUYA_FLASH_TYPE_RCD | TUYA_FLASH_TYPE_MAX

record TUYA_FLASH_PARTITION_T =
  block_size :: uint32
  start_addr :: uint32
  fsize :: uint32

text \<open>
  The partitions filled in (their number is \<^verbatim>\<open>partition_num\<close>), \<open>None\<close> when nothing is stored. A
  value outside the enumeration takes the first guard, as \<^verbatim>\<open>TUYA_FLASH_TYPE_MAX\<close> takes the
  default case: both are refused with the same code.
\<close>

definition tkl_flash_get_one_type_info ::
  "TUYA_FLASH_TYPE_E \<Rightarrow> bool \<Rightarrow> int \<times> TUYA_FLASH_PARTITION_T list option" where
  "tkl_flash_get_one_type_info type info_given =
     (if \<not> info_given then (OPRT_INVALID_PARM, None)
      else case type of
          TUYA_FLASH_TYPE_UF \<Rightarrow> (OPRT_OK, Some [\<lparr>block_size = PARTITION_SIZE,
            start_addr = UF_PARTITION_START, fsize = UF_PARTITION_SIZE\<rparr>])
        | TUYA_FLASH_TYPE_KV_DATA \<Rightarrow> (OPRT_OK, Some [\<lparr>block_size = FLH_BLOCK_SZ,
            start_addr = SIMPLE_FLASH_START, fsize = SIMPLE_FLASH_SIZE\<rparr>])
        | TUYA_FLASH_TYPE_KV_KEY \<Rightarrow> (OPRT_OK, Some [\<lparr>block_size = FLH_BLOCK_SZ,
            start_addr = SIMPLE_FLASH_KEY_ADDR, fsize = FLH_BLOCK_SZ\<rparr>])
        | _ \<Rightarrow> (OPRT_INVALID_PARM, None))"

definition tkl_flash_lock :: "uint32 \<Rightarrow> uint32 \<Rightarrow> int" where
  "tkl_flash_lock addr n = OPRT_NOT_SUPPORTED"

definition tkl_flash_unlock :: "uint32 \<Rightarrow> uint32 \<Rightarrow> int" where
  "tkl_flash_unlock addr n = OPRT_NOT_SUPPORTED"

text \<open>The partition table the image is built with, \<^verbatim>\<open>partitions.csv\<close>.\<close>

definition csv_entry ::
  "string \<Rightarrow> esp_partition_type \<Rightarrow> nat \<Rightarrow> uint32 \<Rightarrow> uint32 \<Rightarrow> esp_partition_t" where
  "csv_entry name ty sub off n = \<lparr>flash_chip_default = True, ptype = ty, subtype = sub,
     address = off, psize = n, label = name, encrypted = False\<rparr>"

definition partitions_csv :: "esp_partition_t list" where
  "partitions_csv =
    [csv_entry ''nvs'' ESP_PARTITION_TYPE_DATA 0x02 0x9000 0x4000,
     csv_entry ''otadata'' ESP_PARTITION_TYPE_DATA 0x00 0xd000 0x2000,
     csv_entry ''phy_init'' ESP_PARTITION_TYPE_DATA 0x01 0xf000 0x1000,
     csv_entry ''ota_0'' ESP_PARTITION_TYPE_APP 0x10 0x10000 0x180000,
     csv_entry ''ota_1'' ESP_PARTITION_TYPE_APP 0x11 0x190000 0x180000,
     csv_entry ''tuya'' ESP_PARTITION_TYPE_DATA 0xAA 0x3b0000 0x28000,
     csv_entry ''factory_nvs'' ESP_PARTITION_TYPE_DATA 0x02 0x3e0000 0x4000]"

section \<open>What the chip driver promises\<close>

text \<open>A working NOR chip of \<open>cs\<close> bytes: a read returns the bytes, a write clears bits, a sector
  erase sets them. Writing and erasing are promised for the ranges \<open>safe\<close> allows.\<close>

definition nor_flash :: "(uint32 \<Rightarrow> uint32 \<Rightarrow> bool) \<Rightarrow> nat \<Rightarrow> flash_driver \<Rightarrow> bool" where
  "nor_flash safe cs d \<longleftrightarrow>
     (\<forall>m a n. unat a + unat n \<le> cs \<longrightarrow>
        esp_flash_read d m a n = (ESP_OK, map (\<lambda>i. m (a + of_nat i)) [0..<unat n]))
   \<and> (\<forall>m src a n. unat a + unat n \<le> cs \<and> safe a n \<and> length src = unat n \<longrightarrow>
        esp_flash_write d m src a n
          = (ESP_OK, \<lambda>x. if x - a < n then m x AND src ! unat (x - a) else m x))
   \<and> (\<forall>m a n. unat a + unat n \<le> cs \<and> safe a n \<and> a mod SPI_FLASH_SEC_SIZE = 0 \<and> n mod SPI_FLASH_SEC_SIZE = 0 \<longrightarrow>
        esp_flash_erase_region d m a n = (ESP_OK, \<lambda>x. if x - a < n then 0xFF else m x))"

text \<open>Whatever a driver call answers, it changes nothing outside the range it was given.\<close>

definition confined :: "flash_driver \<Rightarrow> bool" where
  "confined d \<longleftrightarrow>
     (\<forall>m a n x. \<not> x - a < n \<longrightarrow> snd (esp_flash_erase_region d m a n) x = m x)
   \<and> (\<forall>m src a n x. \<not> x - a < n \<longrightarrow> snd (esp_flash_write d m src a n) x = m x)
   \<and> (\<forall>m src a n x. \<not> x - a < n \<longrightarrow> snd (esp_flash_write_encrypted d m src a n) x = m x)"

section \<open>Lemmas\<close>

lemma tuya_partition:
  "s_partition_list f = partitions_csv \<Longrightarrow>
   GET_TUYA_DATA_PARTITION f = Some (csv_entry ''tuya'' ESP_PARTITION_TYPE_DATA 0xAA 0x3b0000 0x28000)"
  by (simp add: GET_TUYA_DATA_PARTITION_def esp_partition_find_first_def partitions_csv_def
      partition_matches_def csv_entry_def)

text \<open>A range inside a partition, seen from the partition's first address.\<close>

lemma sub_range:
  fixes a off n sz x :: uint32
  assumes "unat off + unat n \<le> unat sz" "x - (a + off) < n"
  shows "x - a < sz"
proof -
  define y where "y = x - (a + off)"
  have x: "x - a = y + off" by (simp add: y_def)
  have y: "unat y < unat n" using assms(2) by (simp add: y_def word_less_nat_alt)
  then have "unat (y + off) = unat y + unat off"
    using assms(1) unat_less_32 [of sz] by (intro unat_plus_exact) simp
  with y assms(1) show ?thesis by (simp add: x word_less_nat_alt)
qed

lemma bounds_exact:
  fixes off n sz :: uint32
  assumes "\<not> off + n > sz" "unat off + unat n < 2 ^ 32"
  shows "unat off + unat n \<le> unat sz"
  using assms unat_plus_exact [of off n] by (simp add: word_le_nat_alt not_less)

lemma in_bounds:
  fixes off n sz :: uint32
  assumes "unat off + unat n \<le> unat sz"
  shows "\<not> off > sz" "\<not> off + n > sz"
  using assms unat_plus_exact [of off n] unat_less_32 [of sz]
  by (simp_all add: word_less_nat_alt)

lemma outside_range:
  fixes a off n sz x :: uint32
  assumes "\<not> x - a < sz" "\<not> off + n > sz" "unat off + unat n < 2 ^ 32"
  shows "\<not> x - (a + off) < n"
  using sub_range [OF bounds_exact [OF assms(2,3)]] assms(1) by blast

lemma partition_write_confined:
  assumes "confined d" "unat off + unat n < 2 ^ 32" "\<not> x - address p < psize p"
  shows "mem (snd (esp_partition_write d p off src n f)) x = mem f x"
  using assms(1) outside_range [OF assms(3) _ assms(2)]
  by (simp add: esp_partition_write_def confined_def case_prod_unfold)

lemma partition_erase_confined:
  assumes "confined d" "unat off + unat n < 2 ^ 32" "\<not> x - address p < psize p"
  shows "mem (snd (esp_partition_erase_range d p off n f)) x = mem f x"
  using assms(1) outside_range [OF assms(3) _ assms(2)]
  by (simp add: esp_partition_erase_range_def confined_def case_prod_unfold)

text \<open>A partition a working chip of \<open>cs\<close> bytes holds completely and lets the program change.\<close>

definition usable :: "(uint32 \<Rightarrow> uint32 \<Rightarrow> bool) \<Rightarrow> nat \<Rightarrow> esp_partition_t \<Rightarrow> bool" where
  "usable safe cs p \<longleftrightarrow> \<not> encrypted p \<and> address p mod SPI_FLASH_SEC_SIZE = 0 \<and>
     unat (address p) + unat (psize p) \<le> cs \<and> unat (address p) + unat (psize p) < 2 ^ 32 \<and>
     (\<forall>off n. unat off + unat n \<le> unat (psize p) \<longrightarrow> safe (address p + off) n)"

lemma usable_address:
  assumes "usable safe cs p" "unat off + unat n \<le> unat (psize p)"
  shows "unat (address p + off) = unat (address p) + unat off"
    and "unat (address p + off) + unat n \<le> cs" and "safe (address p + off) n"
proof -
  show "unat (address p + off) = unat (address p) + unat off"
    using assms by (intro unat_plus_exact) (simp add: usable_def)
  then show "unat (address p + off) + unat n \<le> cs"
    using assms by (simp add: usable_def)
  show "safe (address p + off) n"
    using assms by (simp add: usable_def)
qed

lemma aligned_sum:
  assumes "(a :: uint32) mod 4096 = 0" "b mod 4096 = 0"
  shows "(a + b) mod 4096 = 0"
proof -
  have "unat (a mod 4096) = 0" "unat (b mod 4096) = 0" using assms by simp_all
  then have "4096 dvd unat a" "4096 dvd unat b" by (simp_all add: unat_mod mod_eq_0_iff_dvd)
  then have "4096 dvd (unat a + unat b) mod 2 ^ 32" by (intro dvd_mod dvd_add) simp_all
  then have "unat ((a + b) mod 4096) = 0" by (simp add: unat_mod unat_word_ariths mod_eq_0_iff_dvd)
  then show ?thesis by (simp only: unat_eq_zero)
qed

lemma partition_read_ok:
  assumes "nor_flash safe cs d" "usable safe cs p" "unat off + unat n \<le> unat (psize p)"
  shows "esp_partition_read d p off n f = (ESP_OK, map (\<lambda>i. mem f (address p + off + of_nat i)) [0..<unat n])"
  using assms in_bounds [OF assms(3)] usable_address [OF assms(2,3)]
  by (simp add: esp_partition_read_def usable_def nor_flash_def)

lemma partition_write_ok:
  assumes "nor_flash safe cs d" "usable safe cs p" "unat off + unat n \<le> unat (psize p)" "length src = unat n"
  shows "esp_partition_write d p off src n f = (ESP_OK, f\<lparr>mem := \<lambda>x. if x - (address p + off) < n
    then mem f x AND src ! unat (x - (address p + off)) else mem f x\<rparr>)"
  using assms in_bounds [OF assms(3)] usable_address [OF assms(2,3)]
  by (simp add: esp_partition_write_def usable_def nor_flash_def)

lemma partition_erase_ok:
  assumes "nor_flash safe cs d" "usable safe cs p" "unat off + unat n \<le> unat (psize p)"
    and "off mod 4096 = 0" "n mod 4096 = 0"
  shows "esp_partition_erase_range d p off n f =
    (ESP_OK, f\<lparr>mem := \<lambda>x. if x - (address p + off) < n then 0xFF else mem f x\<rparr>)"
proof -
  have "(address p + off) mod 4096 = 0" using assms(2,4) by (intro aligned_sum) (simp_all add: usable_def)
  then show ?thesis
    using assms in_bounds [OF assms(3)] usable_address [OF assms(2,3)]
    by (simp add: esp_partition_erase_range_def usable_def nor_flash_def)
qed

text \<open>The tuya partition of the table.\<close>

definition tuya_entry :: esp_partition_t where
  "tuya_entry = csv_entry ''tuya'' ESP_PARTITION_TYPE_DATA 0xAA 0x3b0000 0x28000"

lemma tuya_entry_simps [simp]: "address tuya_entry = 0x3b0000" "psize tuya_entry = 0x28000"
  by (simp_all add: tuya_entry_def csv_entry_def)

lemma flash_read_ok:
  assumes "nor_flash safe cs d" "usable safe cs tuya_entry" "s_partition_list f = partitions_csv"
    and "unat addr + unat n \<le> 0x28000" "n \<noteq> 0"
  shows "tkl_flash_read d addr True n f
    = (OPRT_OK, map (\<lambda>i. mem f (0x3b0000 + addr + of_nat i)) [0..<unat n])"
  using assms(3-) partition_read_ok [OF assms(1,2), of addr n f]
  by (simp add: tkl_flash_read_def tuya_partition tuya_entry_def [symmetric])

lemma flash_write_ok:
  assumes "nor_flash safe cs d" "usable safe cs tuya_entry" "s_partition_list f = partitions_csv"
    and "unat addr + unat n \<le> 0x28000" "n \<noteq> 0" "length src = unat n"
  shows "tkl_flash_write d addr (Some src) n f
    = (OPRT_OK, f\<lparr>mem := \<lambda>x. if x - (0x3b0000 + addr) < n
         then mem f x AND src ! unat (x - (0x3b0000 + addr)) else mem f x\<rparr>)"
  using assms(3-) partition_write_ok [OF assms(1,2), of addr n src f]
  by (simp add: tkl_flash_write_def tuya_partition tuya_entry_def [symmetric] cong: if_cong)

lemma flash_erase_ok:
  assumes "nor_flash safe cs d" "usable safe cs tuya_entry" "s_partition_list f = partitions_csv"
    and "unat addr + unat n \<le> 0x28000" "addr mod 4096 = 0" "n mod 4096 = 0"
  shows "tkl_flash_erase d addr n f
    = (OPRT_OK, f\<lparr>mem := \<lambda>x. if x - (0x3b0000 + addr) < n then 0xFF else mem f x\<rparr>)"
  using assms(3-) partition_erase_ok [OF assms(1,2), of addr n f]
  by (simp add: tkl_flash_erase_def tuya_partition tuya_entry_def [symmetric])

definition flash_regions :: "(TUYA_FLASH_TYPE_E \<times> TUYA_FLASH_PARTITION_T) set" where
  "flash_regions =
    {(TUYA_FLASH_TYPE_KV_KEY, \<lparr>block_size = 4096, start_addr = 0, fsize = 0x1000\<rparr>),
     (TUYA_FLASH_TYPE_KV_DATA, \<lparr>block_size = 4096, start_addr = 0x1000, fsize = 0x8000\<rparr>),
     (TUYA_FLASH_TYPE_UF, \<lparr>block_size = 4096, start_addr = 0x9000, fsize = 0x18000\<rparr>)}"

lemma type_info_regions:
  "tkl_flash_get_one_type_info ty True = (OPRT_OK, Some rs) \<longleftrightarrow> (\<exists>r. rs = [r] \<and> (ty, r) \<in> flash_regions)"
  by (cases ty) (auto simp: tkl_flash_get_one_type_info_def flash_regions_def)

lemma regions_apart:
  "(ty, r) \<in> flash_regions \<Longrightarrow> (ty', r') \<in> flash_regions \<Longrightarrow> ty' \<noteq> ty \<Longrightarrow>
   start_addr r' + fsize r' \<le> start_addr r \<or> start_addr r + fsize r \<le> start_addr r'"
  by (auto simp: flash_regions_def)

lemma region_aligned:
  "(ty, r) \<in> flash_regions \<Longrightarrow> block_size r = 4096 \<and> start_addr r mod 4096 = 0 \<and> fsize r mod 4096 = 0
    \<and> fsize r \<noteq> 0
    \<and> unat (start_addr r) + unat (fsize r) \<le> 0x28000"
  by (auto simp: flash_regions_def)

section \<open>Properties\<close>

text \<open>
  The regions \<^verbatim>\<open>tkl_flash_get_one_type_info\<close> reports are usable: each is one region made of
  whole 4 KiB erase blocks, it lies inside the tuya partition of \<^verbatim>\<open>partitions.csv\<close>, and the regions of two
  different flash types never share an address.
\<close>

lemma flash_regions_disjoint:
  assumes "tkl_flash_get_one_type_info ty True = (OPRT_OK, Some rs)"
    and "s_partition_list f = partitions_csv"
  shows "\<exists>r p. rs = [r] \<and> GET_TUYA_DATA_PARTITION f = Some p
    \<and> block_size r = SPI_FLASH_SEC_SIZE \<and> start_addr r mod block_size r = 0
    \<and> fsize r mod block_size r = 0 \<and> fsize r \<noteq> 0
    \<and> unat (start_addr r) + unat (fsize r) \<le> unat (psize p)
    \<and> (\<forall>ty' r'. ty' \<noteq> ty \<and> tkl_flash_get_one_type_info ty' True = (OPRT_OK, Some [r']) \<longrightarrow>
         start_addr r' + fsize r' \<le> start_addr r \<or> start_addr r + fsize r \<le> start_addr r')"
proof -
  obtain r where r: "rs = [r]" "(ty, r) \<in> flash_regions"
    using assms(1) unfolding type_info_regions by blast
  then show ?thesis
    using region_aligned [OF r(2)] regions_apart [OF r(2)] unfolding type_info_regions
    by (intro exI [of _ r] exI) (auto simp: tuya_partition [OF assms(2)] csv_entry_def)
qed

definition example_flash :: flash where
  "example_flash = \<lparr>s_partition_list = partitions_csv, mem = (\<lambda>_. 0)\<rparr>"

text \<open>
  C21: the adapter never changes flash outside the tuya partition. Whatever partition table is
  loaded, whatever the driver answers and whether or not the partition is encrypted, a write or an
  erase whose end does not overflow 32 bits leaves every byte outside the partition as it was.
\<close>

theorem flash_partition_isolation:
  assumes "confined d" "GET_TUYA_DATA_PARTITION f = Some p"
    and "unat addr + unat n < 2 ^ 32" "\<not> x - address p < psize p"
  shows "mem (snd (tkl_flash_write d addr src n f)) x = mem f x
    \<and> mem (snd (tkl_flash_erase d addr n f)) x = mem f x"
  using partition_write_confined [OF assms(1,3,4)] partition_erase_confined [OF assms(1,3,4)] assms(2)
  by (simp add: tkl_flash_write_def tkl_flash_erase_def case_prod_unfold Let_def split: option.split)

definition example_driver :: flash_driver where
  "example_driver = \<lparr>
     esp_flash_read = \<lambda>m a n. (ESP_OK, map (\<lambda>i. m (a + of_nat i)) [0..<unat n]),
     esp_flash_write = \<lambda>m src a n.
       (ESP_OK, \<lambda>x. if x - a < n then m x AND src ! unat (x - a) else m x),
     esp_flash_erase_region = \<lambda>m a n. (ESP_OK, \<lambda>x. if x - a < n then 0xFF else m x),
     esp_flash_read_mapped = \<lambda>m a n. (ESP_OK, map (\<lambda>i. m (a + of_nat i)) [0..<unat n]),
     esp_flash_write_encrypted = \<lambda>m src a n. (ESP_OK, m)\<rparr>"

theorem flash_partition_isolation_witness:
  "mem (snd (tkl_flash_write example_driver 0x1000 (Some [1, 2]) 2 example_flash)) 0x3d8000
      = mem example_flash 0x3d8000
    \<and> mem (snd (tkl_flash_erase example_driver 0x1000 2 example_flash)) 0x3d8000
      = mem example_flash 0x3d8000"
  by (rule flash_partition_isolation
      [where p = "csv_entry ''tuya'' ESP_PARTITION_TYPE_DATA 0xAA 0x3b0000 0x28000"])
    (simp_all add: confined_def example_driver_def tuya_partition example_flash_def csv_entry_def)

text \<open>
  C19: on a working chip, data stored in a reported region is read back. Erasing the region, writing
  any non-empty buffer anywhere inside it and reading the same range all succeed, the bytes read
  are the bytes written, and no byte outside the region has changed.
\<close>

theorem flash_region_round_trip:
  assumes "nor_flash safe cs d" "usable safe cs tuya_entry" "s_partition_list f = partitions_csv"
    and "tkl_flash_get_one_type_info ty True = (OPRT_OK, Some [r])"
    and "length src = unat n" "n \<noteq> 0" "unat off + unat n \<le> unat (fsize r)"
  shows "\<exists>f1 f2. tkl_flash_erase d (start_addr r) (fsize r) f = (OPRT_OK, f1)
    \<and> tkl_flash_write d (start_addr r + off) (Some src) n f1 = (OPRT_OK, f2)
    \<and> tkl_flash_read d (start_addr r + off) True n f2 = (OPRT_OK, src)
    \<and> (\<forall>x. \<not> x - (0x3b0000 + start_addr r) < fsize r \<longrightarrow> mem f2 x = mem f x)"
proof -
  define a where "a = start_addr r"
  define f1 where "f1 = f\<lparr>mem := \<lambda>x. if x - (0x3b0000 + a) < fsize r then 0xFF else mem f x\<rparr>"
  define f2 where "f2 = f1\<lparr>mem := \<lambda>x. if x - (0x3b0000 + (a + off)) < n
     then mem f1 x AND src ! unat (x - (0x3b0000 + (a + off))) else mem f1 x\<rparr>"
  have r: "(ty, r) \<in> flash_regions" using assms(4) unfolding type_info_regions by simp
  note al = region_aligned [OF r, folded a_def]
  then have top: "unat a + unat (fsize r) \<le> 0x28000" by simp
  then have "unat (a + off) = unat a + unat off"
    using assms(7) by (intro unat_plus_exact) simp
  with top assms(7) have rng: "unat (a + off) + unat n \<le> 0x28000" by simp
  have tab: "s_partition_list f1 = partitions_csv" "s_partition_list f2 = partitions_csv"
    using assms(3) by (simp_all add: f1_def f2_def)
  have e: "tkl_flash_erase d a (fsize r) f = (OPRT_OK, f1)"
    unfolding f1_def using flash_erase_ok [OF assms(1,2,3) top] al by blast
  have w: "tkl_flash_write d (a + off) (Some src) n f1 = (OPRT_OK, f2)"
    unfolding f2_def by (rule flash_write_ok [OF assms(1,2) tab(1) rng assms(6,5)])
  have inner: "x - (0x3b0000 + a) < fsize r" if "x - (0x3b0000 + (a + off)) < n" for x
    using sub_range [of off n "fsize r" x "0x3b0000 + a"] that assms(7) by (simp add: add.assoc)
  have "mem f2 (0x3b0000 + (a + off) + of_nat i) = src ! i" if "i < unat n" for i
  proof -
    have u: "unat (of_nat i :: uint32) = i"
      using that unat_less_32 [of n] by (intro unat_of_nat_32) simp
    then show ?thesis
      using that inner [of "0x3b0000 + (a + off) + of_nat i"]
      by (simp add: f2_def f1_def word_less_nat_alt)
  qed
  then have "map (\<lambda>i. mem f2 (0x3b0000 + (a + off) + of_nat i)) [0..<unat n] = src"
    using assms(5) by (simp add: list_eq_iff_nth_eq)
  then have rd: "tkl_flash_read d (a + off) True n f2 = (OPRT_OK, src)"
    using flash_read_ok [OF assms(1,2) tab(2) rng assms(6)] by (simp only:)
  show ?thesis
    using e w rd inner by (intro exI [of _ f1] exI [of _ f2]) (auto simp: a_def f2_def f1_def)
qed

theorem flash_region_round_trip_witness:
  "\<exists>f1 f2. tkl_flash_erase example_driver (start_addr \<lparr>block_size = 4096, start_addr = 0x9000, fsize = 0x18000\<rparr>)
        (fsize \<lparr>block_size = 4096, start_addr = 0x9000, fsize = 0x18000\<rparr>) example_flash = (OPRT_OK, f1)
    \<and> tkl_flash_write example_driver (start_addr \<lparr>block_size = 4096, start_addr = 0x9000, fsize = 0x18000\<rparr> + 5)
        (Some [1, 2, 3]) 3 f1 = (OPRT_OK, f2)
    \<and> tkl_flash_read example_driver (start_addr \<lparr>block_size = 4096, start_addr = 0x9000, fsize = 0x18000\<rparr> + 5)
        True 3 f2 = (OPRT_OK, [1, 2, 3])
    \<and> (\<forall>x. \<not> x - (0x3b0000 + start_addr \<lparr>block_size = 4096, start_addr = 0x9000, fsize = 0x18000\<rparr>)
          < fsize \<lparr>block_size = 4096, start_addr = 0x9000, fsize = 0x18000\<rparr> \<longrightarrow> mem f2 x = mem example_flash x)"
  by (rule flash_region_round_trip [where safe = "\<lambda>_ _. True" and cs = "0x400000" and ty = TUYA_FLASH_TYPE_UF])
    (simp_all add: nor_flash_def usable_def tuya_entry_def csv_entry_def example_driver_def example_flash_def tkl_flash_get_one_type_info_def)

end
