(* ===== verification/Gpio.thy ===== *)
theory Gpio
  imports Prelude
begin

text \<open>
  The pin adapter, \<^verbatim>\<open>tuya/tuyaos_adapter/src/driver/tkl_pin.c\<close>, with the interrupt service of ESP-IDF's
  GPIO driver it drives (\<^verbatim>\<open>esp-idf/components/driver/gpio.c\<close>). The record \<open>gpio\<close> holds the adapter's
  \<^verbatim>\<open>pinmap\<close> and the driver's handler table \<^verbatim>\<open>gpio_context.gpio_isr_func\<close>; the register-level calls
  are issued to the platform. The lemmas show which pins the adapter can address, that bad pin
  numbers touch nothing, what a successful configuration has done, and that the one interrupt
  service of the driver is never shared by two pins.
\<close>

section \<open>Data\<close>

datatype TUYA_GPIO_LEVEL_E = TUYA_GPIO_LEVEL_LOW | TUYA_GPIO_LEVEL_HIGH

datatype TUYA_GPIO_DRCT_E = TUYA_GPIO_INPUT | TUYA_GPIO_OUTPUT

datatype TUYA_GPIO_MODE_E =
  TUYA_GPIO_PULLUP | TUYA_GPIO_PULLDOWN | TUYA_GPIO_HIGH_IMPEDANCE | TUYA_GPIO_FLOATING
  | TUYA_GPIO_PUSH_PULL | TUYA_GPIO_OPENDRAIN | TUYA_GPIO_OPENDRAIN_PULLUP

datatype TUYA_GPIO_IRQ_E =
  TUYA_GPIO_IRQ_RISE | TUYA_GPIO_IRQ_FALL | TUYA_GPIO_IRQ_RISE_FALL | TUYA_GPIO_IRQ_LOW
  | TUYA_GPIO_IRQ_HIGH

record TUYA_GPIO_BASE_CFG_T =
  mode :: TUYA_GPIO_MODE_E
  direct :: TUYA_GPIO_DRCT_E
  level :: TUYA_GPIO_LEVEL_E

text \<open>A callback pointer is a number, 0 for NULL; so is its argument.\<close>

record TUYA_GPIO_IRQ_T =
  irq_mode :: TUYA_GPIO_IRQ_E
  cb :: nat
  arg :: nat

datatype gpio_mode_t = GPIO_MODE_DISABLE | GPIO_MODE_INPUT | GPIO_MODE_OUTPUT
datatype gpio_pull_mode_t = GPIO_PULLUP_ONLY | GPIO_PULLDOWN_ONLY | GPIO_FLOATING
datatype gpio_int_type_t =
  GPIO_INTR_POSEDGE | GPIO_INTR_NEGEDGE | GPIO_INTR_ANYEDGE | GPIO_INTR_LOW_LEVEL
  | GPIO_INTR_HIGH_LEVEL

datatype gpio_call =
  Gpio_reset_pin nat
  | Gpio_set_level nat TUYA_GPIO_LEVEL_E
  | Gpio_set_direction nat gpio_mode_t
  | Gpio_set_pull_mode nat gpio_pull_mode_t
  | Gpio_get_level nat
  | Gpio_set_intr_type nat gpio_int_type_t
  | Gpio_intr_enable nat
  | Gpio_intr_disable nat
  | Calloc_isr_table
  | Gpio_isr_register
  | Gpio_intr_enable_on_core nat
  | Esp_intr_free

record gpio_platform =
  gpio_err :: "gpio_call list \<Rightarrow> gpio_call \<Rightarrow> int"
  calloc_ok :: "gpio_call list \<Rightarrow> bool"
  pin_level :: "gpio_call list \<Rightarrow> nat \<Rightarrow> TUYA_GPIO_LEVEL_E"

record pin_dev_map_t =
  gpio_num :: nat
  pin_cb :: nat
  pin_args :: nat

record gpio = "gpio_call machine" +
  pinmap :: "pin_dev_map_t list"
  gpio_isr_func :: "(nat \<Rightarrow> nat \<times> nat) option"

definition pinmap_init :: "pin_dev_map_t list" where
  "pinmap_init = map (\<lambda>n. \<lparr>gpio_num = n, pin_cb = 0, pin_args = 0\<rparr>) ([0..<22] @ [26..<49])"

definition gpio_init_state :: gpio where
  "gpio_init_state = \<lparr>calls = [], pinmap = pinmap_init, gpio_isr_func = None\<rparr>"

section \<open>The interrupt service of the driver\<close>

definition ESP_ERR_INVALID_STATE :: int where [simp]: "ESP_ERR_INVALID_STATE = 0x103"
definition ESP_ERR_INVALID_ARG :: int where [simp]: "ESP_ERR_INVALID_ARG = 0x102"
definition ESP_ERR_NO_MEM :: int where [simp]: "ESP_ERR_NO_MEM = 0x101"

definition GPIO_IS_VALID_GPIO :: "nat \<Rightarrow> bool" where
  "GPIO_IS_VALID_GPIO n \<longleftrightarrow> n < 49 \<and> n \<notin> {22, 23, 24, 25}"

definition gpio_install_isr_service :: "gpio_platform \<Rightarrow> gpio \<Rightarrow> int \<times> gpio" where
  "gpio_install_isr_service p s =
     (if gpio_isr_func s \<noteq> None then (ESP_ERR_INVALID_STATE, s)
      else
        let s1 = issue Calloc_isr_table s
        in if \<not> calloc_ok p (calls s) then (ESP_ERR_NO_MEM, s1)
           else (gpio_err p (calls s1) Gpio_isr_register,
                 issue Gpio_isr_register s1\<lparr>gpio_isr_func := Some (\<lambda>_. (0, 0))\<rparr>))"

definition gpio_isr_handler_add :: "nat \<Rightarrow> nat \<Rightarrow> nat \<Rightarrow> gpio \<Rightarrow> int \<times> gpio" where
  "gpio_isr_handler_add n fn args s =
     (case gpio_isr_func s of
        None \<Rightarrow> (ESP_ERR_INVALID_STATE, s)
      | Some t \<Rightarrow>
          if \<not> GPIO_IS_VALID_GPIO n then (ESP_ERR_INVALID_ARG, s)
          else (ESP_OK, issue (Gpio_intr_enable_on_core n)
                  (issue (Gpio_intr_disable n) s)\<lparr>gpio_isr_func := Some (t(n := (fn, args)))\<rparr>))"

definition gpio_isr_handler_remove :: "nat \<Rightarrow> gpio \<Rightarrow> int \<times> gpio" where
  "gpio_isr_handler_remove n s =
     (case gpio_isr_func s of
        None \<Rightarrow> (ESP_ERR_INVALID_STATE, s)
      | Some t \<Rightarrow>
          if \<not> GPIO_IS_VALID_GPIO n then (ESP_ERR_INVALID_ARG, s)
          else (ESP_OK, (issue (Gpio_intr_disable n) s)\<lparr>gpio_isr_func := Some (t(n := (0, 0)))\<rparr>))"

definition gpio_uninstall_isr_service :: "gpio \<Rightarrow> gpio" where
  "gpio_uninstall_isr_service s =
     (if gpio_isr_func s = None then s else issue Esp_intr_free s\<lparr>gpio_isr_func := None\<rparr>)"

section \<open>The adapter\<close>

text \<open>The macro \<^verbatim>\<open>PIN_DEV_CHECK_ERROR_RETURN\<close> with \<^verbatim>\<open>OPRT_INVALID_PARM\<close>, followed by the lookup of
  the pin's GPIO number.\<close>

definition PIN_DEV_CHECK ::
  "uint32 \<Rightarrow> (nat \<Rightarrow> gpio \<Rightarrow> int \<times> gpio) \<Rightarrow> gpio \<Rightarrow> int \<times> gpio" where
  "PIN_DEV_CHECK pin_id k s =
     (if unat pin_id \<ge> length (pinmap s) then (OPRT_INVALID_PARM, s)
      else k (gpio_num (pinmap s ! unat pin_id)) s)"

definition tkl_gpio_init ::
  "gpio_platform \<Rightarrow> uint32 \<Rightarrow> TUYA_GPIO_BASE_CFG_T option \<Rightarrow> gpio \<Rightarrow> int \<times> gpio" where
  "tkl_gpio_init p pin_id cfg s =
     (case cfg of
        None \<Rightarrow> (OPRT_INVALID_PARM, s)
      | Some c \<Rightarrow>
          PIN_DEV_CHECK pin_id (\<lambda>n s.
            let s1 = issue (Gpio_set_level n (level c)) (issue (Gpio_reset_pin n) s);
                dir = (case direct c of TUYA_GPIO_INPUT \<Rightarrow> GPIO_MODE_INPUT
                                      | TUYA_GPIO_OUTPUT \<Rightarrow> GPIO_MODE_OUTPUT)
            in try_call (gpio_err p) (Gpio_set_direction n dir) OPRT_COM_ERROR (\<lambda>s2.
                 let pull = (\<lambda>m. try_call (gpio_err p) (Gpio_set_pull_mode n m) OPRT_COM_ERROR
                                   (\<lambda>s3. (OPRT_OK, s3)) s2)
                 in case mode c of
                      TUYA_GPIO_PULLUP \<Rightarrow> pull GPIO_PULLUP_ONLY
                    | TUYA_GPIO_PULLDOWN \<Rightarrow> pull GPIO_PULLDOWN_ONLY
                    | _ \<Rightarrow> (OPRT_NOT_SUPPORTED, s2)) s1) s)"

definition tkl_gpio_write :: "uint32 \<Rightarrow> TUYA_GPIO_LEVEL_E \<Rightarrow> gpio \<Rightarrow> int \<times> gpio" where
  "tkl_gpio_write pin_id l = PIN_DEV_CHECK pin_id (\<lambda>n s. (OPRT_OK, issue (Gpio_set_level n l) s))"

text \<open>The level read is the second component, \<open>None\<close> when nothing is stored.\<close>

definition tkl_gpio_read ::
  "gpio_platform \<Rightarrow> uint32 \<Rightarrow> gpio \<Rightarrow> (int \<times> TUYA_GPIO_LEVEL_E option) \<times> gpio" where
  "tkl_gpio_read p pin_id s =
     (if unat pin_id \<ge> length (pinmap s) then ((OPRT_INVALID_PARM, None), s)
      else let n = gpio_num (pinmap s ! unat pin_id)
           in ((OPRT_OK, Some (pin_level p (calls s) n)), issue (Gpio_get_level n) s))"

fun irq_trigger :: "TUYA_GPIO_IRQ_E \<Rightarrow> gpio_int_type_t" where
  "irq_trigger TUYA_GPIO_IRQ_RISE = GPIO_INTR_POSEDGE"
| "irq_trigger TUYA_GPIO_IRQ_FALL = GPIO_INTR_NEGEDGE"
| "irq_trigger TUYA_GPIO_IRQ_RISE_FALL = GPIO_INTR_ANYEDGE"
| "irq_trigger TUYA_GPIO_IRQ_LOW = GPIO_INTR_LOW_LEVEL"
| "irq_trigger TUYA_GPIO_IRQ_HIGH = GPIO_INTR_HIGH_LEVEL"

definition tkl_gpio_irq_init ::
  "gpio_platform \<Rightarrow> uint32 \<Rightarrow> TUYA_GPIO_IRQ_T option \<Rightarrow> gpio \<Rightarrow> int \<times> gpio" where
  "tkl_gpio_irq_init p pin_id cfg s =
     (case cfg of
        None \<Rightarrow> (OPRT_INVALID_PARM, s)
      | Some c \<Rightarrow>
          PIN_DEV_CHECK pin_id (\<lambda>n s.
            let e = (pinmap s ! unat pin_id)\<lparr>pin_cb := cb c, pin_args := arg c\<rparr>;
                s1 = s\<lparr>pinmap := (pinmap s)[unat pin_id := e]\<rparr>
            in try_calls (gpio_err p)
                 [Gpio_set_intr_type n (irq_trigger (irq_mode c)),
                  Gpio_set_direction n GPIO_MODE_INPUT] OPRT_COM_ERROR
                 (\<lambda>s2.
                   let (err, s3) = gpio_install_isr_service p s2
                   in if err \<noteq> ESP_OK then (OPRT_COM_ERROR, s3)
                      else let (err, s4) = gpio_isr_handler_add n (cb c) (arg c) s3
                           in (if err \<noteq> ESP_OK then OPRT_COM_ERROR else OPRT_OK, s4)) s1) s)"

definition tkl_gpio_irq_enable :: "gpio_platform \<Rightarrow> uint32 \<Rightarrow> gpio \<Rightarrow> int \<times> gpio" where
  "tkl_gpio_irq_enable p pin_id = PIN_DEV_CHECK pin_id
     (\<lambda>n. try_call (gpio_err p) (Gpio_intr_enable n) OPRT_COM_ERROR (\<lambda>s. (OPRT_OK, s)))"

definition tkl_gpio_irq_disable :: "uint32 \<Rightarrow> gpio \<Rightarrow> int \<times> gpio" where
  "tkl_gpio_irq_disable pin_id =
     PIN_DEV_CHECK pin_id (\<lambda>n s. (OPRT_OK, issue (Gpio_intr_disable n) s))"

definition tkl_gpio_deinit :: "uint32 \<Rightarrow> gpio \<Rightarrow> int \<times> gpio" where
  "tkl_gpio_deinit pin_id = PIN_DEV_CHECK pin_id (\<lambda>n s.
     (OPRT_OK, issue (Gpio_reset_pin n)
        (gpio_uninstall_isr_service (snd (gpio_isr_handler_remove n s)))))"

text \<open>One call of the SDK into the adapter.\<close>

datatype gpio_input =
  Init uint32 "TUYA_GPIO_BASE_CFG_T option"
  | Write uint32 TUYA_GPIO_LEVEL_E
  | Read uint32
  | Irq_init uint32 "TUYA_GPIO_IRQ_T option"
  | Irq_enable uint32
  | Irq_disable uint32
  | Deinit uint32

fun gpio_op :: "gpio_platform \<Rightarrow> gpio_input \<Rightarrow> gpio \<Rightarrow> int \<times> gpio" where
  "gpio_op p (Init pin cfg) s = tkl_gpio_init p pin cfg s"
| "gpio_op p (Write pin l) s = tkl_gpio_write pin l s"
| "gpio_op p (Read pin) s = (fst (fst (tkl_gpio_read p pin s)), snd (tkl_gpio_read p pin s))"
| "gpio_op p (Irq_init pin cfg) s = tkl_gpio_irq_init p pin cfg s"
| "gpio_op p (Irq_enable pin) s = tkl_gpio_irq_enable p pin s"
| "gpio_op p (Irq_disable pin) s = tkl_gpio_irq_disable pin s"
| "gpio_op p (Deinit pin) s = tkl_gpio_deinit pin s"

fun input_pin :: "gpio_input \<Rightarrow> uint32" where
  "input_pin (Init pin _) = pin"
| "input_pin (Write pin _) = pin"
| "input_pin (Read pin) = pin"
| "input_pin (Irq_init pin _) = pin"
| "input_pin (Irq_enable pin) = pin"
| "input_pin (Irq_disable pin) = pin"
| "input_pin (Deinit pin) = pin"

definition gpio_step :: "gpio_platform \<Rightarrow> gpio_input \<Rightarrow> gpio \<Rightarrow> gpio" where
  "gpio_step p i s = snd (gpio_op p i s)"

section \<open>The invariant\<close>

definition usable_gpios :: "nat list" where
  "usable_gpios = [0..<22] @ [26..<49]"

fun call_gpio :: "gpio_call \<Rightarrow> nat option" where
  "call_gpio (Gpio_reset_pin n) = Some n"
| "call_gpio (Gpio_set_level n _) = Some n"
| "call_gpio (Gpio_set_direction n _) = Some n"
| "call_gpio (Gpio_set_pull_mode n _) = Some n"
| "call_gpio (Gpio_get_level n) = Some n"
| "call_gpio (Gpio_set_intr_type n _) = Some n"
| "call_gpio (Gpio_intr_enable n) = Some n"
| "call_gpio (Gpio_intr_disable n) = Some n"
| "call_gpio (Gpio_intr_enable_on_core n) = Some n"
| "call_gpio _ = None"

definition call_valid :: "gpio_call \<Rightarrow> bool" where
  "call_valid c \<longleftrightarrow> (case call_gpio c of None \<Rightarrow> True | Some n \<Rightarrow> GPIO_IS_VALID_GPIO n)"

definition gpio_inv :: "gpio \<Rightarrow> bool" where
  "gpio_inv s \<longleftrightarrow> map gpio_num (pinmap s) = usable_gpios
     \<and> list_all call_valid (calls s)
     \<and> (\<forall>t. gpio_isr_func s = Some t \<longrightarrow> (\<exists>n. \<forall>m. m \<noteq> n \<longrightarrow> t m = (0, 0)))"

lemma usable_gpios_valid: "n \<in> set usable_gpios \<Longrightarrow> GPIO_IS_VALID_GPIO n"
  by (auto simp: GPIO_IS_VALID_GPIO_def usable_gpios_def)

lemma gpio_inv_length: "gpio_inv s \<Longrightarrow> length (pinmap s) = 45"
  unfolding gpio_inv_def by (drule conjunct1, drule arg_cong [where f = length]) (simp add: usable_gpios_def)

lemma pin_valid:
  assumes "gpio_inv s" "i < length (pinmap s)"
  shows "GPIO_IS_VALID_GPIO (gpio_num (pinmap s ! i))"
proof -
  have "gpio_num (pinmap s ! i) \<in> set (map gpio_num (pinmap s))" using assms(2) by simp
  with assms(1) show ?thesis unfolding gpio_inv_def by (metis usable_gpios_valid)
qed

lemma PIN_DEV_CHECK_rule:
  assumes "gpio_inv s"
    and "\<And>n. GPIO_IS_VALID_GPIO n \<Longrightarrow> unat pin < length (pinmap s) \<Longrightarrow>
      n = gpio_num (pinmap s ! unat pin) \<Longrightarrow> gpio_inv (snd (k n s))"
  shows "gpio_inv (snd (PIN_DEV_CHECK pin k s))"
  using assms pin_valid [of s "unat pin"] by (simp add: PIN_DEV_CHECK_def not_le)

lemma gpio_inv_issue: "gpio_inv (issue c s) \<longleftrightarrow> gpio_inv s \<and> call_valid c"
  by (auto simp: gpio_inv_def issue_def)

lemma gpio_inv_try_call:
  "gpio_inv s \<Longrightarrow> call_valid c \<Longrightarrow> (\<And>s'. gpio_inv s' \<Longrightarrow> gpio_inv (snd (k s')))
    \<Longrightarrow> gpio_inv (snd (try_call p c e k s))"
  by (simp add: try_call_def gpio_inv_issue)

lemma pinmap_numbers:
  "map gpio_num (xs[i := (xs ! i)\<lparr>pin_cb := a, pin_args := b\<rparr>]) = map gpio_num xs"
  by (cases "i < length xs") (auto simp: list_eq_iff_nth_eq nth_list_update)

lemma gpio_inv_pinmap:
  "gpio_inv s \<Longrightarrow> gpio_inv (s\<lparr>pinmap := (pinmap s)[i := (pinmap s ! i)\<lparr>pin_cb := a, pin_args := b\<rparr>]\<rparr>)"
  by (simp add: gpio_inv_def pinmap_numbers)

lemmas call_valid_simps [simp] = call_valid_def

lemma gpio_inv_install:
  assumes "gpio_inv s" "GPIO_IS_VALID_GPIO n"
  shows "gpio_inv (snd (let (err, s3) = gpio_install_isr_service p s
     in if err \<noteq> ESP_OK then (OPRT_COM_ERROR, s3)
        else let (err, s4) = gpio_isr_handler_add n f a s3
             in (if err \<noteq> ESP_OK then OPRT_COM_ERROR else OPRT_OK, s4)))"
  using assms
  by (cases "gpio_isr_func s")
    (auto simp: gpio_install_isr_service_def gpio_isr_handler_add_def gpio_inv_def issue_def Let_def)

lemma gpio_inv_init: "gpio_inv s \<Longrightarrow> gpio_inv (snd (tkl_gpio_init p pin cfg s))"
  by (cases cfg) (auto simp: tkl_gpio_init_def Let_def gpio_inv_issue
      intro!: PIN_DEV_CHECK_rule gpio_inv_try_call split: TUYA_GPIO_MODE_E.split)

lemma gpio_inv_irq_init: "gpio_inv s \<Longrightarrow> gpio_inv (snd (tkl_gpio_irq_init p pin cfg s))"
  by (cases cfg) (auto simp only: tkl_gpio_irq_init_def Let_def option.case try_calls.simps snd_conv
      call_valid_simps call_gpio.simps
      intro!: PIN_DEV_CHECK_rule gpio_inv_try_call gpio_inv_pinmap gpio_inv_install [unfolded Let_def])

lemma gpio_inv_deinit: "gpio_inv s \<Longrightarrow> gpio_inv (snd (tkl_gpio_deinit pin s))"
  unfolding tkl_gpio_deinit_def
  by (rule PIN_DEV_CHECK_rule)
    (auto simp: gpio_uninstall_isr_service_def gpio_isr_handler_remove_def gpio_inv_def issue_def
      split: option.split)

lemma gpio_inv_step: "gpio_inv s \<Longrightarrow> gpio_inv (gpio_step p i s)"
  by (cases i) (auto simp: gpio_step_def gpio_inv_init gpio_inv_irq_init gpio_inv_deinit
      gpio_inv_issue tkl_gpio_write_def tkl_gpio_read_def tkl_gpio_irq_enable_def
      tkl_gpio_irq_disable_def pin_valid Let_def intro!: PIN_DEV_CHECK_rule gpio_inv_try_call)

interpretation gpio_run: invariant_system gpio_init_state "gpio_step p" gpio_inv for p
  by unfold_locales (simp add: gpio_inv_def gpio_init_state_def pinmap_init_def usable_gpios_def comp_def, rule gpio_inv_step)

section \<open>Properties\<close>

text \<open>A pin number the table does not have changes nothing.\<close>

lemma gpio_bad_pin:
  assumes "length (pinmap s) \<le> unat (input_pin i)"
  shows "gpio_op p i s = (OPRT_INVALID_PARM, s)"
  using assms
  by (cases i) (auto simp: tkl_gpio_init_def tkl_gpio_write_def tkl_gpio_read_def
      tkl_gpio_irq_init_def tkl_gpio_irq_enable_def tkl_gpio_irq_disable_def tkl_gpio_deinit_def
      PIN_DEV_CHECK_def split: option.split)

text \<open>
  C32: the pin adapter only ever touches GPIOs the chip has. Over any sequence of adapter calls and
  platform answers, every driver call it has made names a GPIO that \<^verbatim>\<open>GPIO_IS_VALID_GPIO\<close> accepts
  (never 22 to 25, never above 48), and a call with a pin number of 45 or more returns
  \<^verbatim>\<open>OPRT_INVALID_PARM\<close> and changes nothing.
\<close>

theorem gpio_only_valid_pins:
  "let s = fold (gpio_step p) is gpio_init_state
   in (\<forall>c. c \<in> set (calls s) \<longrightarrow> (case call_gpio c of None \<Rightarrow> True | Some n \<Rightarrow> GPIO_IS_VALID_GPIO n))
    \<and> (\<forall>i. 45 \<le> unat (input_pin i) \<longrightarrow> gpio_op p i s = (OPRT_INVALID_PARM, s))"
  using gpio_run.invar_run [of p "is"] gpio_inv_length gpio_bad_pin
  by (auto simp: gpio_inv_def list_all_iff Let_def)

definition example_gpio :: gpio_platform where
  "example_gpio = \<lparr>gpio_err = \<lambda>_ _. ESP_OK, calloc_ok = \<lambda>_. True,
     pin_level = \<lambda>_ _. TUYA_GPIO_LEVEL_LOW\<rparr>"

theorem gpio_only_valid_pins_witness:
  "Gpio_set_level 26 TUYA_GPIO_LEVEL_HIGH
      \<in> set (calls (fold (gpio_step example_gpio) [Write 22 TUYA_GPIO_LEVEL_HIGH] gpio_init_state))
   \<and> GPIO_IS_VALID_GPIO 26
   \<and> gpio_op example_gpio (Deinit 45) (fold (gpio_step example_gpio) [] gpio_init_state)
      = (OPRT_INVALID_PARM, gpio_init_state)"
proof -
  let ?s = "fold (gpio_step example_gpio) [Write 22 TUYA_GPIO_LEVEL_HIGH] gpio_init_state"
  have c: "Gpio_set_level 26 TUYA_GPIO_LEVEL_HIGH \<in> set (calls ?s)"
    by (simp add: gpio_step_def tkl_gpio_write_def PIN_DEV_CHECK_def gpio_init_state_def
        pinmap_init_def issue_def nth_append)
  have "GPIO_IS_VALID_GPIO 26"
    using gpio_only_valid_pins [of example_gpio "[Write 22 TUYA_GPIO_LEVEL_HIGH]"] c
    unfolding Let_def by fastforce
  moreover have "gpio_op example_gpio (Deinit 45) (fold (gpio_step example_gpio) [] gpio_init_state)
      = (OPRT_INVALID_PARM, fold (gpio_step example_gpio) [] gpio_init_state)"
    using gpio_only_valid_pins [of example_gpio "[]"] unfolding Let_def
    by (elim conjE allE [of _ "Deinit 45"]) simp
  ultimately show ?thesis using c by simp
qed

text \<open>
  C34: the interrupt service is never shared. In any reachable state \<^verbatim>\<open>tkl_gpio_irq_init\<close> succeeds only
  when no service was installed before, and then exactly the requested handler is in the driver's
  table; while a service is installed it always fails and the table keeps the earlier handler, so
  at most one pin of the device can have an interrupt handler at any time.
\<close>

theorem gpio_irq_single_owner:
  assumes "s = fold (gpio_step p) is gpio_init_state"
    and "tkl_gpio_irq_init p pin (Some c) s = (ret, s')" "unat pin < 45"
  shows "(ret = OPRT_OK \<longrightarrow> gpio_isr_func s = None
            \<and> gpio_isr_func s' = Some ((\<lambda>_. (0, 0))(usable_gpios ! unat pin := (cb c, arg c))))
    \<and> (gpio_isr_func s \<noteq> None \<longrightarrow> ret = OPRT_COM_ERROR \<and> gpio_isr_func s' = gpio_isr_func s)
    \<and> (\<forall>t. gpio_isr_func s' = Some t \<longrightarrow> (\<exists>n. \<forall>m. m \<noteq> n \<longrightarrow> t m = (0, 0)))"
proof -
  have inv: "gpio_inv s" using gpio_run.invar_run assms(1) by simp
  have len: "length (pinmap s) = 45" using gpio_inv_length [OF inv] .
  then have "gpio_num (pinmap s ! unat pin) = usable_gpios ! unat pin"
    using inv assms(3) unfolding gpio_inv_def by (metis nth_map)
  moreover have "gpio_inv s'" using gpio_inv_irq_init [OF inv, of p pin "Some c"] assms(2) by simp
  ultimately show ?thesis
    using assms(2,3) len
    by (cases "gpio_isr_func s")
      (auto simp: tkl_gpio_irq_init_def PIN_DEV_CHECK_def try_call_def issue_def gpio_inv_def
        gpio_install_isr_service_def gpio_isr_handler_add_def Let_def split: if_splits)
qed

theorem gpio_irq_single_owner_witness:
  "let s = fold (gpio_step example_gpio)
         [Irq_init 3 (Some \<lparr>irq_mode = TUYA_GPIO_IRQ_FALL, cb = 9, arg = 1\<rparr>)] gpio_init_state;
       (ret, s') = tkl_gpio_irq_init example_gpio 4
         (Some \<lparr>irq_mode = TUYA_GPIO_IRQ_FALL, cb = 8, arg = 2\<rparr>) s
   in gpio_isr_func s \<noteq> None \<and> ret = OPRT_COM_ERROR \<and> gpio_isr_func s' = gpio_isr_func s"
proof -
  define s where "s = fold (gpio_step example_gpio)
         [Irq_init 3 (Some \<lparr>irq_mode = TUYA_GPIO_IRQ_FALL, cb = 9, arg = 1\<rparr>)] gpio_init_state"
  obtain ret s' where op: "tkl_gpio_irq_init example_gpio 4
         (Some \<lparr>irq_mode = TUYA_GPIO_IRQ_FALL, cb = 8, arg = 2\<rparr>) s = (ret, s')"
    by (cases "tkl_gpio_irq_init example_gpio 4
         (Some \<lparr>irq_mode = TUYA_GPIO_IRQ_FALL, cb = 8, arg = 2\<rparr>) s")
  have "gpio_isr_func s \<noteq> None"
    by (simp add: s_def gpio_step_def tkl_gpio_irq_init_def PIN_DEV_CHECK_def gpio_init_state_def
        pinmap_init_def issue_def try_call_def gpio_install_isr_service_def example_gpio_def
        gpio_isr_handler_add_def GPIO_IS_VALID_GPIO_def nth_append)
  then show ?thesis
    using gpio_irq_single_owner [OF s_def op] op unfolding s_def [symmetric] by simp
qed

end
