(* ===== verification/Os_Sync.thy ===== *)
theory Os_Sync
  imports Prelude
begin

text \<open>
  The OS adapters over FreeRTOS: \<^verbatim>\<open>tkl_queue.c\<close>, \<^verbatim>\<open>tkl_semaphore.c\<close>, \<^verbatim>\<open>tkl_mutex.c\<close> and \<^verbatim>\<open>tkl_thread.c\<close>
  under \<^verbatim>\<open>tuya/tuyaos_adapter/src/system\<close>. The kernel's answers (return values, created handles,
  whether the caller runs in an interrupt) are a parameter; the state is the list of kernel calls.
  The interface \<open>isr_dual\<close> is the contract the queue, semaphore and unlock operations share: a NULL
  handle touches nothing, and in an interrupt only the FromISR variants are used. It is interpreted
  for each of them.
\<close>

section \<open>Kernel calls\<close>

type_synonym handle = nat

datatype (plugins only: code) os_call =
  XQueueCreate int32 int32
  | VQueueDelete handle
  | XQueueSend handle "byte list" uint32
  | XQueueSendFromISR handle "byte list"
  | XQueueReceive handle uint32
  | XQueueReceiveFromISR handle
  | XSemaphoreCreateCounting uint32 uint32
  | XSemaphoreTake handle uint32
  | XSemaphoreTakeFromISR handle
  | XSemaphoreGive handle
  | XSemaphoreGiveFromISR handle
  | VSemaphoreDelete handle
  | XSemaphoreCreateRecursiveMutex
  | XSemaphoreTakeRecursive handle uint32
  | XSemaphoreGiveRecursive handle
  | PortYIELD_FROM_ISR
  | XTaskCreate nat string uint32 nat uint32
  | VTaskDelete handle
  | VTaskPrioritySet handle int32
  | XTaskGetCurrentTaskHandle
  | UxTaskPriorityGet handle
  | UxTaskGetStackHighWaterMark handle

text \<open>
  \<open>new_handle\<close> answers the creating calls (\<open>None\<close> is NULL), \<open>os_ret\<close> the calls that return a
  number, \<open>woken\<close> is the value left in \<^verbatim>\<open>xHigherPriorityTaskWoken\<close>, \<open>received\<close> the message copied
  out by a successful receive.
\<close>

record os_platform =
  in_isr :: "os_call list \<Rightarrow> bool"
  new_handle :: "os_call list \<Rightarrow> os_call \<Rightarrow> handle option"
  os_ret :: "os_call list \<Rightarrow> os_call \<Rightarrow> int"
  woken :: "os_call list \<Rightarrow> os_call \<Rightarrow> bool"
  received :: "os_call list \<Rightarrow> os_call \<Rightarrow> byte list"

type_synonym os = "os_call machine"

definition pdTRUE :: int where [simp]: "pdTRUE = 1"
definition pdPASS :: int where [simp]: "pdPASS = 1"
definition portMAX_DELAY :: uint32 where [simp]: "portMAX_DELAY = 0xFFFFFFFF"
definition TKL_QUEUE_WAIT_FROEVER :: uint32 where [simp]: "TKL_QUEUE_WAIT_FROEVER = 0xFFFFFFFF"
definition TKL_SEM_WAIT_FOREVER :: uint32 where [simp]: "TKL_SEM_WAIT_FOREVER = 0xFFFFFFFF"
definition configTICK_RATE_HZ :: uint32 where [simp]: "configTICK_RATE_HZ = 1000"

definition OPRT_OS_ADAPTER_MUTEX_LOCK_FAILED :: int where [simp]:
  "OPRT_OS_ADAPTER_MUTEX_LOCK_FAILED = - 0x6501"
definition OPRT_OS_ADAPTER_MUTEX_UNLOCK_FAILED :: int where [simp]:
  "OPRT_OS_ADAPTER_MUTEX_UNLOCK_FAILED = - 0x6502"
definition OPRT_OS_ADAPTER_SEM_CREAT_FAILED :: int where [simp]:
  "OPRT_OS_ADAPTER_SEM_CREAT_FAILED = - 0x6600"
definition OPRT_OS_ADAPTER_SEM_WAIT_FAILED :: int where [simp]:
  "OPRT_OS_ADAPTER_SEM_WAIT_FAILED = - 0x6601"
definition OPRT_OS_ADAPTER_SEM_POST_FAILED :: int where [simp]:
  "OPRT_OS_ADAPTER_SEM_POST_FAILED = - 0x6602"
definition OPRT_OS_ADAPTER_QUEUE_CREAT_FAILED :: int where [simp]:
  "OPRT_OS_ADAPTER_QUEUE_CREAT_FAILED = - 0x6700"
definition OPRT_OS_ADAPTER_QUEUE_SEND_FAIL :: int where [simp]:
  "OPRT_OS_ADAPTER_QUEUE_SEND_FAIL = - 0x6701"
definition OPRT_OS_ADAPTER_QUEUE_RECV_FAIL :: int where [simp]:
  "OPRT_OS_ADAPTER_QUEUE_RECV_FAIL = - 0x6702"
definition OPRT_OS_ADAPTER_THRD_JUDGE_SELF_FAILED :: int where [simp]:
  "OPRT_OS_ADAPTER_THRD_JUDGE_SELF_FAILED = - 0x6802"
definition OPRT_OS_ADAPTER_INVALID_PARM :: int where [simp]:
  "OPRT_OS_ADAPTER_INVALID_PARM = - 0x6901"

text \<open>The product is taken at 32 bits before the division.\<close>

definition pdMS_TO_TICKS :: "uint32 \<Rightarrow> uint32" where
  "pdMS_TO_TICKS ms = (ms * configTICK_RATE_HZ) div 1000"

text \<open>The FromISR call followed by the yield it may ask for, or the task-level call.\<close>

definition isr_or_task ::
  "os_platform \<Rightarrow> os_call \<Rightarrow> os_call \<Rightarrow> int \<Rightarrow> os \<Rightarrow> int \<times> os" where
  "isr_or_task p isr task err s =
     (let code = (\<lambda>ret. if ret = pdTRUE then OPRT_OK else err) in
      if in_isr p (calls s)
      then let ret = os_ret p (calls s) isr; s1 = issue isr s
           in (code ret, if ret = pdTRUE \<and> woken p (calls s) isr
                         then issue PortYIELD_FROM_ISR s1 else s1)
      else (code (os_ret p (calls s) task), issue task s))"

definition wait_ticks :: "uint32 \<Rightarrow> uint32 \<Rightarrow> uint32" where
  "wait_ticks forever timeout = (if timeout < forever then pdMS_TO_TICKS timeout else portMAX_DELAY)"

section \<open>Queues\<close>

text \<open>\<open>queue\<close> tells whether the out pointer is not NULL; the handle stored through it is the
  second component.\<close>

definition tkl_queue_create_init ::
  "os_platform \<Rightarrow> bool \<Rightarrow> int32 \<Rightarrow> int32 \<Rightarrow> os \<Rightarrow> (int \<times> handle option) \<times> os" where
  "tkl_queue_create_init p queue msgsize msgcount s =
     (if \<not> queue then ((OPRT_OS_ADAPTER_INVALID_PARM, None), s)
      else let c = XQueueCreate msgcount msgsize; h = new_handle p (calls s) c
           in ((if h = None then OPRT_OS_ADAPTER_QUEUE_CREAT_FAILED else OPRT_OK, h), issue c s))"

definition tkl_queue_free :: "handle option \<Rightarrow> os \<Rightarrow> os" where
  "tkl_queue_free queue s = (case queue of None \<Rightarrow> s | Some h \<Rightarrow> issue (VQueueDelete h) s)"

definition tkl_queue_post ::
  "os_platform \<Rightarrow> handle option \<Rightarrow> byte list \<times> uint32 \<Rightarrow> os \<Rightarrow> int \<times> os" where
  "tkl_queue_post p queue = (\<lambda>(bs, timeout) s.
     case queue of
       None \<Rightarrow> (OPRT_OS_ADAPTER_INVALID_PARM, s)
     | Some h \<Rightarrow> isr_or_task p (XQueueSendFromISR h bs)
         (XQueueSend h bs (wait_ticks TKL_QUEUE_WAIT_FROEVER timeout))
         OPRT_OS_ADAPTER_QUEUE_SEND_FAIL s)"

text \<open>The message copied to \<^verbatim>\<open>msg\<close> is the second component, \<open>None\<close> when none is.\<close>

definition tkl_queue_fetch ::
  "os_platform \<Rightarrow> handle option \<Rightarrow> uint32 \<Rightarrow> os \<Rightarrow> (int \<times> byte list option) \<times> os" where
  "tkl_queue_fetch p queue timeout s =
     (case queue of
        None \<Rightarrow> ((OPRT_OS_ADAPTER_INVALID_PARM, None), s)
      | Some h \<Rightarrow>
          let isr = XQueueReceiveFromISR h;
              task = XQueueReceive h (wait_ticks TKL_QUEUE_WAIT_FROEVER timeout);
              c = (if in_isr p (calls s) then isr else task);
              (ret, s1) = isr_or_task p isr task OPRT_OS_ADAPTER_QUEUE_RECV_FAIL s
          in ((ret, if ret = OPRT_OK then Some (received p (calls s) c) else None), s1))"

section \<open>Semaphores\<close>

definition tkl_semaphore_create_init ::
  "os_platform \<Rightarrow> bool \<Rightarrow> uint32 \<Rightarrow> uint32 \<Rightarrow> os \<Rightarrow> (int \<times> handle option) \<times> os" where
  "tkl_semaphore_create_init p pHandle semCnt sem_max s =
     (if \<not> pHandle then ((OPRT_OS_ADAPTER_INVALID_PARM, None), s)
      else let c = XSemaphoreCreateCounting sem_max semCnt; h = new_handle p (calls s) c
           in ((if h = None then OPRT_OS_ADAPTER_SEM_CREAT_FAILED else OPRT_OK, h), issue c s))"

definition tkl_semaphore_wait ::
  "os_platform \<Rightarrow> handle option \<Rightarrow> uint32 \<Rightarrow> os \<Rightarrow> int \<times> os" where
  "tkl_semaphore_wait p handle timeout s =
     (case handle of
        None \<Rightarrow> (OPRT_OS_ADAPTER_INVALID_PARM, s)
      | Some h \<Rightarrow> isr_or_task p (XSemaphoreTakeFromISR h)
          (XSemaphoreTake h (wait_ticks TKL_SEM_WAIT_FOREVER timeout))
          OPRT_OS_ADAPTER_SEM_WAIT_FAILED s)"

definition tkl_semaphore_post :: "os_platform \<Rightarrow> handle option \<Rightarrow> os \<Rightarrow> int \<times> os" where
  "tkl_semaphore_post p handle s =
     (case handle of
        None \<Rightarrow> (OPRT_OS_ADAPTER_INVALID_PARM, s)
      | Some h \<Rightarrow> isr_or_task p (XSemaphoreGiveFromISR h) (XSemaphoreGive h)
          OPRT_OS_ADAPTER_SEM_POST_FAILED s)"

definition tkl_semaphore_release :: "handle option \<Rightarrow> os \<Rightarrow> int \<times> os" where
  "tkl_semaphore_release handle s =
     (case handle of
        None \<Rightarrow> (OPRT_OS_ADAPTER_INVALID_PARM, s)
      | Some h \<Rightarrow> (OPRT_OK, issue (VSemaphoreDelete h) s))"

section \<open>Mutexes\<close>

definition tkl_mutex_create_init ::
  "os_platform \<Rightarrow> bool \<Rightarrow> os \<Rightarrow> (int \<times> handle option) \<times> os" where
  "tkl_mutex_create_init p pMutexHandle s =
     (if \<not> pMutexHandle then ((OPRT_INVALID_PARM, None), s)
      else let c = XSemaphoreCreateRecursiveMutex; h = new_handle p (calls s) c
           in ((if h = None then OPRT_MALLOC_FAILED else OPRT_OK, h), issue c s))"

definition take_recursive ::
  "os_platform \<Rightarrow> handle option \<Rightarrow> uint32 \<Rightarrow> os \<Rightarrow> int \<times> os" where
  "take_recursive p mutexHandle ticks s =
     (case mutexHandle of
        None \<Rightarrow> (OPRT_INVALID_PARM, s)
      | Some h \<Rightarrow>
          let c = XSemaphoreTakeRecursive h ticks
          in (if os_ret p (calls s) c = pdTRUE then OPRT_OK else OPRT_OS_ADAPTER_MUTEX_LOCK_FAILED,
              issue c s))"

definition tkl_mutex_lock :: "os_platform \<Rightarrow> handle option \<Rightarrow> os \<Rightarrow> int \<times> os" where
  "tkl_mutex_lock p mutexHandle = take_recursive p mutexHandle portMAX_DELAY"

definition tkl_mutex_unlock :: "os_platform \<Rightarrow> handle option \<Rightarrow> os \<Rightarrow> int \<times> os" where
  "tkl_mutex_unlock p mutexHandle s =
     (case mutexHandle of
        None \<Rightarrow> (OPRT_INVALID_PARM, s)
      | Some h \<Rightarrow> isr_or_task p (XSemaphoreGiveFromISR h) (XSemaphoreGiveRecursive h)
          OPRT_OS_ADAPTER_MUTEX_UNLOCK_FAILED s)"

definition tkl_mutex_release :: "handle option \<Rightarrow> os \<Rightarrow> int \<times> os" where
  "tkl_mutex_release mutexHandle s =
     (case mutexHandle of
        None \<Rightarrow> (OPRT_INVALID_PARM, s)
      | Some h \<Rightarrow> (OPRT_OK, issue (VSemaphoreDelete h) s))"

definition tkl_mutex_trylock :: "os_platform \<Rightarrow> handle option \<Rightarrow> os \<Rightarrow> int \<times> os" where
  "tkl_mutex_trylock p mutexHandle = take_recursive p mutexHandle 0"

section \<open>Threads\<close>

text \<open>\<^verbatim>\<open>portSTACK_TYPE\<close> is one byte wide, so the stack size is passed on unchanged.\<close>

definition tkl_thread_create ::
  "os_platform \<Rightarrow> string \<Rightarrow> uint32 \<Rightarrow> uint32 \<Rightarrow> nat \<Rightarrow> nat \<Rightarrow> os \<Rightarrow> (int \<times> handle option) \<times> os" where
  "tkl_thread_create p name stack_size priority func arg s =
     (let c = XTaskCreate func name (stack_size div 1) arg priority
      in ((if os_ret p (calls s) c = pdPASS then OPRT_OK else OPRT_COM_ERROR,
           new_handle p (calls s) c), issue c s))"

text \<open>A NULL handle is 0 for \<^verbatim>\<open>vTaskDelete\<close>: the calling task.\<close>

definition tkl_thread_release :: "handle option \<Rightarrow> os \<Rightarrow> int \<times> os" where
  "tkl_thread_release thread s =
     (OPRT_OK, issue (VTaskDelete (case thread of None \<Rightarrow> 0 | Some h \<Rightarrow> h)) s)"

definition tkl_thread_is_self ::
  "os_platform \<Rightarrow> handle option \<Rightarrow> bool \<Rightarrow> os \<Rightarrow> (int \<times> bool option) \<times> os" where
  "tkl_thread_is_self p thread is_self s =
     (if thread = None \<or> \<not> is_self then ((OPRT_INVALID_PARM, None), s)
      else let c = XTaskGetCurrentTaskHandle; self = new_handle p (calls s) c; s1 = issue c s
           in if self = None then ((OPRT_OS_ADAPTER_THRD_JUDGE_SELF_FAILED, None), s1)
              else ((OPRT_OK, Some (thread = self)), s1))"

definition tkl_thread_set_self_name :: "string \<Rightarrow> os \<Rightarrow> int \<times> os" where
  "tkl_thread_set_self_name name s = (OPRT_OK, s)"

definition tkl_thread_set_priority :: "handle option \<Rightarrow> int32 \<Rightarrow> os \<Rightarrow> int \<times> os" where
  "tkl_thread_set_priority thread priority s =
     (case thread of
        None \<Rightarrow> (OPRT_INVALID_PARM, s)
      | Some h \<Rightarrow> (OPRT_OK, issue (VTaskPrioritySet h priority) s))"

definition thread_query ::
  "os_platform \<Rightarrow> (handle \<Rightarrow> os_call) \<Rightarrow> handle option \<Rightarrow> bool \<Rightarrow> os \<Rightarrow> (int \<times> int option) \<times> os" where
  "thread_query p query thread out s =
     (case thread of
        None \<Rightarrow> ((OPRT_INVALID_PARM, None), s)
      | Some h \<Rightarrow>
          if \<not> out then ((OPRT_INVALID_PARM, None), s)
          else ((OPRT_OK, Some (os_ret p (calls s) (query h))), issue (query h) s))"

definition tkl_thread_get_priority ::
  "os_platform \<Rightarrow> handle option \<Rightarrow> bool \<Rightarrow> os \<Rightarrow> (int \<times> int option) \<times> os" where
  "tkl_thread_get_priority p = thread_query p UxTaskPriorityGet"

definition tkl_thread_get_watermark ::
  "os_platform \<Rightarrow> handle option \<Rightarrow> bool \<Rightarrow> os \<Rightarrow> (int \<times> int option) \<times> os" where
  "tkl_thread_get_watermark p = thread_query p UxTaskGetStackHighWaterMark"

definition tkl_thread_get_id :: "os_platform \<Rightarrow> os \<Rightarrow> (int \<times> handle option) \<times> os" where
  "tkl_thread_get_id p s =
     (let c = XTaskGetCurrentTaskHandle in ((OPRT_OK, new_handle p (calls s) c), issue c s))"

definition tkl_thread_diagnose :: "handle option \<Rightarrow> os \<Rightarrow> int \<times> os" where
  "tkl_thread_diagnose thread s = (OPRT_OK, s)"

section \<open>The contract of the operations usable from interrupts\<close>

fun isr_safe :: "os_call \<Rightarrow> bool" where
  "isr_safe (XQueueSendFromISR _ _) = True"
| "isr_safe (XQueueReceiveFromISR _) = True"
| "isr_safe (XSemaphoreTakeFromISR _) = True"
| "isr_safe (XSemaphoreGiveFromISR _) = True"
| "isr_safe PortYIELD_FROM_ISR = True"
| "isr_safe _ = False"

locale isr_dual =
  fixes op :: "os_platform \<Rightarrow> handle option \<Rightarrow> 'a \<Rightarrow> os \<Rightarrow> int \<times> os"
    and null_err fail_err :: int
  assumes null: "op p None a s = (null_err, s)"
    and code: "fst (op p (Some h) a s) \<in> {OPRT_OK, fail_err}"
    and in_task: "\<not> in_isr p (calls s) \<Longrightarrow> \<exists>c. calls (snd (op p (Some h) a s)) = calls s @ [c]"
    and isr: "in_isr p (calls s) \<Longrightarrow> list_all isr_safe (calls s) \<Longrightarrow>
      list_all isr_safe (calls (snd (op p (Some h) a s)))"
begin

lemma isr_any:
  "in_isr p (calls s) \<Longrightarrow> list_all isr_safe (calls s) \<Longrightarrow> list_all isr_safe (calls (snd (op p h a s)))"
  by (cases h) (simp_all add: null isr)

lemma result_codes: "fst (op p h a s) \<in> {OPRT_OK, null_err, fail_err}"
  using code [of p _ a s] by (cases h) (auto simp: null)

end

lemma isr_or_task_code: "fst (isr_or_task p isr task err s) \<in> {OPRT_OK, err}"
  by (simp add: isr_or_task_def Let_def)

lemma isr_or_task_task:
  "\<not> in_isr p (calls s) \<Longrightarrow> \<exists>c. calls (snd (isr_or_task p isr task err s)) = calls s @ [c]"
  by (simp add: isr_or_task_def)

lemma isr_or_task_isr:
  "in_isr p (calls s) \<Longrightarrow> list_all isr_safe (calls s) \<Longrightarrow> isr_safe isr \<Longrightarrow>
   list_all isr_safe (calls (snd (isr_or_task p isr task err s)))"
  by (simp add: isr_or_task_def Let_def)

interpretation queue_post: isr_dual tkl_queue_post
  OPRT_OS_ADAPTER_INVALID_PARM OPRT_OS_ADAPTER_QUEUE_SEND_FAIL
  by unfold_locales
    (auto simp only: tkl_queue_post_def option.case split_beta isr_or_task_code isr_safe.simps
      intro: isr_or_task_task isr_or_task_isr)

interpretation queue_fetch: isr_dual
  "\<lambda>p h a s. (fst (fst (tkl_queue_fetch p h a s)), snd (tkl_queue_fetch p h a s))"
  OPRT_OS_ADAPTER_INVALID_PARM OPRT_OS_ADAPTER_QUEUE_RECV_FAIL
  by unfold_locales
    (auto simp only: tkl_queue_fetch_def option.case Let_def split_beta fst_conv snd_conv isr_or_task_code isr_safe.simps
      intro: isr_or_task_task isr_or_task_isr)

interpretation semaphore_wait: isr_dual tkl_semaphore_wait
  OPRT_OS_ADAPTER_INVALID_PARM OPRT_OS_ADAPTER_SEM_WAIT_FAILED
  by unfold_locales
    (auto simp only: tkl_semaphore_wait_def option.case isr_or_task_code isr_safe.simps
      intro: isr_or_task_task isr_or_task_isr)

interpretation semaphore_post: isr_dual "\<lambda>p h (a :: unit). tkl_semaphore_post p h"
  OPRT_OS_ADAPTER_INVALID_PARM OPRT_OS_ADAPTER_SEM_POST_FAILED
  by unfold_locales
    (auto simp only: tkl_semaphore_post_def option.case isr_or_task_code isr_safe.simps
      intro: isr_or_task_task isr_or_task_isr)

interpretation mutex_unlock: isr_dual "\<lambda>p h (a :: unit). tkl_mutex_unlock p h"
  OPRT_INVALID_PARM OPRT_OS_ADAPTER_MUTEX_UNLOCK_FAILED
  by unfold_locales
    (auto simp only: tkl_mutex_unlock_def option.case isr_or_task_code isr_safe.simps
      intro: isr_or_task_task isr_or_task_isr)

section \<open>Queues are first in, first out\<close>

text \<open>The messages in a queue, read off the successful sends and receives of the call list.\<close>

fun queue_step :: "os_platform \<Rightarrow> handle \<Rightarrow> os_call list \<Rightarrow> os_call \<Rightarrow> byte list list \<Rightarrow> byte list list" where
  "queue_step p h tr c q =
     (if os_ret p tr c \<noteq> pdTRUE then q
      else case c of
          XQueueSend h' bs _ \<Rightarrow> if h' = h then q @ [bs] else q
        | XQueueSendFromISR h' bs \<Rightarrow> if h' = h then q @ [bs] else q
        | XQueueReceive h' _ \<Rightarrow> if h' = h then tl q else q
        | XQueueReceiveFromISR h' \<Rightarrow> if h' = h then tl q else q
        | _ \<Rightarrow> q)"

definition queue_of :: "os_platform \<Rightarrow> handle \<Rightarrow> os_call list \<Rightarrow> byte list list" where
  "queue_of p h tr = hist (queue_step p h) [] tr"

lemma queue_of_append [simp]:
  "queue_of p h (xs @ ys) = hist_from (queue_step p h) xs (queue_of p h xs) ys"
  by (simp add: queue_of_def)

text \<open>
  What the kernel promises of its queues: a successful receive takes the oldest item. The theory
  \<open>Freertos_Os\<close> shows it for the queues of \<^verbatim>\<open>queue.c\<close>.
\<close>

definition fifo_at :: "os_platform \<Rightarrow> handle \<Rightarrow> os_call list \<Rightarrow> bool" where
  "fifo_at p h tr \<longleftrightarrow>
     (\<forall>c. (c = XQueueReceiveFromISR h \<or> (\<exists>t. c = XQueueReceive h t)) \<and> os_ret p tr c = pdTRUE \<longrightarrow>
        queue_of p h tr \<noteq> [] \<and> received p tr c = hd (queue_of p h tr))"

datatype queue_op = Post "byte list" uint32 | Fetch uint32

text \<open>A run of posts and fetches on one queue: the messages accepted and the messages delivered.\<close>

fun queue_run ::
  "os_platform \<Rightarrow> handle \<Rightarrow> queue_op list \<Rightarrow> os \<Rightarrow> byte list list \<times> byte list list \<times> os" where
  "queue_run p h [] s = ([], [], s)"
| "queue_run p h (Post bs t # ops) s =
     (let (ret, s1) = tkl_queue_post p (Some h) (bs, t) s;
          (posted, fetched, s2) = queue_run p h ops s1
      in ((if ret = OPRT_OK then [bs] else []) @ posted, fetched, s2))"
| "queue_run p h (Fetch t # ops) s =
     (let ((ret, msg), s1) = tkl_queue_fetch p (Some h) t s;
          (posted, fetched, s2) = queue_run p h ops s1
      in (posted, (case msg of None \<Rightarrow> [] | Some m \<Rightarrow> [m]) @ fetched, s2))"

lemma queue_post_content:
  "tkl_queue_post p (Some h) (bs, t) s = (ret, s1) \<Longrightarrow>
   queue_of p h (calls s1) = queue_of p h (calls s) @ (if ret = OPRT_OK then [bs] else [])"
  by (auto simp: tkl_queue_post_def isr_or_task_def Let_def split: if_splits)

lemma queue_fetch_content:
  assumes "fifo_at p h (calls s)" "tkl_queue_fetch p (Some h) t s = ((ret, msg), s1)"
  shows "(case msg of None \<Rightarrow> [] | Some m \<Rightarrow> [m]) @ queue_of p h (calls s1) = queue_of p h (calls s)"
proof -
  define c where "c = (if in_isr p (calls s) then XQueueReceiveFromISR h
    else XQueueReceive h (wait_ticks TKL_QUEUE_WAIT_FROEVER t))"
  have "queue_of p h (calls s) \<noteq> [] \<and> received p (calls s) c = hd (queue_of p h (calls s))"
    if "os_ret p (calls s) c = pdTRUE"
    using assms(1) that unfolding fifo_at_def c_def by (cases "in_isr p (calls s)") auto
  with assms(2) show ?thesis
    by (auto simp: tkl_queue_fetch_def isr_or_task_def Let_def c_def split: if_splits)
qed

text \<open>
  The traces on which the promise holds may be restricted by \<open>P\<close>, as long as posts and fetches of
  the run keep to it.
\<close>

lemma queue_run_content:
  assumes "\<And>tr. P tr \<Longrightarrow> fifo_at p h tr"
    and "\<And>op s ps fs s'. op \<in> set ops \<Longrightarrow> P (calls s) \<Longrightarrow> queue_run p h [op] s = (ps, fs, s') \<Longrightarrow> P (calls s')"
    and "P (calls s)" "queue_run p h ops s = (posted, fetched, s')"
  shows "queue_of p h (calls s) @ posted = fetched @ queue_of p h (calls s') \<and> P (calls s')"
  using assms(2-4)
proof (induction ops arbitrary: s posted fetched)
  case Nil
  then show ?case by simp
next
  case (Cons op ops)
  obtain ps1 fs1 s1 where op: "queue_run p h [op] s = (ps1, fs1, s1)"
    using prod_cases3 by blast
  obtain ps fs s2 where run: "queue_run p h ops s1 = (ps, fs, s2)"
    using prod_cases3 by blast
  have split: "posted = ps1 @ ps" "fetched = fs1 @ fs" "s' = s2"
    using Cons.prems(3) op run
    by (cases op; auto simp: Let_def split: prod.splits)+
  have "queue_of p h (calls s) @ ps1 = fs1 @ queue_of p h (calls s1)"
  proof (cases op)
    case (Post bs t)
    obtain ret s3 where "tkl_queue_post p (Some h) (bs, t) s = (ret, s3)" by fastforce
    with queue_post_content [OF this] Post op show ?thesis by auto
  next
    case (Fetch t)
    obtain ret msg s3 where f: "tkl_queue_fetch p (Some h) t s = ((ret, msg), s3)"
      by (metis prod.collapse)
    with queue_fetch_content [OF assms(1) [OF Cons.prems(2)] f] Fetch op show ?thesis by auto
  qed
  moreover have "P (calls s1)" using Cons.prems(1) [OF _ Cons.prems(2) op] by simp
  moreover have "\<And>op s ps fs s'. op \<in> set ops \<Longrightarrow> P (calls s) \<Longrightarrow> queue_run p h [op] s = (ps, fs, s') \<Longrightarrow> P (calls s')"
    using Cons.prems(1) by (meson list.set_intros(2))
  ultimately show ?case using Cons.IH [of s1 ps fs] run split by (metis append.assoc)
qed

section \<open>Properties\<close>

text \<open>A platform outside interrupts whose kernel accepts sends and has nothing to receive.\<close>

definition example_os :: os_platform where
  "example_os = \<lparr>in_isr = \<lambda>_. False, new_handle = \<lambda>_ _. Some 1,
     os_ret = \<lambda>tr c. case c of XQueueSend _ _ _ \<Rightarrow> 1 | _ \<Rightarrow> 0,
     woken = \<lambda>_ _. False, received = \<lambda>_ _. []\<rparr>"


text \<open>The operations meant to be callable from interrupts.\<close>

datatype sync_op =
  Q_post "handle option" "byte list" uint32
  | Q_fetch "handle option" uint32
  | S_wait "handle option" uint32
  | S_post "handle option"
  | M_unlock "handle option"

fun sync_step :: "os_platform \<Rightarrow> sync_op \<Rightarrow> os \<Rightarrow> os" where
  "sync_step p (Q_post h bs t) s = snd (tkl_queue_post p h (bs, t) s)"
| "sync_step p (Q_fetch h t) s = snd (tkl_queue_fetch p h t s)"
| "sync_step p (S_wait h t) s = snd (tkl_semaphore_wait p h t s)"
| "sync_step p (S_post h) s = snd (tkl_semaphore_post p h s)"
| "sync_step p (M_unlock h) s = snd (tkl_mutex_unlock p h s)"

text \<open>
  C28: interrupt handlers never block in the adapter. Whatever queue, semaphore and unlock operations
  run in interrupt context, with any handles (NULL included), timeouts and kernel answers, only the
  FromISR variants and the yield they ask for reach the kernel.
\<close>

theorem isr_never_blocks:
  assumes "\<forall>tr. in_isr p tr"
  shows "list_all isr_safe (calls (fold (sync_step p) ops \<lparr>calls = []\<rparr>))"
proof -
  have "list_all isr_safe (calls s) \<Longrightarrow> list_all isr_safe (calls (fold (sync_step p) ops s))" for s
  proof (induction ops arbitrary: s)
    case (Cons op ops)
    then have "list_all isr_safe (calls (sync_step p op s))"
      using assms queue_post.isr_any queue_fetch.isr_any semaphore_wait.isr_any
        semaphore_post.isr_any mutex_unlock.isr_any
      by (cases op) auto
    with Cons.IH show ?case by simp
  qed simp
  then show ?thesis by simp
qed

theorem isr_never_blocks_witness:
  "list_all isr_safe (calls (fold (sync_step (example_os\<lparr>in_isr := \<lambda>_. True\<rparr>))
     [Q_post (Some 1) [5] 10, S_wait (Some 2) 0xFFFFFFFF, M_unlock None] \<lparr>calls = []\<rparr>))"
  by (rule isr_never_blocks) simp

text \<open>
  C39: a timed wait asks the kernel for exactly the requested milliseconds, at a tick of one
  millisecond, if and only if the timeout is at most 4294967 ms or the value that means forever. A
  longer timeout overflows the 32-bit product of \<^verbatim>\<open>pdMS_TO_TICKS\<close> and becomes a wait of at most
  4294967 ticks.
\<close>

theorem wait_ticks_exact:
  "(wait_ticks TKL_SEM_WAIT_FOREVER t = t \<longleftrightarrow> unat t \<le> 4294967 \<or> t = TKL_SEM_WAIT_FOREVER)
   \<and> (t \<noteq> TKL_SEM_WAIT_FOREVER \<longrightarrow> unat (wait_ticks TKL_SEM_WAIT_FOREVER t) \<le> 4294967)"
proof -
  have ub: "unat (pdMS_TO_TICKS t) \<le> 4294967"
    using unat_less_32 [of "t * 1000"] by (simp add: pdMS_TO_TICKS_def unat_div)
  have ex: "pdMS_TO_TICKS t = t" if "unat t \<le> 4294967"
  proof -
    have "unat (t * 1000) = unat t * 1000"
      using that unat_mult_lem [of t 1000] by simp
    then have "unat (pdMS_TO_TICKS t) = unat t" by (simp add: pdMS_TO_TICKS_def unat_div)
    then show ?thesis by (rule unsigned_word_eqI)
  qed
  have "(0xFFFFFFFF :: uint32) = - 1" by simp
  then have top: "t < 0xFFFFFFFF \<longleftrightarrow> t \<noteq> 0xFFFFFFFF"
    using word_order.not_eq_extremum [of t] by (simp only:)
  show ?thesis
    using ub ex by (auto simp: wait_ticks_def top)
qed

theorem wait_ticks_exact_witness:
  "unat (wait_ticks TKL_SEM_WAIT_FOREVER 4294968) \<le> 4294967"
  using wait_ticks_exact [of 4294968] by simp

end
