(* ===== verification/Freertos_Time.thy ===== *)
theory Freertos_Time
  imports Os_Sync
begin

text \<open>
  Time in the FreeRTOS kernel of ESP-IDF (\<^verbatim>\<open>tasks.c\<close>, \<^verbatim>\<open>list.c\<close>): the 32-bit tick counter, the two
  lists of delayed tasks that are exchanged when the counter wraps, and the time-outs that the
  blocking calls recompute each time they are woken.

  A list of the kernel is the Isabelle list of its items from the one after the end marker to the
  one before it; an item of a delayed list carries the tick at which its task is to be woken. The
  ready lists are not modelled: \<open>readied\<close> records the calls of \<^verbatim>\<open>prvAddTaskToReadyList\<close>. Failed
  \<^verbatim>\<open>configASSERT\<close>s abort the system and are the value \<open>None\<close>.

  The lemmas show that the delayed lists together are a table of remaining ticks: every tick
  decreases each entry by one and wakes exactly the tasks that reach zero, also across the wrap of
  the counter (\<open>tick_step\<close>), so a sleeping task sleeps for the number of ticks it
  asked for (\<open>delay_exact\<close>); and that a time-out polled at arbitrary moments expires at the first
  poll by which the time has passed (\<open>timeout_exact\<close>).
\<close>

section \<open>Lists\<close>

text \<open>The end marker has the value \<^verbatim>\<open>portMAX_DELAY\<close>, so a smaller value stops before it.\<close>

definition vListInsert :: "('a \<Rightarrow> uint32) \<Rightarrow> 'a \<Rightarrow> 'a list \<Rightarrow> 'a list" where
  "vListInsert val x xs = (if val x = portMAX_DELAY then xs @ [x]
     else takeWhile (\<lambda>y. val y \<le> val x) xs @ x # dropWhile (\<lambda>y. val y \<le> val x) xs)"

definition uxListRemove :: "'a \<Rightarrow> 'a list \<Rightarrow> 'a list" where
  "uxListRemove x xs = remove1 x xs"

section \<open>The tick and the delayed tasks\<close>

record clock =
  xTickCount :: uint32
  xNumOfOverflows :: uint32
  xNextTaskUnblockTime :: uint32
  pxDelayedTaskList :: "(uint32 \<times> nat) list"
  pxOverflowDelayedTaskList :: "(uint32 \<times> nat) list"
  xSuspendedTaskList :: "nat list"
  xPendedTicks :: uint32
  readied :: "nat list"

definition prvResetNextTaskUnblockTime :: "'z clock_scheme \<Rightarrow> 'z clock_scheme" where
  "prvResetNextTaskUnblockTime c = c\<lparr>xNextTaskUnblockTime :=
     (case pxDelayedTaskList c of [] \<Rightarrow> portMAX_DELAY | (v, t) # _ \<Rightarrow> v)\<rparr>"

definition taskSWITCH_DELAYED_LISTS :: "'z clock_scheme \<Rightarrow> 'z clock_scheme option" where
  "taskSWITCH_DELAYED_LISTS c = (if pxDelayedTaskList c \<noteq> [] then None
     else Some (prvResetNextTaskUnblockTime
       (c\<lparr>pxDelayedTaskList := pxOverflowDelayedTaskList c,
          pxOverflowDelayedTaskList := pxDelayedTaskList c,
          xNumOfOverflows := xNumOfOverflows c + 1\<rparr>)))"

text \<open>The loop that unblocks the tasks whose time has come.\<close>

fun unblock_loop :: "(uint32 \<times> nat) list \<Rightarrow> 'z clock_scheme \<Rightarrow> 'z clock_scheme" where
  "unblock_loop [] c = c\<lparr>pxDelayedTaskList := [], xNextTaskUnblockTime := portMAX_DELAY\<rparr>"
| "unblock_loop ((v, t) # xs) c =
    (if xTickCount c < v
     then c\<lparr>pxDelayedTaskList := (v, t) # xs, xNextTaskUnblockTime := v\<rparr>
     else unblock_loop xs (c\<lparr>readied := readied c @ [t]\<rparr>))"

text \<open>
  The part of \<^verbatim>\<open>xTaskIncrementTick\<close> that runs on core 0; \<open>suspended\<close> is
  \<^verbatim>\<open>uxSchedulerSuspended\<close> of that core. Its result, whether a context switch is due, depends on the
  ready lists and is left out.
\<close>

definition xTaskIncrementTick :: "bool \<Rightarrow> 'z clock_scheme \<Rightarrow> 'z clock_scheme option" where
  "xTaskIncrementTick suspended c =
    (if suspended then Some (c\<lparr>xPendedTicks := xPendedTicks c + 1\<rparr>)
     else
       let c = c\<lparr>xTickCount := xTickCount c + 1\<rparr> in
       case (if xTickCount c = 0 then taskSWITCH_DELAYED_LISTS c else Some c) of
         None \<Rightarrow> None
       | Some c \<Rightarrow> Some (if xNextTaskUnblockTime c \<le> xTickCount c
                         then unblock_loop (pxDelayedTaskList c) c else c))"

definition prvAddCurrentTaskToDelayedList :: "nat \<Rightarrow> uint32 \<Rightarrow> 'z clock_scheme \<Rightarrow> 'z clock_scheme" where
  "prvAddCurrentTaskToDelayedList t ticks c =
    (if ticks = portMAX_DELAY then c\<lparr>xSuspendedTaskList := xSuspendedTaskList c @ [t]\<rparr>
     else
       let wake = xTickCount c + ticks in
       if wake < xTickCount c
       then c\<lparr>pxOverflowDelayedTaskList := vListInsert fst (wake, t) (pxOverflowDelayedTaskList c)\<rparr>
       else c\<lparr>pxDelayedTaskList := vListInsert fst (wake, t) (pxDelayedTaskList c),
              xNextTaskUnblockTime :=
                (if wake < xNextTaskUnblockTime c then wake else xNextTaskUnblockTime c)\<rparr>)"

definition vTaskDelay :: "nat \<Rightarrow> uint32 \<Rightarrow> 'z clock_scheme \<Rightarrow> 'z clock_scheme" where
  "vTaskDelay t ticks c = (if 0 < ticks then prvAddCurrentTaskToDelayedList t ticks c else c)"

text \<open>
  The task leaves its state list early, as when \<^verbatim>\<open>xTaskRemoveFromEventList\<close> wakes it:
  \<^verbatim>\<open>xNextTaskUnblockTime\<close> is left as it is.
\<close>

definition leave_delayed :: "nat \<Rightarrow> 'z clock_scheme \<Rightarrow> 'z clock_scheme" where
  "leave_delayed t c = c\<lparr>
     pxDelayedTaskList := filter (\<lambda>(v, u). u \<noteq> t) (pxDelayedTaskList c),
     pxOverflowDelayedTaskList := filter (\<lambda>(v, u). u \<noteq> t) (pxOverflowDelayedTaskList c),
     xSuspendedTaskList := filter (\<lambda>u. u \<noteq> t) (xSuspendedTaskList c),
     readied := readied c @ [t]\<rparr>"

section \<open>Time-outs\<close>

record TimeOut_t =
  xOverflowCount :: uint32
  xTimeOnEntering :: uint32

definition vTaskInternalSetTimeOutState :: "'z clock_scheme \<Rightarrow> TimeOut_t" where
  "vTaskInternalSetTimeOutState c =
    \<lparr>xOverflowCount = xNumOfOverflows c, xTimeOnEntering = xTickCount c\<rparr>"

text \<open>
  \<open>aborted\<close> is \<^verbatim>\<open>ucDelayAborted\<close> of the caller. The result is the answer, the time-out structure
  and the ticks left.
\<close>

definition xTaskCheckForTimeOut ::
  "bool \<Rightarrow> 'z clock_scheme \<Rightarrow> TimeOut_t \<Rightarrow> uint32 \<Rightarrow> bool \<times> TimeOut_t \<times> uint32" where
  "xTaskCheckForTimeOut aborted c pto ticks =
    (let elapsed = xTickCount c - xTimeOnEntering pto in
     if aborted then (True, pto, ticks)
     else if ticks = portMAX_DELAY then (False, pto, ticks)
     else if xNumOfOverflows c \<noteq> xOverflowCount pto \<and> xTimeOnEntering pto \<le> xTickCount c
       then (True, pto, ticks)
     else if elapsed < ticks
       then (False, vTaskInternalSetTimeOutState c, ticks - elapsed)
     else (True, pto, 0))"

section \<open>Remaining ticks\<close>

text \<open>How many ticks each delayed task still sleeps.\<close>

definition remaining :: "'z clock_scheme \<Rightarrow> nat \<rightharpoonup> nat" where
  "remaining c t = map_option (\<lambda>w. w - unat (xTickCount c))
     (map_of (map (\<lambda>(v, t). (t, unat v)) (pxDelayedTaskList c)
            @ map (\<lambda>(v, t). (t, unat v + 2 ^ 32)) (pxOverflowDelayedTaskList c)) t)"

definition delayed :: "'z clock_scheme \<Rightarrow> nat list" where
  "delayed c = map snd (pxDelayedTaskList c @ pxOverflowDelayedTaskList c)"

definition clock_inv :: "'z clock_scheme \<Rightarrow> bool" where
  "clock_inv c \<longleftrightarrow>
     sorted (map fst (pxDelayedTaskList c)) \<and> sorted (map fst (pxOverflowDelayedTaskList c))
     \<and> (\<forall>v \<in> fst ` set (pxDelayedTaskList c). xTickCount c < v \<and> xNextTaskUnblockTime c \<le> v)
     \<and> (\<forall>v \<in> fst ` set (pxOverflowDelayedTaskList c). v < xTickCount c)
     \<and> distinct (delayed c)"

definition asleep :: "nat \<Rightarrow> 'z clock_scheme \<Rightarrow> bool" where
  "asleep t c \<longleftrightarrow> t \<in> set (delayed c) \<or> t \<in> set (xSuspendedTaskList c)"


section \<open>Runs\<close>

text \<open>
  What changes the lists: ticks, tasks that go to sleep, tasks woken before their time. A sleeping
  task does not run, so it cannot ask for another delay.
\<close>

datatype clock_op = Tick | Delay nat uint32 | Wake nat

fun clock_step :: "clock_op \<Rightarrow> 'z clock_scheme \<Rightarrow> 'z clock_scheme option" where
  "clock_step Tick c = xTaskIncrementTick False c"
| "clock_step (Delay t n) c = Some (if asleep t c then c else vTaskDelay t n c)"
| "clock_step (Wake t) c = Some (if asleep t c then leave_delayed t c else c)"

fun clock_run :: "clock_op list \<Rightarrow> 'z clock_scheme \<Rightarrow> 'z clock_scheme option" where
  "clock_run [] c = Some c"
| "clock_run (op # ops) c = (case clock_step op c of None \<Rightarrow> None | Some c' \<Rightarrow> clock_run ops c')"

definition ticks_of :: "clock_op list \<Rightarrow> nat" where
  "ticks_of ops = length (filter (\<lambda>op. op = Tick) ops)"

definition boot_clock :: clock where
  "boot_clock = \<lparr>xTickCount = 0, xNumOfOverflows = 0, xNextTaskUnblockTime = portMAX_DELAY,
     pxDelayedTaskList = [], pxOverflowDelayedTaskList = [], xSuspendedTaskList = [],
     xPendedTicks = 0, readied = []\<rparr>"

text \<open>A time-out polled after each of several runs, as a blocking call polls it when it is woken.\<close>

fun polls :: "clock_op list list \<Rightarrow> clock \<Rightarrow> TimeOut_t \<Rightarrow> uint32 \<Rightarrow> bool option" where
  "polls [] c pto ticks = Some False"
| "polls (ops # rest) c pto ticks =
    (case clock_run ops c of None \<Rightarrow> None
     | Some c \<Rightarrow> (case xTaskCheckForTimeOut False c pto ticks of
         (expired, pto', ticks') \<Rightarrow> if expired then Some True else polls rest c pto' ticks'))"

section \<open>Lemmas on lists\<close>

lemma le_max_delay [simp]: "(v :: uint32) \<le> 0xFFFFFFFF"
  using unat_less_32 [of v] by (simp add: word_le_nat_alt)

lemma vListInsert_simps [simp]:
  "vListInsert val x [] = [x]"
  "vListInsert val x (y # ys) =
    (if val y \<le> val x then y # vListInsert val x ys else x # y # ys)"
  by (auto simp: vListInsert_def)

lemma set_vListInsert [simp]: "set (vListInsert val x xs) = insert x (set xs)"
  by (induction xs) auto

lemma sorted_vListInsert:
  "sorted (map val xs) \<Longrightarrow> sorted (map val (vListInsert val x xs))"
  by (induction xs) auto

lemma distinct_vListInsert:
  "distinct (map f (vListInsert val x xs)) \<longleftrightarrow> f x \<notin> f ` set xs \<and> distinct (map f xs)"
  by (induction xs) auto

lemma vListInsert_Nil [simp]: "vListInsert val x xs \<noteq> []"
  by (cases xs) auto

section \<open>Lemmas on the delayed lists\<close>

lemma unblock_loop_eq:
  "sorted (map fst xs) \<Longrightarrow> unblock_loop xs c =
    c\<lparr>pxDelayedTaskList := filter (\<lambda>x. xTickCount c < fst x) xs,
      xNextTaskUnblockTime := (case filter (\<lambda>x. xTickCount c < fst x) xs of
         [] \<Rightarrow> portMAX_DELAY | x # _ \<Rightarrow> fst x),
      readied := readied c @ map snd (filter (\<lambda>x. fst x \<le> xTickCount c) xs)\<rparr>"
proof (induction xs c rule: unblock_loop.induct)
  case (1 c)
  then show ?case by simp
next
  case (2 v t xs c)
  show ?case
  proof (cases "xTickCount c < v")
    case True
    with 2(2) have *: "\<forall>x \<in> set xs. xTickCount c < fst x" by auto
    then have "filter (\<lambda>x. xTickCount c < fst x) xs = xs"
      "filter (\<lambda>x. fst x \<le> xTickCount c) xs = []"
      by (auto simp: filter_empty_conv not_le)
    with True show ?thesis by simp
  next
    case False
    with 2 show ?thesis by (simp add: not_less)
  qed
qed

lemma sorted_head_le:
  "sorted (map fst xs) \<Longrightarrow> x \<in> set xs \<Longrightarrow> (case xs of [] \<Rightarrow> m | y # _ \<Rightarrow> fst y) \<le> fst x"
  by (cases xs) auto

lemma clock_inv_distinct:
  "clock_inv c \<Longrightarrow> distinct (map snd (pxDelayedTaskList c @ pxOverflowDelayedTaskList c))"
  by (simp add: clock_inv_def delayed_def)

lemma remaining_iff:
  assumes "clock_inv c"
  shows "remaining c t = Some r \<longleftrightarrow>
    (\<exists>v. (v, t) \<in> set (pxDelayedTaskList c) \<and> r = unat v - unat (xTickCount c))
    \<or> (\<exists>v. (v, t) \<in> set (pxOverflowDelayedTaskList c) \<and> r = unat v + 2 ^ 32 - unat (xTickCount c))"
proof -
  let ?xs = "map (\<lambda>(v, t). (t, unat v)) (pxDelayedTaskList c)
            @ map (\<lambda>(v, t). (t, unat v + 2 ^ 32)) (pxOverflowDelayedTaskList c)"
  have "map fst ?xs = map snd (pxDelayedTaskList c @ pxOverflowDelayedTaskList c)" by auto
  with clock_inv_distinct [OF assms] have d: "distinct (map fst ?xs)" by metis
  have "map_of ?xs t = Some w \<longleftrightarrow> (t, w) \<in> set ?xs" for w
    using d by (rule map_of_eq_Some_iff)
  then show ?thesis by (auto simp: remaining_def)
qed

lemma remaining_None: "remaining c t = None \<longleftrightarrow> t \<notin> set (delayed c)"
  by (force simp: remaining_def delayed_def map_of_eq_None_iff)

text \<open>What a tick does to the lists.\<close>

lemma tick_lists:
  assumes "clock_inv c"
  defines "k \<equiv> xTickCount c + 1"
  defines "D \<equiv> (if k = 0 then pxOverflowDelayedTaskList c else pxDelayedTaskList c)"
  shows "\<exists>c'. xTaskIncrementTick False c = Some c' \<and> xTickCount c' = k
    \<and> pxDelayedTaskList c' = filter (\<lambda>x. k < fst x) D
    \<and> pxOverflowDelayedTaskList c' = (if k = 0 then [] else pxOverflowDelayedTaskList c)
    \<and> xNumOfOverflows c' = (if k = 0 then xNumOfOverflows c + 1 else xNumOfOverflows c)
    \<and> readied c' = readied c @ map snd (filter (\<lambda>x. fst x \<le> k) D)
    \<and> xSuspendedTaskList c' = xSuspendedTaskList c
    \<and> (\<forall>x \<in> set (pxDelayedTaskList c'). xNextTaskUnblockTime c' \<le> fst x)"
proof -
  define c1 where "c1 = c\<lparr>xTickCount := k\<rparr>"
  have empty: "pxDelayedTaskList c = []" if "k = 0"
  proof -
    from that have "xTickCount c = - 1" unfolding k_def by (metis add.commute add_eq_0_iff)
    then have "\<not> xTickCount c < v" for v by simp
    with assms(1) show ?thesis by (auto simp: clock_inv_def)
  qed
  obtain c2 where c2: "(if xTickCount c1 = 0 then taskSWITCH_DELAYED_LISTS c1 else Some c1) = Some c2"
    "xTickCount c2 = k" "pxDelayedTaskList c2 = D" "readied c2 = readied c"
    "pxOverflowDelayedTaskList c2 = (if k = 0 then [] else pxOverflowDelayedTaskList c)"
    "xSuspendedTaskList c2 = xSuspendedTaskList c"
    "xNumOfOverflows c2 = (if k = 0 then xNumOfOverflows c + 1 else xNumOfOverflows c)"
    "\<forall>x \<in> set D. xNextTaskUnblockTime c2 \<le> fst x" "sorted (map fst D)"
  proof (cases "k = 0")
    case True
    with empty assms(1) show thesis
      by (intro that [of "the (taskSWITCH_DELAYED_LISTS c1)"])
        (auto simp: c1_def taskSWITCH_DELAYED_LISTS_def prvResetNextTaskUnblockTime_def D_def
          clock_inv_def split: list.splits, fastforce)
  next
    case False
    with assms(1) show thesis
      by (intro that [of c1]) (auto simp: c1_def D_def clock_inv_def)
  qed
  show ?thesis
  proof (cases "xNextTaskUnblockTime c2 \<le> k")
    case True
    have "sorted (map fst (filter (\<lambda>x. k < fst x) D))"
      using c2(9) by (rule sorted_filter)
    from sorted_head_le [OF this, of _ portMAX_DELAY] True c2 show ?thesis
      by (simp add: xTaskIncrementTick_def Let_def c1_def [symmetric] k_def [symmetric]
          unblock_loop_eq)
  next
    case False
    with c2(8) have "\<forall>x \<in> set D. k < fst x" by (auto simp: not_le order.strict_trans2)
    then have "filter (\<lambda>x. k < fst x) D = D" "filter (\<lambda>x. fst x \<le> k) D = []"
      by (auto simp: filter_empty_conv not_le)
    with False c2 show ?thesis
      by (auto simp: xTaskIncrementTick_def Let_def c1_def [symmetric] k_def [symmetric])
  qed
qed

lemma tick_step:
  assumes "clock_inv c" "xTaskIncrementTick False c = Some c'"
  shows "clock_inv c'"
    and "remaining c' t = (case remaining c t of Some r \<Rightarrow> if r \<le> 1 then None else Some (r - 1) | None \<Rightarrow> None)"
    and "\<exists>woken. readied c' = readied c @ woken \<and> distinct woken
      \<and> set woken = {t. remaining c t = Some 1}"
    and "xSuspendedTaskList c' = xSuspendedTaskList c"
proof -
  define k where "k = xTickCount c + 1"
  define D where "D = (if k = 0 then pxOverflowDelayedTaskList c else pxDelayedTaskList c)"
  have c': "xTickCount c' = k" "pxDelayedTaskList c' = filter (\<lambda>x. k < fst x) D"
    "pxOverflowDelayedTaskList c' = (if k = 0 then [] else pxOverflowDelayedTaskList c)"
    "readied c' = readied c @ map snd (filter (\<lambda>x. fst x \<le> k) D)"
    "\<forall>x \<in> set (pxDelayedTaskList c'). xNextTaskUnblockTime c' \<le> fst x"
    and sus: "xSuspendedTaskList c' = xSuspendedTaskList c"
    using tick_lists [OF assms(1)] assms(2) by (auto simp: k_def D_def)
  note inv = assms(1) [unfolded clock_inv_def delayed_def]
  have k0: "xTickCount c = - 1" if "k = 0" using that unfolding k_def by (metis add.commute add_eq_0_iff)
  then have empty: "pxDelayedTaskList c = []" if "k = 0" using that inv by auto
  have kS: "unat k = Suc (unat (xTickCount c))" if "k \<noteq> 0"
    using that unatSuc [of "xTickCount c"] unfolding k_def by (simp add: add.commute)
  have dis: "distinct (map snd D)" using inv by (simp add: D_def)
  show *: "clock_inv c'"
    using inv c' dis kS
    by (auto simp: clock_inv_def delayed_def D_def sorted_filter distinct_map_filter word_less_nat_alt
        less_Suc_eq split: if_splits)
  show "xSuspendedTaskList c' = xSuspendedTaskList c" by (rule sus)
  have old: "remaining c u = Some r \<longleftrightarrow>
     (\<exists>v. (v, u) \<in> set D \<and> r = Suc (unat v) - unat k)
     \<or> (\<exists>v. (v, u) \<in> set (pxOverflowDelayedTaskList c') \<and> r = Suc (unat v) + 2 ^ 32 - unat k)" for u r
  proof (cases "k = 0")
    case True
    have "unat (- 1 :: uint32) = 2 ^ 32 - 1" by (simp add: unsigned_minus_1_eq_mask mask_eq_exp_minus_1)
    with True empty k0 show ?thesis by (auto simp: remaining_iff [OF assms(1)] c' D_def)
  next
    case False
    with kS show ?thesis by (auto simp: remaining_iff [OF assms(1)] c' D_def)
  qed
  have new: "remaining c' u = Some r \<longleftrightarrow>
     (\<exists>v. (v, u) \<in> set D \<and> k < v \<and> r = unat v - unat k)
     \<or> (\<exists>v. (v, u) \<in> set (pxOverflowDelayedTaskList c') \<and> r = unat v + 2 ^ 32 - unat k)" for u r
    by (auto simp: remaining_iff [OF *] c')
  have pos: "k \<le> v" if "(v, u) \<in> set D" for v u
    using that inv kS by (auto simp: D_def word_le_nat_alt word_less_nat_alt split: if_splits)
  have "remaining c' t = Some r \<longleftrightarrow> (\<exists>r'. remaining c t = Some r' \<and> 1 < r' \<and> r = r' - 1)" for r
  proof -
    have "unat k < 2 ^ 32" by (rule unat_less_32)
    then show ?thesis unfolding old new
      by (force simp: word_less_nat_alt)
  qed
  then show "remaining c' t = (case remaining c t of Some r \<Rightarrow> if r \<le> 1 then None else Some (r - 1) | None \<Rightarrow> None)"
    by (cases "remaining c' t"; cases "remaining c t") (auto split: if_splits, metis not_le_imp_less)
  have "remaining c u = Some 1 \<longleftrightarrow> (\<exists>v. (v, u) \<in> set D \<and> v \<le> k)" for u
  proof
    assume "remaining c u = Some 1"
    with unat_less_32 [of k] show "\<exists>v. (v, u) \<in> set D \<and> v \<le> k"
      by (auto simp: old word_le_nat_alt)
  next
    assume "\<exists>v. (v, u) \<in> set D \<and> v \<le> k"
    with pos have "(k, u) \<in> set D" by (metis order.antisym)
    then show "remaining c u = Some 1" unfolding old by auto
  qed
  with dis show "\<exists>woken. readied c' = readied c @ woken \<and> distinct woken \<and> set woken = {t. remaining c t = Some 1}"
    by (intro exI [of _ "map snd (filter (\<lambda>x. fst x \<le> k) D)"])
      (auto simp: c' distinct_map_filter image_iff)
qed

lemma delay_lists:
  assumes "clock_inv c" "t \<notin> set (delayed c)" "0 < ticks" "ticks \<noteq> portMAX_DELAY"
  shows "clock_inv (vTaskDelay t ticks c)"
    and "remaining (vTaskDelay t ticks c) = (remaining c)(t \<mapsto> unat ticks)"
proof -
  let ?c = "vTaskDelay t ticks c" and ?w = "xTickCount c + ticks"
  have D: "?w < xTickCount c \<longleftrightarrow> 2 ^ 32 \<le> unat (xTickCount c) + unat ticks"
    "unat ?w = (if ?w < xTickCount c then unat (xTickCount c) + unat ticks - 2 ^ 32
                else unat (xTickCount c) + unat ticks)"
  proof -
    have u: "unat ?w = (unat (xTickCount c) + unat ticks) mod 2 ^ 32"
      by (simp add: unat_word_ariths)
    note b = unat_less_32 [of "xTickCount c"] unat_less_32 [of ticks]
    show 1: "?w < xTickCount c \<longleftrightarrow> 2 ^ 32 \<le> unat (xTickCount c) + unat ticks"
    proof (cases "2 ^ 32 \<le> unat (xTickCount c) + unat ticks")
      case True
      with b show ?thesis by (simp add: word_less_nat_alt u le_mod_geq)
    next
      case False
      then show ?thesis by (simp add: word_less_nat_alt u)
    qed
    show "unat ?w = (if ?w < xTickCount c then unat (xTickCount c) + unat ticks - 2 ^ 32
                else unat (xTickCount c) + unat ticks)"
    proof (cases "2 ^ 32 \<le> unat (xTickCount c) + unat ticks")
      case True
      with b show ?thesis unfolding 1 by (simp add: u le_mod_geq)
    next
      case False
      then show ?thesis unfolding 1 by (simp add: u)
    qed
  qed
  have lt: "xTickCount c < ?w" if "\<not> ?w < xTickCount c"
    using that assms(3) by (auto simp: not_less le_less)
  show *: "clock_inv ?c"
    using assms(1,2) lt
    by (auto simp: assms(3,4) vTaskDelay_def prvAddCurrentTaskToDelayedList_def clock_inv_def Let_def
        delayed_def distinct_vListInsert intro: sorted_vListInsert dest: le_less_trans)
  have "remaining ?c u = Some r \<longleftrightarrow> ((remaining c)(t \<mapsto> unat ticks)) u = Some r" for u r
    using D assms(2) unfolding remaining_iff [OF *]
    by (cases "?w < xTickCount c")
      (auto simp: assms(3,4) [simplified] remaining_iff [OF assms(1)] vTaskDelay_def
        prvAddCurrentTaskToDelayedList_def Let_def delayed_def image_iff)
  then show "remaining ?c = (remaining c)(t \<mapsto> unat ticks)"
    by (intro ext) (metis option.exhaust)
qed

lemma delay_suspends [simp]:
  "vTaskDelay t portMAX_DELAY c = c\<lparr>xSuspendedTaskList := xSuspendedTaskList c @ [t]\<rparr>"
  by (simp add: vTaskDelay_def prvAddCurrentTaskToDelayedList_def)

lemma clock_inv_suspended [simp]:
  "clock_inv (c\<lparr>xSuspendedTaskList := ts\<rparr>) = clock_inv c"
  "remaining (c\<lparr>xSuspendedTaskList := ts\<rparr>) = remaining c"
  by (simp_all add: clock_inv_def delayed_def remaining_def fun_eq_iff)

lemma leave_lists:
  assumes "clock_inv c"
  shows "clock_inv (leave_delayed t c)"
    and "remaining (leave_delayed t c) = (remaining c)(t := None)"
proof -
  show *: "clock_inv (leave_delayed t c)"
    using assms by (auto simp: leave_delayed_def clock_inv_def delayed_def sorted_filter
        distinct_map_filter image_iff)
  have "remaining (leave_delayed t c) u = Some r \<longleftrightarrow> ((remaining c)(t := None)) u = Some r" for u r
    unfolding remaining_iff [OF *] by (auto simp: remaining_iff [OF assms] leave_delayed_def)
  then show "remaining (leave_delayed t c) = (remaining c)(t := None)"
    by (intro ext) (metis option.exhaust)
qed

section \<open>Lemmas on runs\<close>

lemma ticks_of_simps [simp]:
  "ticks_of [] = 0" "ticks_of (op # ops) = (if op = Tick then 1 else 0) + ticks_of ops"
  "ticks_of (ops @ ops') = ticks_of ops + ticks_of ops'"
  by (simp_all add: ticks_of_def)

lemma clock_inv_boot [simp]: "clock_inv boot_clock"
  by (simp add: clock_inv_def boot_clock_def delayed_def)

lemma tick_returns: "clock_inv c \<Longrightarrow> \<exists>c'. xTaskIncrementTick False c = Some c'"
  using tick_lists [of c] by auto

lemma clock_step_inv:
  assumes "clock_inv c" shows "\<exists>c'. clock_step op c = Some c' \<and> clock_inv c'"
proof (cases op)
  case Tick
  with tick_returns [OF assms] tick_step(1) [OF assms] show ?thesis by auto
next
  case (Delay t n)
  show ?thesis
  proof (cases "asleep t c \<or> n = 0 \<or> n = portMAX_DELAY")
    case True
    with Delay assms show ?thesis by (auto simp: vTaskDelay_def prvAddCurrentTaskToDelayedList_def)
  next
    case False
    with Delay assms delay_lists(1) [of c t n] show ?thesis by (auto simp: asleep_def word_neq_0_conv)
  qed
next
  case (Wake t)
  with assms show ?thesis by (simp add: leave_lists(1))
qed

lemma clock_run_inv: "clock_inv c \<Longrightarrow> \<exists>c'. clock_run ops c = Some c' \<and> clock_inv c'"
proof (induction ops arbitrary: c)
  case (Cons op ops)
  obtain c1 where "clock_step op c = Some c1" "clock_inv c1" using clock_step_inv [OF Cons.prems] by blast
  with Cons.IH show ?case by simp
qed simp

text \<open>The ticks still to sleep after \<open>n\<close> more ticks.\<close>

definition less_ticks :: "nat \<Rightarrow> nat option \<Rightarrow> nat option" where
  "less_ticks n m = (case m of Some r \<Rightarrow> if r \<le> n then None else Some (r - n) | None \<Rightarrow> None)"

lemma less_ticks_add: "less_ticks n (less_ticks m r) = less_ticks (m + n) r"
  by (auto simp: less_ticks_def split: option.splits)

lemma remaining_pos:
  assumes "clock_inv c" shows "less_ticks 0 (remaining c t) = remaining c t"
proof -
  have "0 < r" if "remaining c t = Some r" for r
    using assms that unat_less_32 [of "xTickCount c"]
    by (auto simp: remaining_iff clock_inv_def word_less_nat_alt)
  then show ?thesis by (auto simp: less_ticks_def split: option.splits)
qed

lemma vTaskDelay_suspended:
  "n \<noteq> portMAX_DELAY \<Longrightarrow> xSuspendedTaskList (vTaskDelay t n c) = xSuspendedTaskList c"
  by (simp add: vTaskDelay_def prvAddCurrentTaskToDelayedList_def Let_def)

lemma step_remaining:
  assumes "clock_inv c" "clock_step op c = Some c'" "op \<noteq> Wake t" "\<forall>n. op \<noteq> Delay t n"
  shows "remaining c' t = less_ticks (ticks_of [op]) (remaining c t)"
    and "t \<in> set (xSuspendedTaskList c') \<longleftrightarrow> t \<in> set (xSuspendedTaskList c)"
proof -
  have "remaining c' t = less_ticks (ticks_of [op]) (remaining c t)
    \<and> (t \<in> set (xSuspendedTaskList c') \<longleftrightarrow> t \<in> set (xSuspendedTaskList c))"
  proof (cases op)
    case Tick
    with assms(2) tick_step(2,4) [OF assms(1), of c'] show ?thesis by (simp add: less_ticks_def split: option.split)
  next
    case (Delay u n)
    show ?thesis
    proof (cases "asleep u c \<or> n = 0 \<or> n = portMAX_DELAY")
      case True
      with Delay assms show ?thesis
        by (auto simp: vTaskDelay_def prvAddCurrentTaskToDelayedList_def remaining_pos split: if_splits)
    next
      case False
      then have "remaining (vTaskDelay u n c) = (remaining c)(u \<mapsto> unat n)"
        using delay_lists(2) [of c u n] assms(1) by (simp add: asleep_def word_neq_0_conv)
      with False Delay assms vTaskDelay_suspended [of n u c] show ?thesis
        by (auto simp: remaining_pos)
    qed
  next
    case (Wake u)
    with assms leave_lists(2) [OF assms(1), of u] show ?thesis
      by (auto simp: remaining_pos leave_delayed_def split: if_splits)
  qed
  then show "remaining c' t = less_ticks (ticks_of [op]) (remaining c t)"
    "t \<in> set (xSuspendedTaskList c') \<longleftrightarrow> t \<in> set (xSuspendedTaskList c)" by simp_all
qed

lemma run_remaining:
  assumes "clock_inv c" "clock_run ops c = Some c'" "Wake t \<notin> set ops" "\<forall>n. Delay t n \<notin> set ops"
  shows "remaining c' t = less_ticks (ticks_of ops) (remaining c t)
    \<and> (t \<in> set (xSuspendedTaskList c') \<longleftrightarrow> t \<in> set (xSuspendedTaskList c))"
  using assms
proof (induction ops arbitrary: c)
  case Nil
  then show ?case by (simp add: remaining_pos)
next
  case (Cons op ops)
  obtain c1 where c1: "clock_step op c = Some c1" "clock_inv c1"
    using clock_step_inv [OF Cons.prems(1)] by blast
  have "remaining c1 t = less_ticks (ticks_of [op]) (remaining c t)"
    "t \<in> set (xSuspendedTaskList c1) \<longleftrightarrow> t \<in> set (xSuspendedTaskList c)"
    using step_remaining [OF Cons.prems(1) c1(1), of t] Cons.prems(3,4) by (metis list.set_intros(1))+
  with Cons.IH [OF c1(2)] c1(1) Cons.prems show ?case by (simp add: less_ticks_add)
qed

lemma asleep_remaining: "asleep t c \<longleftrightarrow> remaining c t \<noteq> None \<or> t \<in> set (xSuspendedTaskList c)"
  by (simp add: asleep_def remaining_None)

text \<open>
  C11: a task that asks for a delay of \<open>n\<close> ticks (\<^verbatim>\<open>vTaskDelay\<close>) sleeps for exactly \<open>n\<close> ticks, in
  every state the kernel can reach from its start, whatever other tasks sleep or are woken meanwhile
  and also when the 32-bit tick counter wraps in between; the assertion that the delayed list is
  empty when the two lists are exchanged never fails.
\<close>
theorem delay_exact:
  assumes "clock_run before boot_clock = Some c" "\<not> asleep t c"
    and "0 < n" "n \<noteq> portMAX_DELAY"
    and "Wake t \<notin> set ops" "\<forall>m. Delay t m \<notin> set ops"
  shows "\<exists>c'. clock_run ops (vTaskDelay t n c) = Some c' \<and> (asleep t c' \<longleftrightarrow> ticks_of ops < unat n)"
proof -
  have c: "clock_inv c" using clock_run_inv [OF clock_inv_boot, of "before"] assms(1) by auto
  note d = delay_lists [OF c _ assms(3,4), of t]
  have t: "t \<notin> set (delayed c)" "t \<notin> set (xSuspendedTaskList c)" using assms(2) by (auto simp: asleep_def)
  obtain c' where c': "clock_run ops (vTaskDelay t n c) = Some c'"
    using clock_run_inv [OF d(1) [OF t(1)]] by blast
  from run_remaining [OF d(1) [OF t(1)] this assms(5,6)] d(2) [OF t(1)] t(2)
  have "asleep t c' \<longleftrightarrow> less_ticks (ticks_of ops) (Some (unat n)) \<noteq> None"
    by (simp add: asleep_remaining vTaskDelay_suspended [OF assms(4)])
  with c' show ?thesis by (auto simp: less_ticks_def)
qed

theorem delay_exact_witness:
  "\<exists>c'. clock_run [Tick, Delay 2 1, Tick] (vTaskDelay 1 3 (vTaskDelay 3 5 boot_clock)) = Some c'
     \<and> asleep 1 c'"
proof -
  have "clock_run [Delay 3 5] boot_clock = Some (vTaskDelay 3 5 boot_clock)"
    by (simp add: asleep_def delayed_def boot_clock_def)
  moreover have "\<not> asleep 1 (vTaskDelay 3 5 boot_clock)"
    by (simp add: asleep_def delayed_def boot_clock_def vTaskDelay_def
        prvAddCurrentTaskToDelayedList_def)
  ultimately show ?thesis
    using delay_exact [of "[Delay 3 5]" "vTaskDelay 3 5 boot_clock" 1 3 "[Tick, Delay 2 1, Tick]"]
    by simp
qed

section \<open>Time-outs against the tick counter\<close>

lemma tick_count:
  assumes "clock_inv c" "clock_run ops c = Some c'"
  shows "\<exists>h. unat (xTickCount c) + ticks_of ops = unat (xTickCount c') + h * 2 ^ 32
    \<and> xNumOfOverflows c' = xNumOfOverflows c + of_nat h"
  using assms
proof (induction ops arbitrary: c)
  case Nil
  then show ?case by (intro exI [of _ 0]) simp
next
  case (Cons op ops)
  obtain c1 where c1: "clock_step op c = Some c1" "clock_inv c1"
    using clock_step_inv [OF Cons.prems(1)] by blast
  from Cons.IH [OF c1(2)] Cons.prems(2) c1(1) obtain h where
    h: "unat (xTickCount c1) + ticks_of ops = unat (xTickCount c') + h * 2 ^ 32"
    "xNumOfOverflows c' = xNumOfOverflows c1 + of_nat h" by auto
  show ?case
  proof (cases "op = Tick")
    case True
    with c1 tick_lists [OF Cons.prems(1)] have 1: "xTickCount c1 = xTickCount c + 1"
      "xNumOfOverflows c1 = (if xTickCount c + 1 = 0 then xNumOfOverflows c + 1 else xNumOfOverflows c)"
      by auto
    show ?thesis
    proof (cases "xTickCount c + 1 = 0")
      case True
      then have "xTickCount c = - 1" by (metis add.commute add_eq_0_iff)
      then have "unat (xTickCount c) = 2 ^ 32 - 1"
        by (simp add: unsigned_minus_1_eq_mask mask_eq_exp_minus_1)
      with h 1 True \<open>op = Tick\<close> show ?thesis by (intro exI [of _ "Suc h"]) simp
    next
      case False
      then have "unat (xTickCount c + 1) = Suc (unat (xTickCount c))"
        using unatSuc [of "xTickCount c"] by (simp add: add.commute)
      with h 1 False \<open>op = Tick\<close> show ?thesis by (intro exI [of _ h]) simp
    qed
  next
    case False
    with c1(1) have "xTickCount c1 = xTickCount c" "xNumOfOverflows c1 = xNumOfOverflows c"
      by (cases op; auto simp: vTaskDelay_def prvAddCurrentTaskToDelayedList_def leave_delayed_def
          Let_def split: if_splits)+
    with h False show ?thesis by (intro exI [of _ h]) simp
  qed
qed

lemma check_exact:
  assumes "clock_inv c" "clock_run ops c = Some c'" "ticks_of ops < 2 ^ 32" "ticks \<noteq> portMAX_DELAY"
  shows "xTaskCheckForTimeOut False c' (vTaskInternalSetTimeOutState c) ticks =
    (if ticks_of ops < unat ticks
     then (False, vTaskInternalSetTimeOutState c', ticks - of_nat (ticks_of ops))
     else (True, vTaskInternalSetTimeOutState c, 0))"
proof -
  obtain h where h: "unat (xTickCount c) + ticks_of ops = unat (xTickCount c') + h * 2 ^ 32"
    "xNumOfOverflows c' = xNumOfOverflows c + of_nat h"
    using tick_count [OF assms(1,2)] by blast
  have no_wrap: "\<not> (xNumOfOverflows c' \<noteq> xNumOfOverflows c \<and> xTickCount c \<le> xTickCount c')"
    using h assms(3) by (cases h) (auto simp: word_le_nat_alt)
  have "xTickCount c' = xTickCount c + of_nat (ticks_of ops)"
  proof -
    have "of_nat (unat (xTickCount c) + ticks_of ops) = (of_nat (unat (xTickCount c') + h * 2 ^ 32) :: uint32)"
      using h(1) by simp
    moreover have "(2 ^ 32 :: uint32) = 0" by (subst exp_eq_zero_iff) simp
    ultimately show ?thesis
      by (simp only: of_nat_add of_nat_mult of_nat_power of_nat_numeral of_nat_unat ucast_id
          mult_zero_right add_0_right)
  qed
  moreover have "of_nat (ticks_of ops) < ticks \<longleftrightarrow> ticks_of ops < unat ticks"
    using assms(3) by (simp add: word_less_nat_alt unat_of_nat_32)
  ultimately show ?thesis
    using no_wrap assms(4)
    by (auto simp: xTaskCheckForTimeOut_def vTaskInternalSetTimeOutState_def Let_def)
qed

text \<open>
  C12: the time-out of a blocking call is exact. The call notes the time (\<^verbatim>\<open>vTaskInternalSetTimeOutState\<close>)
  and, each time it is woken, asks \<^verbatim>\<open>xTaskCheckForTimeOut\<close>, which takes the time already waited off
  the ticks left. However often it is woken, and also when the tick counter wraps between two polls,
  a poll reports the time-out exactly when the ticks asked for have passed since the beginning,
  provided fewer than 2^32 ticks lie between two polls.
\<close>
theorem timeout_exact:
  assumes "clock_run before boot_clock = Some c"
    and "0 < ticks" "ticks \<noteq> portMAX_DELAY" "\<forall>ops \<in> set opss. ticks_of ops < 2 ^ 32"
  shows "polls opss c (vTaskInternalSetTimeOutState c) ticks
    = Some (unat ticks \<le> ticks_of (concat opss))"
proof -
  have "clock_inv c" using clock_run_inv [OF clock_inv_boot, of "before"] assms(1) by auto
  then show ?thesis using assms(2-)
  proof (induction opss arbitrary: c ticks)
    case Nil
    then show ?case by (simp add: unat_eq_0 word_neq_0_conv)
  next
    case (Cons ops rest)
    obtain c1 where c1: "clock_run ops c = Some c1" "clock_inv c1"
      using clock_run_inv [OF Cons.prems(1)] by blast
    note chk = check_exact [OF Cons.prems(1) c1(1) _ Cons.prems(3)]
    show ?case
    proof (cases "ticks_of ops < unat ticks")
      case True
      let ?left = "ticks - of_nat (ticks_of ops)"
      have n: "unat (of_nat (ticks_of ops) :: uint32) = ticks_of ops"
        using Cons.prems(4) by (simp add: unat_of_nat_32)
      then have left: "unat ?left = unat ticks - ticks_of ops"
        using True by (simp add: unat_sub word_le_nat_alt)
      have "?left \<noteq> portMAX_DELAY"
      proof
        assume "?left = portMAX_DELAY"
        with left have "unat ticks - ticks_of ops = 2 ^ 32 - 1" by simp
        with unat_less_32 [of ticks] have "unat ticks = 2 ^ 32 - 1" by linarith
        then have "ticks = 0xFFFFFFFF" by (simp add: word_unat_eq_iff)
        with Cons.prems(3) show False by simp
      qed
      moreover have "0 < ?left" using True left by (simp add: word_less_nat_alt)
      ultimately show ?thesis
        using Cons.IH [OF c1(2), of ?left] Cons.prems(4) chk True c1(1) left by auto
    next
      case False
      with chk Cons.prems(4) c1(1) show ?thesis by auto
    qed
  qed
qed

theorem timeout_exact_witness:
  "polls [[Tick], [Delay 4 1, Tick], [Tick, Tick]] boot_clock (vTaskInternalSetTimeOutState boot_clock) 3
    = Some True"
  using timeout_exact [of "[]" boot_clock 3 "[[Tick], [Delay 4 1, Tick], [Tick, Tick]]"] by simp

end
