(* ===== verification/Freertos_Tasks.thy ===== *)
theory Freertos_Tasks
  imports Freertos_Time
begin

text \<open>
  The part of the FreeRTOS task layer (\<^verbatim>\<open>tasks.c\<close>) that queues, semaphores and mutexes use: event
  lists, which hold blocked tasks in order of priority, and priority inheritance.

  The state extends the clock with the task control blocks, the task each of the two cores runs,
  the core the call is made on and the context switches asked for. The lemmas show that blocked tasks are kept and woken in
  priority order, and what inheriting and giving back a priority do to the holder of a mutex.
\<close>

section \<open>State\<close>

text \<open>\<open>xCoreID\<close> is \<open>None\<close> for \<^verbatim>\<open>tskNO_AFFINITY\<close>; \<open>xEventValue\<close> is the value of \<^verbatim>\<open>xEventListItem\<close>.\<close>

record TCB =
  uxPriority :: uint32
  uxBasePriority :: uint32
  uxMutexesHeld :: uint32
  xEventValue :: uint32
  xCoreID :: "nat option"
  ucDelayAborted :: bool

datatype switch = YieldPending nat | YieldOtherCore nat | YieldWithinApi

record kernel = clock +
  tcb :: "nat \<Rightarrow> TCB"
  pxCurrentTCB :: "nat \<Rightarrow> nat"
  core_id :: nat
  uxSchedulerSuspended :: "nat \<Rightarrow> bool"
  xPendingReadyList :: "nat \<Rightarrow> nat list"
  switches :: "switch list"

definition configMAX_PRIORITIES :: uint32 where "configMAX_PRIORITIES = 25"
definition configNUM_CORES :: nat where "configNUM_CORES = 2"
definition taskEVENT_LIST_ITEM_VALUE_IN_USE :: uint32 where
  "taskEVENT_LIST_ITEM_VALUE_IN_USE = 0x80000000"

definition current :: "'z kernel_scheme \<Rightarrow> nat" where
  "current k = pxCurrentTCB k (core_id k)"

definition upd_tcb :: "nat \<Rightarrow> (TCB \<Rightarrow> TCB) \<Rightarrow> 'z kernel_scheme \<Rightarrow> 'z kernel_scheme" where
  "upd_tcb t f k = k\<lparr>tcb := (tcb k)(t := f (tcb k t))\<rparr>"

definition request :: "switch \<Rightarrow> 'z kernel_scheme \<Rightarrow> 'z kernel_scheme" where
  "request y k = k\<lparr>switches := switches k @ [y]\<rparr>"

section \<open>Event lists\<close>

definition vTaskPlaceOnEventList ::
  "nat list \<Rightarrow> uint32 \<Rightarrow> 'z kernel_scheme \<Rightarrow> nat list \<times> 'z kernel_scheme" where
  "vTaskPlaceOnEventList xs ticks k =
    (vListInsert (\<lambda>t. xEventValue (tcb k t)) (current k) xs,
     prvAddCurrentTaskToDelayedList (current k) ticks
       (upd_tcb (current k) (\<lambda>b. b\<lparr>ucDelayAborted := False\<rparr>) k))"

definition taskYIELD_OTHER_CORE ::
  "nat option \<Rightarrow> uint32 \<Rightarrow> 'z kernel_scheme \<Rightarrow> 'z kernel_scheme" where
  "taskYIELD_OTHER_CORE core prio k =
    (let lower = (\<lambda>i. uxPriority (tcb k (pxCurrentTCB k i)) < prio) in
     case core of
       Some i \<Rightarrow> if lower i then request (YieldOtherCore i) k else k
     | None \<Rightarrow> (case filter (\<lambda>i. i \<noteq> core_id k \<and> lower i) [0..<configNUM_CORES] of
         [] \<Rightarrow> k | i # _ \<Rightarrow> request (YieldOtherCore i) k))"

text \<open>The tasks of the head entry leave the list; the result tells whether the caller should yield.\<close>

fun xTaskRemoveFromEventList ::
  "nat list \<Rightarrow> 'z kernel_scheme \<Rightarrow> bool \<times> nat list \<times> 'z kernel_scheme" where
  "xTaskRemoveFromEventList [] k = (False, [], k)"
| "xTaskRemoveFromEventList (t # ts) k =
    (let b = tcb k t;
         target = (case xCoreID b of None \<Rightarrow> core_id k | Some i \<Rightarrow> i);
         can_be_ready = (case xCoreID b of
            None \<Rightarrow> (\<exists>i \<in> set [0..<configNUM_CORES]. \<not> uxSchedulerSuspended k i)
          | Some i \<Rightarrow> \<not> uxSchedulerSuspended k i);
         k = (if can_be_ready then leave_delayed t k
              else k\<lparr>xPendingReadyList := (xPendingReadyList k)
                        (target := xPendingReadyList k target @ [t])\<rparr>)
     in if (xCoreID b = Some (core_id k) \<or> xCoreID b = None)
           \<and> uxPriority (tcb k (current k)) \<le> uxPriority b
        then (True, ts, request (YieldPending (core_id k)) k)
        else if xCoreID b \<noteq> Some (core_id k)
        then (False, ts, taskYIELD_OTHER_CORE (xCoreID b) (uxPriority b) k)
        else (False, ts, k))"

definition vTaskMissedYield :: "'z kernel_scheme \<Rightarrow> 'z kernel_scheme" where
  "vTaskMissedYield k = request (YieldPending (core_id k)) k"

section \<open>Priority inheritance\<close>

text \<open>The event item takes a new value unless it is in use for an event group.\<close>

definition set_event_value :: "uint32 \<Rightarrow> TCB \<Rightarrow> TCB" where
  "set_event_value p b = (if xEventValue b AND taskEVENT_LIST_ITEM_VALUE_IN_USE = 0
     then b\<lparr>xEventValue := configMAX_PRIORITIES - p\<rparr> else b)"

definition xTaskPriorityInherit :: "nat option \<Rightarrow> 'z kernel_scheme \<Rightarrow> bool \<times> 'z kernel_scheme" where
  "xTaskPriorityInherit holder k =
    (case holder of
       None \<Rightarrow> (False, k)
     | Some t \<Rightarrow>
         let p = uxPriority (tcb k (current k)) in
         if uxPriority (tcb k t) < p
         then (True, upd_tcb t (\<lambda>b. (set_event_value p b)\<lparr>uxPriority := p\<rparr>) k)
         else (uxBasePriority (tcb k t) < p, k))"

definition xTaskPriorityDisinherit ::
  "nat option \<Rightarrow> 'z kernel_scheme \<Rightarrow> (bool \<times> 'z kernel_scheme) option" where
  "xTaskPriorityDisinherit holder k =
    (case holder of
       None \<Rightarrow> Some (False, k)
     | Some t \<Rightarrow>
         if t \<noteq> current k then None
         else if uxMutexesHeld (tcb k t) = 0 then None
         else
           let k = upd_tcb t (\<lambda>b. b\<lparr>uxMutexesHeld := uxMutexesHeld b - 1\<rparr>) k; b = tcb k t in
           if uxPriority b \<noteq> uxBasePriority b \<and> uxMutexesHeld b = 0
           then Some (True, upd_tcb t (\<lambda>b. b\<lparr>uxPriority := uxBasePriority b,
                  xEventValue := configMAX_PRIORITIES - uxBasePriority b\<rparr>) k)
           else Some (False, k))"

definition vTaskPriorityDisinheritAfterTimeout ::
  "nat option \<Rightarrow> uint32 \<Rightarrow> 'z kernel_scheme \<Rightarrow> 'z kernel_scheme option" where
  "vTaskPriorityDisinheritAfterTimeout holder highest k =
    (case holder of
       None \<Rightarrow> Some k
     | Some t \<Rightarrow>
         let b = tcb k t;
             p = (if uxBasePriority b < highest then highest else uxBasePriority b) in
         if uxMutexesHeld b = 0 then None
         else if uxPriority b \<noteq> p \<and> uxMutexesHeld b = 1
         then if t = current k then None
              else Some (upd_tcb t (\<lambda>b. set_event_value p (b\<lparr>uxPriority := p\<rparr>)) k)
         else Some k)"

definition pvTaskIncrementMutexHeldCount :: "'z kernel_scheme \<Rightarrow> nat \<times> 'z kernel_scheme" where
  "pvTaskIncrementMutexHeldCount k =
    (current k, upd_tcb (current k) (\<lambda>b. b\<lparr>uxMutexesHeld := uxMutexesHeld b + 1\<rparr>) k)"

section \<open>Lemmas\<close>

text \<open>A blocked task is put behind the tasks of its own and of higher priority.\<close>

lemma place_sorted:
  assumes "sorted (map (\<lambda>t. xEventValue (tcb k t)) xs)"
  shows "sorted (map (\<lambda>t. xEventValue (tcb k t)) (fst (vTaskPlaceOnEventList xs n k)))"
    and "set (fst (vTaskPlaceOnEventList xs n k)) = insert (current k) (set xs)"
  using assms by (simp_all add: vTaskPlaceOnEventList_def sorted_vListInsert)

text \<open>The task that is woken has the smallest value, that is, the highest priority.\<close>

lemma remove_highest:
  assumes "sorted (map (\<lambda>t. xEventValue (tcb k t)) (t # ts))" "u \<in> set ts"
  shows "xEventValue (tcb k t) \<le> xEventValue (tcb k u)"
    and "fst (snd (xTaskRemoveFromEventList (t # ts) k)) = ts"
  using assms by (auto simp: Let_def)

text \<open>After inheriting, the holder runs at no lower priority than the task it keeps waiting.\<close>

lemma inherit_covers:
  "uxPriority (tcb k (current k)) \<le> uxPriority (tcb (snd (xTaskPriorityInherit (Some t) k)) t)"
  by (auto simp: xTaskPriorityInherit_def Let_def upd_tcb_def)

text \<open>A task that has given back its last mutex runs at its own priority again.\<close>

lemma disinherit_restores:
  assumes "xTaskPriorityDisinherit (Some t) k = Some (b, k')" "uxMutexesHeld (tcb k' t) = 0"
  shows "uxPriority (tcb k' t) = uxBasePriority (tcb k' t)"
    and "uxMutexesHeld (tcb k t) = 1"
  using assms by (auto simp: xTaskPriorityDisinherit_def Let_def upd_tcb_def split: if_splits)

text \<open>A waiter that gives up leaves the holder of one mutex at its own or the highest waiting priority.\<close>

lemma give_up_priority:
  assumes "vTaskPriorityDisinheritAfterTimeout (Some t) p k = Some k'" "uxMutexesHeld (tcb k t) = 1"
  shows "uxPriority (tcb k' t) = max p (uxBasePriority (tcb k t))"
  using assms
  by (auto simp: vTaskPriorityDisinheritAfterTimeout_def Let_def upd_tcb_def set_event_value_def max_def
      split: if_splits)

end
