(* ===== verification/Freertos_Queue.thy ===== *)
theory Freertos_Queue
  imports Freertos_Tasks
begin

text \<open>
  The FreeRTOS queue (\<^verbatim>\<open>queue.c\<close>), which ESP-IDF builds semaphores and mutexes from as well: a ring
  buffer of fixed-size items with two lists of blocked tasks.

  A pointer into the storage area is its distance from the start of the area, \<^verbatim>\<open>pcHead\<close> is \<open>None\<close> for
  the \<^verbatim>\<open>NULL\<close> that marks a mutex, and the storage area is a list of bytes that a copy outside the area
  would lengthen. Each function is split at the boundaries of its critical sections; what other
  tasks and interrupts do between two sections of a call is the parameter \<open>gap\<close>. On this port the
  lock, the check of the time-out, the blocking and the unlock are one section (\<^verbatim>\<open>IDF-3755\<close>). No queue
  of the program belongs to a queue set. A failed \<^verbatim>\<open>configASSERT\<close> is the value \<open>None\<close>.

  The lemmas show that the ring buffer implements a list of items.
\<close>

section \<open>State\<close>

datatype queue_union =
  XQueue (pcTail: int) (pcReadFrom: int)
| XSemaphore (xMutexHolder: "nat option") (uxRecursiveCallCount: uint32)

record Queue_t =
  pcHead :: "int option"
  pcWriteTo :: int
  u_data :: queue_union
  xTasksWaitingToSend :: "nat list"
  xTasksWaitingToReceive :: "nat list"
  uxMessagesWaiting :: uint32
  uxLength :: uint32
  uxItemSize :: uint32
  cRxLock :: byte
  cTxLock :: byte
  ucStaticallyAllocated :: bool
  storage :: "byte list"

record rtos = kernel +
  que :: Queue_t

definition queueUNLOCKED :: byte where "queueUNLOCKED = - 1"
definition queueLOCKED_UNMODIFIED :: byte where "queueLOCKED_UNMODIFIED = 0"
definition pdFAIL :: int where [simp]: "pdFAIL = 0"
definition errQUEUE_FULL :: int where [simp]: "errQUEUE_FULL = 0"
definition errQUEUE_EMPTY :: int where [simp]: "errQUEUE_EMPTY = 0"

datatype copy_position = SEND_TO_BACK | SEND_TO_FRONT | OVERWRITE

definition upd_q :: "(Queue_t \<Rightarrow> Queue_t) \<Rightarrow> rtos \<Rightarrow> rtos" where
  "upd_q f s = s\<lparr>que := f (que s)\<rparr>"

definition head_of :: "Queue_t \<Rightarrow> int" where
  "head_of q = (case pcHead q of None \<Rightarrow> 0 | Some p \<Rightarrow> p)"

text \<open>\<^verbatim>\<open>memcpy\<close> into and out of the storage area.\<close>

definition poke :: "int \<Rightarrow> byte list \<Rightarrow> byte list \<Rightarrow> byte list" where
  "poke p bs st = take (nat p) st @ bs @ drop (nat p + length bs) st"

definition peek_at :: "int \<Rightarrow> uint32 \<Rightarrow> byte list \<Rightarrow> byte list" where
  "peek_at p n st = take (unat n) (drop (nat p) st)"

section \<open>Creation\<close>

definition reset_pointers :: "Queue_t \<Rightarrow> Queue_t" where
  "reset_pointers q = q\<lparr>
     u_data := XQueue (head_of q + uint (uxLength q * uxItemSize q))
                      (head_of q + uint ((uxLength q - 1) * uxItemSize q)),
     uxMessagesWaiting := 0, pcWriteTo := head_of q,
     cRxLock := queueUNLOCKED, cTxLock := queueUNLOCKED\<rparr>"

definition wake_sender :: "rtos \<Rightarrow> bool \<times> rtos" where
  "wake_sender s = (case xTaskRemoveFromEventList (xTasksWaitingToSend (que s)) s of
     (y, ts, s) \<Rightarrow> (y, upd_q (\<lambda>q. q\<lparr>xTasksWaitingToSend := ts\<rparr>) s))"

definition wake_receiver :: "rtos \<Rightarrow> bool \<times> rtos" where
  "wake_receiver s = (case xTaskRemoveFromEventList (xTasksWaitingToReceive (que s)) s of
     (y, ts, s) \<Rightarrow> (y, upd_q (\<lambda>q. q\<lparr>xTasksWaitingToReceive := ts\<rparr>) s))"

definition yield_if :: "bool \<Rightarrow> rtos \<Rightarrow> rtos" where
  "yield_if y s = (if y then request YieldWithinApi s else s)"

definition xQueueGenericReset :: "bool \<Rightarrow> rtos \<Rightarrow> int \<times> rtos" where
  "xQueueGenericReset new_queue s =
    (let s = upd_q reset_pointers s in
     if new_queue
     then (pdPASS, upd_q (\<lambda>q. q\<lparr>xTasksWaitingToSend := [], xTasksWaitingToReceive := []\<rparr>) s)
     else if xTasksWaitingToSend (que s) \<noteq> []
     then (case wake_sender s of (y, s) \<Rightarrow> (pdPASS, yield_if y s))
     else (pdPASS, s))"

definition prvInitialiseNewQueue :: "uint32 \<Rightarrow> uint32 \<Rightarrow> byte list \<Rightarrow> bool \<Rightarrow> rtos \<Rightarrow> rtos" where
  "prvInitialiseNewQueue len sz st static s =
     snd (xQueueGenericReset True (upd_q (\<lambda>q. q\<lparr>pcHead := Some 0, uxLength := len, uxItemSize := sz,
       storage := st, ucStaticallyAllocated := static\<rparr>) s))"

text \<open>
  \<open>alloc n\<close> is what \<^verbatim>\<open>pvPortMalloc\<close> returns for \<open>n\<close> bytes of storage behind a queue structure of
  \<open>sizeof_Queue\<close> bytes: \<open>None\<close>, or the bytes found there. The result is \<open>None\<close> after a failed
  assertion, and otherwise tells whether there is a queue.
\<close>

definition xQueueGenericCreate ::
  "uint32 \<Rightarrow> (uint32 \<Rightarrow> byte list option) \<Rightarrow> uint32 \<Rightarrow> uint32 \<Rightarrow> rtos \<Rightarrow> (bool \<times> rtos) option" where
  "xQueueGenericCreate sizeof_Queue alloc len sz s =
    (let bytes = (if sz = 0 then 0 else len * sz) in
     if len = 0 then None
     else if \<not> (sz = 0 \<or> len = bytes div sz) then None
     else if \<not> bytes < sizeof_Queue + bytes then None
     else case alloc bytes of
       None \<Rightarrow> Some (False, s)
     | Some st \<Rightarrow> Some (True, prvInitialiseNewQueue len sz st False s))"

definition xQueueGenericCreateStatic ::
  "uint32 \<Rightarrow> uint32 \<Rightarrow> byte list option \<Rightarrow> rtos \<Rightarrow> (bool \<times> rtos) option" where
  "xQueueGenericCreateStatic len sz pucQueueStorage s =
    (if len = 0 then None
     else if (pucQueueStorage \<noteq> None \<and> sz = 0) \<or> (pucQueueStorage = None \<and> sz \<noteq> 0) then None
     else Some (True, prvInitialiseNewQueue len sz
       (case pucQueueStorage of None \<Rightarrow> [] | Some st \<Rightarrow> st) True s))"

section \<open>Copying\<close>

definition prvCopyDataToQueue ::
  "byte list option \<Rightarrow> copy_position \<Rightarrow> rtos \<Rightarrow> (bool \<times> rtos) option" where
  "prvCopyDataToQueue item pos s =
    (let q = que s; n = uxMessagesWaiting q; sz = uxItemSize q;
         data = take (unat sz) (the item) in
     if sz = 0 then
       if pcHead q = None then
         (case xTaskPriorityDisinherit (xMutexHolder (u_data q)) s of
            None \<Rightarrow> None
          | Some (y, s) \<Rightarrow> Some (y, upd_q (\<lambda>q. q\<lparr>
              u_data := XSemaphore None (uxRecursiveCallCount (u_data q)),
              uxMessagesWaiting := n + 1\<rparr>) s))
       else Some (False, upd_q (\<lambda>q. q\<lparr>uxMessagesWaiting := n + 1\<rparr>) s)
     else if pos = SEND_TO_BACK then
       let w = pcWriteTo q + uint sz in
       Some (False, upd_q (\<lambda>q. q\<lparr>storage := poke (pcWriteTo q) data (storage q),
         pcWriteTo := (if pcTail (u_data q) \<le> w then head_of q else w),
         uxMessagesWaiting := n + 1\<rparr>) s)
     else
       let r = pcReadFrom (u_data q) - uint sz;
           r = (if r < head_of q then pcTail (u_data q) - uint sz else r);
           n = (if pos = OVERWRITE \<and> 0 < n then n - 1 else n) in
       Some (False, upd_q (\<lambda>q. q\<lparr>storage := poke (pcReadFrom (u_data q)) data (storage q),
         u_data := XQueue (pcTail (u_data q)) r, uxMessagesWaiting := n + 1\<rparr>) s))"

definition prvCopyDataFromQueue :: "Queue_t \<Rightarrow> byte list \<times> Queue_t" where
  "prvCopyDataFromQueue q =
    (if uxItemSize q \<noteq> 0 then
       let r = pcReadFrom (u_data q) + uint (uxItemSize q);
           r = (if pcTail (u_data q) \<le> r then head_of q else r) in
       (peek_at r (uxItemSize q) (storage q), q\<lparr>u_data := XQueue (pcTail (u_data q)) r\<rparr>)
     else ([], q))"

section \<open>Locks\<close>

definition prvLockQueue :: "rtos \<Rightarrow> rtos" where
  "prvLockQueue = upd_q (\<lambda>q. q\<lparr>
     cRxLock := (if cRxLock q = queueUNLOCKED then queueLOCKED_UNMODIFIED else cRxLock q),
     cTxLock := (if cTxLock q = queueUNLOCKED then queueLOCKED_UNMODIFIED else cTxLock q)\<rparr>)"

definition missed_if :: "bool \<Rightarrow> rtos \<Rightarrow> rtos" where
  "missed_if y s = (if y then vTaskMissedYield s else s)"

fun unlock_tx :: "nat \<Rightarrow> rtos \<Rightarrow> rtos" where
  "unlock_tx 0 s = s"
| "unlock_tx (Suc n) s = (if xTasksWaitingToReceive (que s) = [] then s
     else case wake_receiver s of (y, s) \<Rightarrow> unlock_tx n (missed_if y s))"

fun unlock_rx :: "nat \<Rightarrow> rtos \<Rightarrow> rtos" where
  "unlock_rx 0 s = s"
| "unlock_rx (Suc n) s = (if xTasksWaitingToSend (que s) = [] then s
     else case wake_sender s of (y, s) \<Rightarrow> unlock_rx n (missed_if y s))"

definition prvUnlockQueue :: "rtos \<Rightarrow> rtos" where
  "prvUnlockQueue s =
    (let s = unlock_tx (nat (sint (cTxLock (que s)))) s;
         s = upd_q (\<lambda>q. q\<lparr>cTxLock := queueUNLOCKED\<rparr>) s;
         s = unlock_rx (nat (sint (cRxLock (que s)))) s
     in upd_q (\<lambda>q. q\<lparr>cRxLock := queueUNLOCKED\<rparr>) s)"

definition prvIsQueueEmpty :: "rtos \<Rightarrow> bool" where
  "prvIsQueueEmpty s \<longleftrightarrow> uxMessagesWaiting (que s) = 0"

definition prvIsQueueFull :: "rtos \<Rightarrow> bool" where
  "prvIsQueueFull s \<longleftrightarrow> uxMessagesWaiting (que s) = uxLength (que s)"

section \<open>Sending\<close>

text \<open>The first critical section: the item goes in if there is room.\<close>

definition send_section :: "byte list option \<Rightarrow> copy_position \<Rightarrow> rtos \<Rightarrow> (bool \<times> rtos) option" where
  "send_section item pos s =
    (if uxMessagesWaiting (que s) < uxLength (que s) \<or> pos = OVERWRITE then
       (case prvCopyDataToQueue item pos s of
          None \<Rightarrow> None
        | Some (y, s) \<Rightarrow>
            if xTasksWaitingToReceive (que s) \<noteq> []
            then (case wake_receiver s of (y, s) \<Rightarrow> Some (True, yield_if y s))
            else Some (True, yield_if y s))
     else Some (False, s))"

text \<open>
  The second critical section of every blocking call: the time-out is checked and, if the queue is
  still unfit, the caller is put on the event list.
\<close>

datatype wait_result = Expired | Blocked | Retry

definition check_timeout :: "TimeOut_t \<Rightarrow> uint32 \<Rightarrow> rtos \<Rightarrow> bool \<times> TimeOut_t \<times> uint32 \<times> rtos" where
  "check_timeout pto ticks s =
    (let aborted = ucDelayAborted (tcb s (current s)) in
     case xTaskCheckForTimeOut aborted s pto ticks of
       (expired, pto, ticks) \<Rightarrow> (expired, pto, ticks,
         if aborted then upd_tcb (current s) (\<lambda>b. b\<lparr>ucDelayAborted := False\<rparr>) s else s))"

definition block_sender :: "uint32 \<Rightarrow> rtos \<Rightarrow> rtos" where
  "block_sender ticks s = (case vTaskPlaceOnEventList (xTasksWaitingToSend (que s)) ticks s of
     (xs, s) \<Rightarrow> upd_q (\<lambda>q. q\<lparr>xTasksWaitingToSend := xs\<rparr>) s)"

definition block_receiver :: "uint32 \<Rightarrow> rtos \<Rightarrow> rtos" where
  "block_receiver ticks s = (case vTaskPlaceOnEventList (xTasksWaitingToReceive (que s)) ticks s of
     (xs, s) \<Rightarrow> upd_q (\<lambda>q. q\<lparr>xTasksWaitingToReceive := xs\<rparr>) s)"

definition wait_section ::
  "(rtos \<Rightarrow> bool) \<Rightarrow> (uint32 \<Rightarrow> rtos \<Rightarrow> rtos) \<Rightarrow> TimeOut_t \<Rightarrow> uint32 \<Rightarrow> rtos
    \<Rightarrow> wait_result \<times> TimeOut_t \<times> uint32 \<times> rtos" where
  "wait_section unfit block pto ticks s =
    (case check_timeout pto ticks (prvLockQueue s) of
       (expired, pto, ticks, s) \<Rightarrow>
         if expired then (Expired, pto, ticks, prvUnlockQueue s)
         else if unfit s
         then (Blocked, pto, ticks, request YieldWithinApi (prvUnlockQueue (block ticks s)))
         else (Retry, pto, ticks, prvUnlockQueue s))"

definition send_wait :: "TimeOut_t \<Rightarrow> uint32 \<Rightarrow> rtos \<Rightarrow> wait_result \<times> TimeOut_t \<times> uint32 \<times> rtos" where
  "send_wait = wait_section prvIsQueueFull block_sender"

definition receive_wait :: "TimeOut_t \<Rightarrow> uint32 \<Rightarrow> rtos \<Rightarrow> wait_result \<times> TimeOut_t \<times> uint32 \<times> rtos" where
  "receive_wait = wait_section prvIsQueueEmpty block_receiver"

text \<open>The entry time is noted the first time the queue is found unfit.\<close>

definition entry_time :: "TimeOut_t option \<Rightarrow> rtos \<Rightarrow> TimeOut_t" where
  "entry_time pto s = (case pto of None \<Rightarrow> vTaskInternalSetTimeOutState s | Some pto \<Rightarrow> pto)"

partial_function (option) send_loop ::
  "(nat \<Rightarrow> rtos \<Rightarrow> rtos) \<Rightarrow> nat \<Rightarrow> byte list option \<Rightarrow> copy_position \<Rightarrow> TimeOut_t option \<Rightarrow> uint32
    \<Rightarrow> rtos \<Rightarrow> (int \<times> rtos) option" where
  "send_loop gap i item pos pto ticks s =
    (case send_section item pos s of
       None \<Rightarrow> None
     | Some (sent, s1) \<Rightarrow>
         if sent then Some (pdPASS, s1)
         else if ticks = 0 then Some (errQUEUE_FULL, s1)
         else (case send_wait (entry_time pto s1) ticks (gap i s1) of
           (r, pto', ticks', s2) \<Rightarrow>
             if r = Expired then Some (errQUEUE_FULL, s2)
             else send_loop gap (i + 2) item pos (Some pto') ticks' (gap (i + 1) s2)))"

definition send_asserts :: "byte list option \<Rightarrow> copy_position \<Rightarrow> uint32 \<Rightarrow> rtos \<Rightarrow> bool" where
  "send_asserts item pos ticks s \<longleftrightarrow>
     \<not> (item = None \<and> uxItemSize (que s) \<noteq> 0)
     \<and> \<not> (pos = OVERWRITE \<and> uxLength (que s) \<noteq> 1)
     \<and> \<not> (uxSchedulerSuspended s (core_id s) \<and> ticks \<noteq> 0)
     \<and> (pcHead (que s) \<noteq> None \<or> xMutexHolder (u_data (que s)) = None
        \<or> xMutexHolder (u_data (que s)) = Some (current s))"

definition xQueueGenericSend ::
  "(nat \<Rightarrow> rtos \<Rightarrow> rtos) \<Rightarrow> byte list option \<Rightarrow> uint32 \<Rightarrow> copy_position \<Rightarrow> rtos \<Rightarrow> (int \<times> rtos) option" where
  "xQueueGenericSend gap item ticks pos s =
    (if send_asserts item pos ticks s then send_loop gap 0 item pos None ticks s else None)"

section \<open>Receiving\<close>

text \<open>The first critical sections of \<^verbatim>\<open>xQueueReceive\<close>, \<^verbatim>\<open>xQueuePeek\<close> and \<^verbatim>\<open>xQueueSemaphoreTake\<close>.\<close>

definition receive_section :: "rtos \<Rightarrow> byte list option \<times> rtos" where
  "receive_section s =
    (let n = uxMessagesWaiting (que s) in
     if 0 < n then
       (case prvCopyDataFromQueue (que s) of (buf, q) \<Rightarrow>
         let s = s\<lparr>que := q\<lparr>uxMessagesWaiting := n - 1\<rparr>\<rparr> in
         if xTasksWaitingToSend (que s) \<noteq> []
         then (case wake_sender s of (y, s) \<Rightarrow> (Some buf, yield_if y s))
         else (Some buf, s))
     else (None, s))"

definition peek_section :: "rtos \<Rightarrow> byte list option \<times> rtos" where
  "peek_section s =
    (if 0 < uxMessagesWaiting (que s) then
       (case prvCopyDataFromQueue (que s) of (buf, q) \<Rightarrow>
         let s = s\<lparr>que := q\<lparr>u_data := u_data (que s)\<rparr>\<rparr> in
         if xTasksWaitingToReceive (que s) \<noteq> []
         then (case wake_receiver s of (y, s) \<Rightarrow> (Some buf, yield_if y s))
         else (Some buf, s))
     else (None, s))"

definition take_section :: "rtos \<Rightarrow> bool \<times> rtos" where
  "take_section s =
    (let n = uxMessagesWaiting (que s) in
     if 0 < n then
       (let s = upd_q (\<lambda>q. q\<lparr>uxMessagesWaiting := n - 1\<rparr>) s;
            s = (if pcHead (que s) = None then
                   (case pvTaskIncrementMutexHeldCount s of (t, s) \<Rightarrow>
                     upd_q (\<lambda>q. q\<lparr>u_data := XSemaphore (Some t) (uxRecursiveCallCount (u_data q))\<rparr>) s)
                 else s)
        in if xTasksWaitingToSend (que s) \<noteq> []
           then (case wake_sender s of (y, s) \<Rightarrow> (True, yield_if y s))
           else (True, s))
     else (False, s))"

partial_function (option) receive_loop ::
  "(rtos \<Rightarrow> byte list option \<times> rtos) \<Rightarrow> (nat \<Rightarrow> rtos \<Rightarrow> rtos) \<Rightarrow> nat \<Rightarrow> TimeOut_t option \<Rightarrow> uint32
    \<Rightarrow> rtos \<Rightarrow> (byte list option \<times> rtos) option" where
  "receive_loop section1 gap i pto ticks s =
    (case section1 s of (buf, s1) \<Rightarrow>
       if buf \<noteq> None then Some (buf, s1)
       else if ticks = 0 then Some (None, s1)
       else (case receive_wait (entry_time pto s1) ticks (gap i s1) of
         (r, pto', ticks', s2) \<Rightarrow>
           let s3 = gap (i + 1) s2 in
           if r = Expired \<and> prvIsQueueEmpty s3 then Some (None, s3)
           else receive_loop section1 gap (i + 3) (Some pto') ticks'
                  (if r = Expired then gap (i + 2) s3 else s3)))"

definition receive_asserts :: "bool \<Rightarrow> uint32 \<Rightarrow> rtos \<Rightarrow> bool" where
  "receive_asserts have_buffer ticks s \<longleftrightarrow>
     \<not> (\<not> have_buffer \<and> uxItemSize (que s) \<noteq> 0)
     \<and> \<not> (uxSchedulerSuspended s (core_id s) \<and> ticks \<noteq> 0)"

text \<open>The result is the item for \<^verbatim>\<open>pdPASS\<close> and \<open>None\<close> for \<^verbatim>\<open>errQUEUE_EMPTY\<close>.\<close>

definition xQueueReceive ::
  "(nat \<Rightarrow> rtos \<Rightarrow> rtos) \<Rightarrow> bool \<Rightarrow> uint32 \<Rightarrow> rtos \<Rightarrow> (byte list option \<times> rtos) option" where
  "xQueueReceive gap have_buffer ticks s =
    (if receive_asserts have_buffer ticks s
     then receive_loop receive_section gap 0 None ticks s else None)"

definition xQueuePeek ::
  "(nat \<Rightarrow> rtos \<Rightarrow> rtos) \<Rightarrow> bool \<Rightarrow> uint32 \<Rightarrow> rtos \<Rightarrow> (byte list option \<times> rtos) option" where
  "xQueuePeek gap have_buffer ticks s =
    (if receive_asserts have_buffer ticks s
     then receive_loop peek_section gap 0 None ticks s else None)"

section \<open>Semaphores and mutexes\<close>

definition prvGetDisinheritPriorityAfterTimeout :: "rtos \<Rightarrow> uint32" where
  "prvGetDisinheritPriorityAfterTimeout s = (case xTasksWaitingToReceive (que s) of
     [] \<Rightarrow> 0 | t # _ \<Rightarrow> configMAX_PRIORITIES - xEventValue (tcb s t))"

text \<open>The holder inherits the priority of a task that blocks on its mutex.\<close>

definition block_taker :: "uint32 \<Rightarrow> rtos \<Rightarrow> rtos" where
  "block_taker ticks s = block_receiver ticks
     (if pcHead (que s) = None then snd (xTaskPriorityInherit (xMutexHolder (u_data (que s))) s) else s)"

definition inherits :: "rtos \<Rightarrow> bool" where
  "inherits s \<longleftrightarrow> pcHead (que s) = None \<and> fst (xTaskPriorityInherit (xMutexHolder (u_data (que s))) s)"

definition take_wait :: "TimeOut_t \<Rightarrow> uint32 \<Rightarrow> rtos \<Rightarrow> wait_result \<times> TimeOut_t \<times> uint32 \<times> rtos" where
  "take_wait = wait_section prvIsQueueEmpty block_taker"

text \<open>A taker that gives up lets the holder fall back to the highest priority still waiting.\<close>

definition give_up :: "bool \<Rightarrow> rtos \<Rightarrow> rtos option" where
  "give_up inherited s =
    (if inherited then vTaskPriorityDisinheritAfterTimeout (xMutexHolder (u_data (que s)))
       (prvGetDisinheritPriorityAfterTimeout s) s
     else Some s)"

partial_function (option) take_loop ::
  "(nat \<Rightarrow> rtos \<Rightarrow> rtos) \<Rightarrow> nat \<Rightarrow> bool \<Rightarrow> TimeOut_t option \<Rightarrow> uint32 \<Rightarrow> rtos \<Rightarrow> (int \<times> rtos) option" where
  "take_loop gap i inherited pto ticks s =
    (case take_section s of (taken, s1) \<Rightarrow>
       if taken then Some (pdPASS, s1)
       else if ticks = 0 then (if inherited then None else Some (errQUEUE_EMPTY, s1))
       else (case take_wait (entry_time pto s1) ticks (gap i s1) of
         (r, pto', ticks', s2) \<Rightarrow>
           let inherited' = (if r = Blocked then inherits (gap i s1) else inherited);
               s3 = gap (i + 1) s2 in
           if r = Expired \<and> prvIsQueueEmpty s3
           then (case give_up inherited' (gap (i + 2) s3) of
                   None \<Rightarrow> None | Some s4 \<Rightarrow> Some (errQUEUE_EMPTY, s4))
           else take_loop gap (i + 3) inherited' (Some pto') ticks'
                  (if r = Expired then gap (i + 2) s3 else s3)))"

definition xQueueSemaphoreTake ::
  "(nat \<Rightarrow> rtos \<Rightarrow> rtos) \<Rightarrow> uint32 \<Rightarrow> rtos \<Rightarrow> (int \<times> rtos) option" where
  "xQueueSemaphoreTake gap ticks s =
    (if uxItemSize (que s) \<noteq> 0 \<or> (uxSchedulerSuspended s (core_id s) \<and> ticks \<noteq> 0) then None
     else take_loop gap 0 False None ticks s)"

definition xQueueCreateCountingSemaphore ::
  "uint32 \<Rightarrow> (uint32 \<Rightarrow> byte list option) \<Rightarrow> uint32 \<Rightarrow> uint32 \<Rightarrow> rtos \<Rightarrow> (bool \<times> rtos) option" where
  "xQueueCreateCountingSemaphore sizeof_Queue alloc max_count initial s =
    (if max_count = 0 \<or> \<not> initial \<le> max_count then None
     else case xQueueGenericCreate sizeof_Queue alloc max_count 0 s of
       None \<Rightarrow> None
     | Some (created, s) \<Rightarrow> Some (created,
         if created then upd_q (\<lambda>q. q\<lparr>uxMessagesWaiting := initial\<rparr>) s else s))"

text \<open>The calls of these functions do not block, so no gap matters.\<close>

definition no_gap :: "nat \<Rightarrow> rtos \<Rightarrow> rtos" where
  "no_gap i s = s"

definition prvInitialiseMutex :: "rtos \<Rightarrow> rtos option" where
  "prvInitialiseMutex s =
    map_option snd (xQueueGenericSend no_gap None 0 SEND_TO_BACK
      (upd_q (\<lambda>q. q\<lparr>u_data := XSemaphore None 0, pcHead := None\<rparr>) s))"

definition xQueueCreateMutex ::
  "uint32 \<Rightarrow> (uint32 \<Rightarrow> byte list option) \<Rightarrow> rtos \<Rightarrow> (bool \<times> rtos) option" where
  "xQueueCreateMutex sizeof_Queue alloc s =
    (case xQueueGenericCreate sizeof_Queue alloc 1 0 s of
       None \<Rightarrow> None
     | Some (created, s) \<Rightarrow>
         if created then map_option (\<lambda>s. (True, s)) (prvInitialiseMutex s) else Some (False, s))"

definition xQueueGetMutexHolder :: "rtos \<Rightarrow> nat option" where
  "xQueueGetMutexHolder s = (if pcHead (que s) = None then xMutexHolder (u_data (que s)) else None)"

definition set_call_count :: "uint32 \<Rightarrow> rtos \<Rightarrow> rtos" where
  "set_call_count n = upd_q (\<lambda>q. q\<lparr>u_data := XSemaphore (xMutexHolder (u_data q)) n\<rparr>)"

definition xQueueGiveMutexRecursive :: "rtos \<Rightarrow> (int \<times> rtos) option" where
  "xQueueGiveMutexRecursive s =
    (if xMutexHolder (u_data (que s)) = Some (current s) then
       let s = set_call_count (uxRecursiveCallCount (u_data (que s)) - 1) s in
       if uxRecursiveCallCount (u_data (que s)) = 0
       then map_option (\<lambda>r. (pdPASS, snd r)) (xQueueGenericSend no_gap None 0 SEND_TO_BACK s)
       else Some (pdPASS, s)
     else Some (pdFAIL, s))"

definition xQueueTakeMutexRecursive ::
  "(nat \<Rightarrow> rtos \<Rightarrow> rtos) \<Rightarrow> uint32 \<Rightarrow> rtos \<Rightarrow> (int \<times> rtos) option" where
  "xQueueTakeMutexRecursive gap ticks s =
    (if xMutexHolder (u_data (que s)) = Some (current s)
     then Some (pdPASS, set_call_count (uxRecursiveCallCount (u_data (que s)) + 1) s)
     else case xQueueSemaphoreTake gap ticks s of
       None \<Rightarrow> None
     | Some (r, s) \<Rightarrow> Some (r, if r \<noteq> pdFAIL
         then set_call_count (uxRecursiveCallCount (u_data (que s)) + 1) s else s))"

section \<open>Calls from interrupts\<close>

text \<open>
  These functions do not block. The results carry the return value and the value stored
  in \<^verbatim>\<open>*pxHigherPriorityTaskWoken\<close>. While the queue is locked they count in the lock instead of waking.
\<close>

definition after_isr_send :: "rtos \<Rightarrow> bool \<times> rtos" where
  "after_isr_send s =
    (let l = cTxLock (que s) in
     if l = queueUNLOCKED
     then if xTasksWaitingToReceive (que s) \<noteq> [] then wake_receiver s else (False, s)
     else (False, upd_q (\<lambda>q. q\<lparr>cTxLock := l + 1\<rparr>) s))"

definition xQueueGenericSendFromISR ::
  "byte list option \<Rightarrow> copy_position \<Rightarrow> rtos \<Rightarrow> (int \<times> bool \<times> rtos) option" where
  "xQueueGenericSendFromISR item pos s =
    (if (item = None \<and> uxItemSize (que s) \<noteq> 0) \<or> (pos = OVERWRITE \<and> uxLength (que s) \<noteq> 1) then None
     else if uxMessagesWaiting (que s) < uxLength (que s) \<or> pos = OVERWRITE
     then (case prvCopyDataToQueue item pos s of
         None \<Rightarrow> None
       | Some (_, s) \<Rightarrow> (case after_isr_send s of (w, s) \<Rightarrow> Some (pdPASS, w, s)))
     else Some (errQUEUE_FULL, False, s))"

definition xQueueGiveFromISR :: "rtos \<Rightarrow> (int \<times> bool \<times> rtos) option" where
  "xQueueGiveFromISR s =
    (let n = uxMessagesWaiting (que s) in
     if uxItemSize (que s) \<noteq> 0 \<or> (pcHead (que s) = None \<and> xMutexHolder (u_data (que s)) \<noteq> None) then None
     else if n < uxLength (que s)
     then (case after_isr_send (upd_q (\<lambda>q. q\<lparr>uxMessagesWaiting := n + 1\<rparr>) s) of
             (w, s) \<Rightarrow> Some (pdPASS, w, s))
     else Some (errQUEUE_FULL, False, s))"

definition xQueueReceiveFromISR :: "bool \<Rightarrow> rtos \<Rightarrow> (byte list option \<times> bool \<times> rtos) option" where
  "xQueueReceiveFromISR have_buffer s =
    (let n = uxMessagesWaiting (que s) in
     if \<not> have_buffer \<and> uxItemSize (que s) \<noteq> 0 then None
     else if 0 < n then
       (case prvCopyDataFromQueue (que s) of (buf, q) \<Rightarrow>
         let l = cRxLock (que s); s = s\<lparr>que := q\<lparr>uxMessagesWaiting := n - 1\<rparr>\<rparr> in
         if l = queueUNLOCKED
         then if xTasksWaitingToSend (que s) \<noteq> []
              then (case wake_sender s of (w, s) \<Rightarrow> Some (Some buf, w, s))
              else Some (Some buf, False, s)
         else Some (Some buf, False, upd_q (\<lambda>q. q\<lparr>cRxLock := l + 1\<rparr>) s))
     else Some (None, False, s))"

definition xQueuePeekFromISR :: "bool \<Rightarrow> rtos \<Rightarrow> (byte list option \<times> rtos) option" where
  "xQueuePeekFromISR have_buffer s =
    (if (\<not> have_buffer \<and> uxItemSize (que s) \<noteq> 0) \<or> uxItemSize (que s) = 0 then None
     else if 0 < uxMessagesWaiting (que s)
     then (case prvCopyDataFromQueue (que s) of (buf, q) \<Rightarrow>
             Some (Some buf, s\<lparr>que := q\<lparr>u_data := u_data (que s)\<rparr>\<rparr>))
     else Some (None, s))"

section \<open>Queries and deletion\<close>

definition uxQueueMessagesWaiting :: "rtos \<Rightarrow> uint32" where
  "uxQueueMessagesWaiting s = uxMessagesWaiting (que s)"

definition uxQueueSpacesAvailable :: "rtos \<Rightarrow> uint32" where
  "uxQueueSpacesAvailable s = uxLength (que s) - uxMessagesWaiting (que s)"

text \<open>Whether \<^verbatim>\<open>vQueueDelete\<close> frees the memory of the queue.\<close>

definition vQueueDelete :: "rtos \<Rightarrow> bool" where
  "vQueueDelete s \<longleftrightarrow> \<not> ucStaticallyAllocated (que s)"

section \<open>The list of items\<close>

definition slot :: "Queue_t \<Rightarrow> nat \<Rightarrow> byte list" where
  "slot q j = take (unat (uxItemSize q)) (drop (j * unat (uxItemSize q)) (storage q))"

definition read_slot :: "Queue_t \<Rightarrow> nat" where
  "read_slot q = nat (pcReadFrom (u_data q)) div unat (uxItemSize q)"

definition items :: "Queue_t \<Rightarrow> byte list list" where
  "items q = map (\<lambda>k. slot q ((read_slot q + 1 + k) mod unat (uxLength q))) [0..<unat (uxMessagesWaiting q)]"

text \<open>
  A well-formed queue: the counters are in range and the pointers stand on slots of the storage
  area, the write pointer as many slots after the read pointer as there are items.
\<close>

definition queue_wf :: "Queue_t \<Rightarrow> bool" where
  "queue_wf q \<longleftrightarrow>
    (let len = unat (uxLength q); sz = unat (uxItemSize q); n = unat (uxMessagesWaiting q) in
     0 < len \<and> n \<le> len
     \<and> (if pcHead q = None then sz = 0 \<and> len = 1 \<and> \<not> is_XQueue (u_data q)
        else pcHead q = Some 0 \<and> is_XQueue (u_data q) \<and> len * sz < 2 ^ 32
          \<and> length (storage q) = len * sz \<and> pcTail (u_data q) = int (len * sz)
          \<and> (\<exists>r < len. pcReadFrom (u_data q) = int (r * sz)
               \<and> pcWriteTo q = int ((r + 1 + n) mod len * sz))))"

section \<open>What a queue promises\<close>

text \<open>
  The operations of a queue that holds at most \<open>cap\<close> items, on the list of its items: \<open>place\<close> says
  where a sent item goes, and each operation gives what the caller sees.
\<close>

datatype ring_op =
  Send "byte list" copy_position | Receive | Peek
| SendFromISR "byte list" copy_position | ReceiveFromISR | PeekFromISR | Reset

datatype op_result = Done | Full | Item "byte list" | Empty

fun place :: "copy_position \<Rightarrow> 'a \<Rightarrow> 'a list \<Rightarrow> 'a list" where
  "place SEND_TO_BACK x xs = xs @ [x]"
| "place SEND_TO_FRONT x xs = x # xs"
| "place OVERWRITE x xs = [x]"

definition list_send :: "nat \<Rightarrow> byte list \<Rightarrow> copy_position \<Rightarrow> byte list list \<Rightarrow> op_result \<times> byte list list" where
  "list_send cap x pos xs =
    (if length xs < cap \<or> pos = OVERWRITE then (Done, place pos x xs) else (Full, xs))"

definition list_receive :: "byte list list \<Rightarrow> op_result \<times> byte list list" where
  "list_receive xs = (case xs of [] \<Rightarrow> (Empty, []) | y # ys \<Rightarrow> (Item y, ys))"

definition list_peek :: "byte list list \<Rightarrow> op_result \<times> byte list list" where
  "list_peek xs = (case xs of [] \<Rightarrow> (Empty, []) | y # ys \<Rightarrow> (Item y, xs))"

fun list_op :: "nat \<Rightarrow> ring_op \<Rightarrow> byte list list \<Rightarrow> op_result \<times> byte list list" where
  "list_op cap (Send x pos) xs = list_send cap x pos xs"
| "list_op cap Receive xs = list_receive xs"
| "list_op cap Peek xs = list_peek xs"
| "list_op cap (SendFromISR x pos) xs = list_send cap x pos xs"
| "list_op cap ReceiveFromISR xs = list_receive xs"
| "list_op cap PeekFromISR xs = list_peek xs"
| "list_op cap Reset xs = (Done, [])"

text \<open>The same operations on the queue, called without waiting.\<close>

definition as_item :: "byte list option \<Rightarrow> op_result" where
  "as_item b = (case b of None \<Rightarrow> Empty | Some x \<Rightarrow> Item x)"

definition as_sent :: "int \<Rightarrow> op_result" where
  "as_sent r = (if r = pdPASS then Done else Full)"

fun queue_exec :: "ring_op \<Rightarrow> rtos \<Rightarrow> (op_result \<times> rtos) option" where
  "queue_exec (Send x pos) s =
    map_option (\<lambda>(r, s). (as_sent r, s)) (xQueueGenericSend no_gap (Some x) 0 pos s)"
| "queue_exec Receive s = map_option (\<lambda>(b, s). (as_item b, s)) (xQueueReceive no_gap True 0 s)"
| "queue_exec Peek s = map_option (\<lambda>(b, s). (as_item b, s)) (xQueuePeek no_gap True 0 s)"
| "queue_exec (SendFromISR x pos) s =
    map_option (\<lambda>(r, w, s). (as_sent r, s)) (xQueueGenericSendFromISR (Some x) pos s)"
| "queue_exec ReceiveFromISR s =
    map_option (\<lambda>(b, w, s). (as_item b, s)) (xQueueReceiveFromISR True s)"
| "queue_exec PeekFromISR s = map_option (\<lambda>(b, s). (as_item b, s)) (xQueuePeekFromISR True s)"
| "queue_exec Reset s = Some (Done, snd (xQueueGenericReset False s))"

text \<open>The callers pass items of the size of the queue and overwrite only queues of length one.\<close>

fun op_ok :: "uint32 \<Rightarrow> uint32 \<Rightarrow> ring_op \<Rightarrow> bool" where
  "op_ok len sz (Send x pos) \<longleftrightarrow> length x = unat sz \<and> (pos = OVERWRITE \<longrightarrow> len = 1)"
| "op_ok len sz (SendFromISR x pos) \<longleftrightarrow> length x = unat sz \<and> (pos = OVERWRITE \<longrightarrow> len = 1)"
| "op_ok len sz _ \<longleftrightarrow> True"

section \<open>Lemmas on slots\<close>

lemma poke_int: "length it = sz \<Longrightarrow> poke (int p) it st = take p st @ it @ drop (p + sz) st"
  by (simp add: poke_def)

lemma take_drop_poke:
  assumes "length it = sz" "q + sz \<le> length st"
  shows "take sz (drop q (poke (int q) it st)) = it"
    and "p + sz \<le> q \<or> q + sz \<le> p \<Longrightarrow> take sz (drop p (poke (int q) it st)) = take sz (drop p st)"
  using assms unfolding poke_int [OF assms(1)] by (auto simp: drop_take min_def)

lemma slot_poke:
  assumes "i < len" "j < len" "length st = len * sz" "length it = sz"
  shows "take sz (drop (i * sz) (poke (int (j * sz)) it st))
    = (if i = j then it else take sz (drop (i * sz) st))"
proof -
  have jsz: "j * sz + sz \<le> length st"
    using assms(2,3) mult_le_mono1 [of "Suc j" len sz] by simp
  have "i * sz + sz \<le> j * sz \<or> j * sz + sz \<le> i * sz" if "i \<noteq> j"
    using that mult_le_mono1 [of "Suc i" j sz] mult_le_mono1 [of "Suc j" i sz] by (cases i j rule: linorder_cases) simp_all
  with take_drop_poke [OF assms(4) jsz] show ?thesis by auto
qed

lemma length_poke:
  assumes "j < len" "length st = len * sz" "length it = sz"
  shows "length (poke (int (j * sz)) it st) = len * sz"
  using assms mult_le_mono1 [of "Suc j" len sz] unfolding poke_int [OF assms(3)] by simp

lemma ring_distinct:
  assumes "k < n" "n < (len :: nat)" shows "(a + k) mod len \<noteq> (a + n) mod len"
proof
  assume "(a + k) mod len = (a + n) mod len"
  then have "len dvd n - k" using assms(1) mod_eq_dvd_iff_nat [of "a + k" "a + n" len] by simp
  with assms show False by (auto dest: dvd_imp_le)
qed

lemma ring_next:
  assumes "w < (len :: nat)"
  shows "(if int (len * sz) \<le> int (w * sz) + int sz then 0 else int (w * sz) + int sz)
    = int (Suc w mod len * sz)"
proof (cases "Suc w = len")
  case True
  then have "len * sz = w * sz + sz" by auto
  with True show ?thesis by simp
next
  case False
  with assms have "Suc w < len" by simp
  show ?thesis
  proof (cases "sz = 0")
    case False
    with \<open>Suc w < len\<close> have "Suc w * sz < len * sz" by (intro mult_less_mono1) simp_all
    then have "int (w * sz) + int sz < int (len * sz)"
      by (metis add.commute mult_Suc of_nat_add of_nat_less_iff)
    moreover from \<open>Suc w < len\<close> have "int (Suc w mod len * sz) = int (w * sz) + int sz" by simp
    ultimately show ?thesis by (metis not_le)
  qed simp
qed

text \<open>The queue as numbers: the slot last read, the number of items, the length and the item size.\<close>

lemma queue_wfE:
  assumes "queue_wf q" "uxItemSize q \<noteq> 0"
  obtains len sz n r where "unat (uxLength q) = len" "unat (uxItemSize q) = sz"
    "unat (uxMessagesWaiting q) = n" "r < len" "pcHead q = Some 0"
    "u_data q = XQueue (int (len * sz)) (int (r * sz))"
    "pcWriteTo q = int ((r + 1 + n) mod len * sz)" "length (storage q) = len * sz"
    "len * sz < 2 ^ 32" "n \<le> len" "0 < sz"
proof -
  from assms(2) have sz: "0 < unat (uxItemSize q)" by (simp add: unat_gt_0)
  note wf = assms(1) [unfolded queue_wf_def Let_def]
  from wf sz have "pcHead q \<noteq> None" by (metis less_irrefl)
  with wf have "pcHead q = Some 0" "is_XQueue (u_data q)"
    "pcTail (u_data q) = int (unat (uxLength q) * unat (uxItemSize q))"
    "length (storage q) = unat (uxLength q) * unat (uxItemSize q)"
    "unat (uxLength q) * unat (uxItemSize q) < 2 ^ 32" "unat (uxMessagesWaiting q) \<le> unat (uxLength q)"
    "\<exists>r < unat (uxLength q). pcReadFrom (u_data q) = int (r * unat (uxItemSize q))
      \<and> pcWriteTo q = int ((r + 1 + unat (uxMessagesWaiting q)) mod unat (uxLength q) * unat (uxItemSize q))"
    by (simp_all only: if_False)
  then obtain r where r: "r < unat (uxLength q)" "pcHead q = Some 0" "is_XQueue (u_data q)"
    "pcTail (u_data q) = int (unat (uxLength q) * unat (uxItemSize q))"
    "pcReadFrom (u_data q) = int (r * unat (uxItemSize q))"
    "pcWriteTo q = int ((r + 1 + unat (uxMessagesWaiting q)) mod unat (uxLength q) * unat (uxItemSize q))"
    "length (storage q) = unat (uxLength q) * unat (uxItemSize q)"
    "unat (uxLength q) * unat (uxItemSize q) < 2 ^ 32" "unat (uxMessagesWaiting q) \<le> unat (uxLength q)"
    by blast
  moreover have "u_data q = XQueue (pcTail (u_data q)) (pcReadFrom (u_data q))" using r(3) by simp
  ultimately show thesis using that [OF refl refl refl, of r] sz by metis
qed

lemma ring_previous:
  assumes "r < (len :: nat)" "0 < sz"
  shows "(if int (r * sz) - int sz < 0 then int (len * sz) - int sz else int (r * sz) - int sz)
    = int ((r + len - 1) mod len * sz)"
proof (cases r)
  case 0
  with assms show ?thesis by (simp add: algebra_simps of_nat_diff)
next
  case (Suc m)
  then have "(r + len - 1) mod len = m" using assms by simp
  moreover have "\<not> int m * int sz < 0" by (simp add: not_less)
  ultimately show ?thesis using Suc by simp
qed

lemma queue_wfI:
  assumes "r < unat (uxLength q)" "pcHead q = Some 0"
    "u_data q = XQueue (int (unat (uxLength q) * unat (uxItemSize q))) (int (r * unat (uxItemSize q)))"
    "pcWriteTo q = int ((r + 1 + unat (uxMessagesWaiting q)) mod unat (uxLength q) * unat (uxItemSize q))"
    "length (storage q) = unat (uxLength q) * unat (uxItemSize q)"
    "unat (uxLength q) * unat (uxItemSize q) < 2 ^ 32" "unat (uxMessagesWaiting q) \<le> unat (uxLength q)"
  shows "queue_wf q"
  unfolding queue_wf_def Let_def using assms by (auto simp del: of_nat_mult)

lemma items_eq:
  assumes "u_data q = XQueue t (int (r * unat (uxItemSize q)))" "0 < unat (uxItemSize q)"
  shows "items q = map (\<lambda>k. slot q ((r + 1 + k) mod unat (uxLength q))) [0..<unat (uxMessagesWaiting q)]"
proof -
  have "read_slot q = r" using assms by (simp add: read_slot_def del: of_nat_mult)
  then show ?thesis by (simp add: items_def)
qed

text \<open>Everything but the contents.\<close>

definition same_frame :: "Queue_t \<Rightarrow> Queue_t \<Rightarrow> bool" where
  "same_frame q q' \<longleftrightarrow> uxLength q' = uxLength q \<and> uxItemSize q' = uxItemSize q \<and> pcHead q' = pcHead q
     \<and> xTasksWaitingToSend q' = xTasksWaitingToSend q
     \<and> xTasksWaitingToReceive q' = xTasksWaitingToReceive q
     \<and> cRxLock q' = cRxLock q \<and> cTxLock q' = cTxLock q"

lemma unat_less_Suc_32: "(n :: uint32) < m \<Longrightarrow> unat (n + 1) = Suc (unat n)"
  using unat_less_32 [of m] by (auto simp: word_less_nat_alt unat_plus_exact)

lemma copy_back:
  assumes "queue_wf (que s)" "uxItemSize (que s) \<noteq> 0"
    and "uxMessagesWaiting (que s) < uxLength (que s)" "unat (uxItemSize (que s)) \<le> length it"
  shows "\<exists>q'. prvCopyDataToQueue (Some it) SEND_TO_BACK s = Some (False, s\<lparr>que := q'\<rparr>) \<and> queue_wf q'
    \<and> items q' = items (que s) @ [take (unat (uxItemSize (que s))) it] \<and> same_frame (que s) q'
    \<and> uxMessagesWaiting q' = uxMessagesWaiting (que s) + 1"
proof -
  define q where "q = que s"
  from assms(1,2) [folded q_def] obtain len sz n r where defs: "unat (uxLength q) = len"
    "unat (uxItemSize q) = sz" "unat (uxMessagesWaiting q) = n" and r: "r < len" "pcHead q = Some 0"
    "u_data q = XQueue (int (len * sz)) (int (r * sz))"
    "pcWriteTo q = int ((r + 1 + n) mod len * sz)" "length (storage q) = len * sz"
    "len * sz < 2 ^ 32" "n \<le> len" "0 < sz"
    by (rule queue_wfE)
  note defs = defs q_def [symmetric]
  let ?w = "(r + 1 + n) mod len"
  define d where "d = take sz it"
  define q' where "q' = q\<lparr>storage := poke (int (?w * sz)) d (storage q),
    pcWriteTo := int (Suc ?w mod len * sz), uxMessagesWaiting := uxMessagesWaiting q + 1\<rparr>"
  have d: "length d = sz" using assms(4) by (simp add: d_def defs)
  have w: "?w < len" using r(1) by simp
  have n': "n < len" using assms(3) by (simp add: defs word_less_nat_alt)
  have n1: "unat (uxMessagesWaiting q + 1) = Suc n"
    using unat_less_Suc_32 [OF assms(3)] by (simp add: defs)
  have uint: "uint (uxItemSize q) = int sz" by (simp flip: defs(2))
  have "prvCopyDataToQueue (Some it) SEND_TO_BACK s = Some (False, s\<lparr>que := q'\<rparr>)"
    using assms(2) ring_next [OF w, of sz]
    by (simp add: prvCopyDataToQueue_def Let_def upd_q_def q'_def defs r uint head_of_def d_def
        del: of_nat_mult split: if_splits)
  moreover have "queue_wf q'"
    by (rule queue_wfI [of r]) (use r d w n' n1 in \<open>simp_all add: q'_def defs length_poke mod_Suc_eq del: of_nat_mult\<close>)
  moreover have "items q' = items q @ [d]"
  proof -
    have "items q' = map (\<lambda>k. slot q' ((r + 1 + k) mod len)) [0..<Suc n]"
      by (subst items_eq [of _ "int (len * sz)" r]) (use r n1 in \<open>simp_all add: q'_def defs\<close>)
    moreover have "slot q' j = (if j = ?w then d else slot q j)" if "j < len" for j
      using slot_poke [OF that w r(5) d] by (simp add: slot_def q'_def defs)
    moreover have "(r + 1 + k) mod len \<noteq> ?w" if "k < n" for k
      using ring_distinct [OF that n', of "r + 1"] by simp
    moreover have "items q = map (\<lambda>k. slot q ((r + 1 + k) mod len)) [0..<n]"
      by (subst items_eq [of _ "int (len * sz)" r]) (use r in \<open>simp_all add: defs\<close>)
    ultimately show ?thesis using w r(1) by simp
  qed
  ultimately show ?thesis by (auto simp: defs d_def same_frame_def q'_def)
qed

lemma ring_pred_Suc: "r < len \<Longrightarrow> ((r + len - 1) mod len + 1 + k) mod len = (r + k) mod (len :: nat)"
proof -
  assume "r < len"
  then have "((r + len - 1) mod len + 1 + k) mod len = (r + len - 1 + (1 + k)) mod len"
    using mod_add_left_eq [of "r + len - 1" len "1 + k"] by (simp only: add.assoc)
  also have "r + len - 1 + (1 + k) = r + k + len" using \<open>r < len\<close> by simp
  finally show ?thesis by simp
qed

text \<open>
  The position before the first item; an overwrite of the one item of a queue of length one leaves
  the count as it is.
\<close>

lemma copy_front:
  assumes "queue_wf (que s)" "uxItemSize (que s) \<noteq> 0" "unat (uxItemSize (que s)) \<le> length it"
    and "pos = SEND_TO_FRONT \<and> uxMessagesWaiting (que s) < uxLength (que s)
      \<or> pos = OVERWRITE \<and> uxLength (que s) = 1"
  defines "d \<equiv> take (unat (uxItemSize (que s))) it"
  shows "\<exists>q'. prvCopyDataToQueue (Some it) pos s = Some (False, s\<lparr>que := q'\<rparr>) \<and> queue_wf q'
    \<and> items q' = (if pos = OVERWRITE then [d] else d # items (que s)) \<and> same_frame (que s) q'
    \<and> uxMessagesWaiting q' = (if pos = OVERWRITE then 1 else uxMessagesWaiting (que s) + 1)"
proof -
  define q where "q = que s"
  from assms(1,2) [folded q_def] obtain len sz n r where defs: "unat (uxLength q) = len"
    "unat (uxItemSize q) = sz" "unat (uxMessagesWaiting q) = n" and r: "r < len" "pcHead q = Some 0"
    "u_data q = XQueue (int (len * sz)) (int (r * sz))"
    "pcWriteTo q = int ((r + 1 + n) mod len * sz)" "length (storage q) = len * sz"
    "len * sz < 2 ^ 32" "n \<le> len" "0 < sz"
    by (rule queue_wfE)
  note defs = defs q_def [symmetric]
  let ?r = "(r + len - 1) mod len"
  define m where "m = (if pos = OVERWRITE then 0 else n)"
  define q' where "q' = q\<lparr>storage := poke (int (r * sz)) d (storage q),
    u_data := XQueue (int (len * sz)) (int (?r * sz)), uxMessagesWaiting := of_nat (Suc m)\<rparr>"
  have d: "length d = sz" using assms(3) by (simp add: d_def defs)
  have r': "?r < len" using r(1) by simp
  have len1: "len = 1" if "pos = OVERWRITE" using that assms(4) by (auto simp: defs simp flip: defs(1))
  have n1: "n = 0 \<or> n = 1" if "pos = OVERWRITE" using len1 [OF that] r(7) by auto
  have m: "m < len" "Suc m < 2 ^ 32"
    using assms(4) unat_less_32 [of "uxLength q"] len1 r(1)
    by (auto simp: m_def defs word_less_nat_alt)
  have mw: "unat (of_nat (Suc m) :: uint32) = Suc m" using m(2) by (rule unat_of_nat_32)
  have cnt: "(if pos = OVERWRITE \<and> 0 < uxMessagesWaiting q then uxMessagesWaiting q - 1 else uxMessagesWaiting q) + 1
    = of_nat (Suc m)"
  proof (cases "pos = OVERWRITE")
    case True
    with n1 consider "uxMessagesWaiting q = 0" | "uxMessagesWaiting q = 1"
      using defs(3) by (metis unat_1 unat_eq_0 word_unat_eq_iff)
    then show ?thesis by cases (simp_all add: True m_def)
  next
    case False
    have "uxMessagesWaiting q = of_nat n" by (simp flip: defs(3))
    with False show ?thesis by (simp add: m_def add.commute)
  qed
  have uint: "uint (uxItemSize q) = int sz" by (simp flip: defs(2))
  have "pos \<noteq> SEND_TO_BACK" using assms(4) by auto
  then have "prvCopyDataToQueue (Some it) pos s = Some (False, s\<lparr>que := q'\<rparr>)"
    using assms(2) ring_previous [OF r(1,8)] cnt
    by (simp add: prvCopyDataToQueue_def Let_def upd_q_def q'_def defs r uint head_of_def d_def
        del: of_nat_mult split: if_splits)
  moreover have "queue_wf q'"
  proof (rule queue_wfI [of ?r])
    show "pcWriteTo q' = int ((?r + 1 + unat (uxMessagesWaiting q')) mod unat (uxLength q') * unat (uxItemSize q'))"
      using ring_pred_Suc [OF r(1), of "Suc m"] len1 mw r(4)
      by (cases "pos = OVERWRITE") (simp_all add: q'_def defs m_def del: of_nat_mult of_nat_Suc)
  qed (use r d r' m mw in \<open>simp_all add: q'_def defs length_poke del: of_nat_mult of_nat_Suc\<close>)
  moreover have "items q' = d # map (\<lambda>k. slot q ((r + 1 + k) mod len)) [0..<m]"
  proof -
    have "items q' = map (\<lambda>k. slot q' ((?r + 1 + k) mod len)) [0..<Suc m]"
      by (subst items_eq [of _ "int (len * sz)" ?r])
        (use r mw in \<open>simp_all add: q'_def defs del: of_nat_Suc\<close>)
    then have "items q' = slot q' r # map (\<lambda>k. slot q' ((r + 1 + k) mod len)) [0..<m]"
      using r(1) by (simp only: ring_pred_Suc [OF r(1)] upt_conv_Cons map_Suc_upt [symmetric] zero_less_Suc)
        (simp add: comp_def)
    moreover have "slot q' j = (if j = r then d else slot q j)" if "j < len" for j
      using slot_poke [OF that r(1,5) d] by (simp add: slot_def q'_def defs)
    moreover have "(r + 1 + k) mod len \<noteq> r" if "k < m" for k
      using ring_distinct [of 0 "1 + k" len r] that m(1) r(1) by simp
    ultimately show ?thesis using r(1) by simp
  qed
  moreover have "items q = map (\<lambda>k. slot q ((r + 1 + k) mod len)) [0..<n]"
    by (subst items_eq [of _ "int (len * sz)" r]) (use r in \<open>simp_all add: defs\<close>)
  moreover have "of_nat (Suc m) = (if pos = OVERWRITE then 1 else uxMessagesWaiting q + 1)"
    by (simp add: m_def flip: defs(3))
  moreover have "same_frame q q'" by (simp add: same_frame_def q'_def)
  moreover have "uxMessagesWaiting q' = of_nat (Suc m)" by (simp add: q'_def)
  ultimately show ?thesis unfolding q_def [symmetric] m_def by (intro exI [of _ q']) (cases pos; simp)
qed

lemma ring_succ: "(Suc r mod len + 1 + k) mod len = (r + 1 + Suc k) mod (len :: nat)"
  using mod_add_left_eq [of "Suc r" len "1 + k"] by (simp add: add.assoc)

lemma copy_from:
  assumes "queue_wf q" "uxItemSize q \<noteq> 0" "0 < uxMessagesWaiting q"
  shows "\<exists>q'. prvCopyDataFromQueue q = (hd (items q), q') \<and> same_frame q q'
    \<and> queue_wf (q'\<lparr>uxMessagesWaiting := uxMessagesWaiting q - 1\<rparr>)
    \<and> items (q'\<lparr>uxMessagesWaiting := uxMessagesWaiting q - 1\<rparr>) = tl (items q)
    \<and> q'\<lparr>u_data := u_data q\<rparr> = q"
proof -
  from assms(1,2) obtain len sz n r where defs: "unat (uxLength q) = len"
    "unat (uxItemSize q) = sz" "unat (uxMessagesWaiting q) = n" and r: "r < len" "pcHead q = Some 0"
    "u_data q = XQueue (int (len * sz)) (int (r * sz))"
    "pcWriteTo q = int ((r + 1 + n) mod len * sz)" "length (storage q) = len * sz"
    "len * sz < 2 ^ 32" "n \<le> len" "0 < sz"
    by (rule queue_wfE)
  from assms(3) obtain m where m: "n = Suc m" using defs(3) by (cases n) (auto simp: word_less_nat_alt)
  then have m': "unat (uxMessagesWaiting q - 1) = m"
    using defs(3) assms(3) by (simp add: unat_minus_one word_neq_0_conv)
  let ?r = "Suc r mod len"
  define q1 where "q1 = q\<lparr>u_data := XQueue (int (len * sz)) (int (?r * sz))\<rparr>"
  define q2 where "q2 = q1\<lparr>uxMessagesWaiting := uxMessagesWaiting q - 1\<rparr>"
  have uint: "uint (uxItemSize q) = int sz" by (simp flip: defs(2))
  have it: "items q = slot q ?r # map (\<lambda>k. slot q ((?r + 1 + k) mod len)) [0..<m]"
  proof -
    have "items q = map (\<lambda>k. slot q ((r + 1 + k) mod len)) [0..<Suc m]"
      by (subst items_eq [of _ "int (len * sz)" r]) (use r m in \<open>simp_all add: defs\<close>)
    then show ?thesis
      by (simp only: ring_succ upt_conv_Cons map_Suc_upt [symmetric] zero_less_Suc)
        (simp add: comp_def)
  qed
  have "prvCopyDataFromQueue q = (slot q ?r, q1)"
    using assms(2) ring_next [OF r(1), of sz] r(8)
    by (auto simp: prvCopyDataFromQueue_def Let_def r defs uint head_of_def q1_def slot_def peek_at_def nat_mult_distrib
        del: of_nat_mult split: if_splits)
  moreover have "queue_wf q2"
    by (rule queue_wfI [of ?r])
      (use r m m' ring_succ [of r len m] in \<open>simp_all add: q1_def q2_def defs del: of_nat_mult\<close>)
  moreover have "items q2 = map (\<lambda>k. slot q ((?r + 1 + k) mod len)) [0..<m]"
    by (subst items_eq [of _ "int (len * sz)" ?r])
      (use r m' in \<open>simp_all add: q1_def q2_def defs slot_def\<close>)
  moreover have "same_frame q q1" "q1\<lparr>u_data := u_data q\<rparr> = q" by (simp_all add: same_frame_def q1_def)
  ultimately show ?thesis unfolding it q2_def by (intro exI [of _ q1]) simp
qed

lemma items_zero: "uxItemSize q = 0 \<Longrightarrow> items q = replicate (unat (uxMessagesWaiting q)) []"
  by (simp add: items_def slot_def map_replicate_const)

lemma queue_wf_zero:
  "uxItemSize q = 0 \<Longrightarrow> queue_wf q \<longleftrightarrow> 0 < uxLength q \<and> uxMessagesWaiting q \<le> uxLength q
    \<and> (if pcHead q = None then uxLength q = 1 \<and> \<not> is_XQueue (u_data q)
       else pcHead q = Some 0 \<and> storage q = [] \<and> u_data q = XQueue 0 0 \<and> pcWriteTo q = 0)"
  by (cases "u_data q") (auto simp: queue_wf_def Let_def word_less_nat_alt word_le_nat_alt word_unat_eq_iff)

section \<open>Waking\<close>

lemma que_simps [simp]:
  "que (request y s) = que s" "que (yield_if b s) = que s" "que (upd_tcb t f s) = que s"
  "que (missed_if b s) = que s" "que (upd_q g s) = g (que s)" "que (leave_delayed t s) = que s"
  by (simp_all add: request_def yield_if_def upd_tcb_def missed_if_def vTaskMissedYield_def upd_q_def
      leave_delayed_def)

lemma que_delayed [simp]: "que (prvAddCurrentTaskToDelayedList t n s) = que (s :: rtos)"
  by (simp add: prvAddCurrentTaskToDelayedList_def Let_def)

lemma que_yield_other [simp]: "que (taskYIELD_OTHER_CORE c p s) = que (s :: rtos)"
  unfolding taskYIELD_OTHER_CORE_def Let_def
  by (cases c) (simp_all split: list.split)

lemma remove_event:
  "fst (snd (xTaskRemoveFromEventList ts s)) = tl ts"
  "que (snd (snd (xTaskRemoveFromEventList ts s))) = que (s :: rtos)"
  by (cases ts; simp add: Let_def)+

lemma que_wake_receiver [simp]:
  "que (snd (wake_receiver s)) = (que s)\<lparr>xTasksWaitingToReceive := tl (xTasksWaitingToReceive (que s))\<rparr>"
  using remove_event [of "xTasksWaitingToReceive (que s)" s]
  by (cases "xTaskRemoveFromEventList (xTasksWaitingToReceive (que s)) s") (simp add: wake_receiver_def)

lemma que_wake_sender [simp]:
  "que (snd (wake_sender s)) = (que s)\<lparr>xTasksWaitingToSend := tl (xTasksWaitingToSend (que s))\<rparr>"
  using remove_event [of "xTasksWaitingToSend (que s)" s]
  by (cases "xTaskRemoveFromEventList (xTasksWaitingToSend (que s)) s") (simp add: wake_sender_def)

lemma queue_wf_lists [simp]:
  "queue_wf (q\<lparr>xTasksWaitingToReceive := xs\<rparr>) = queue_wf q"
  "queue_wf (q\<lparr>xTasksWaitingToSend := xs\<rparr>) = queue_wf q"
  "queue_wf (q\<lparr>cRxLock := b\<rparr>) = queue_wf q" "queue_wf (q\<lparr>cTxLock := b\<rparr>) = queue_wf q"
  "items (q\<lparr>xTasksWaitingToReceive := xs\<rparr>) = items q"
  "items (q\<lparr>xTasksWaitingToSend := xs\<rparr>) = items q"
  "items (q\<lparr>cRxLock := b\<rparr>) = items q" "items (q\<lparr>cTxLock := b\<rparr>) = items q"
  by (simp_all add: queue_wf_def items_def slot_def read_slot_def)

section \<open>Contracts of the critical sections\<close>

lemma length_items [simp]: "length (items q) = unat (uxMessagesWaiting q)"
  by (simp add: items_def)

text \<open>A queue that stores items, and what stays as it is while they come and go.\<close>

definition data_queue :: "uint32 \<Rightarrow> uint32 \<Rightarrow> Queue_t \<Rightarrow> bool" where
  "data_queue len sz q \<longleftrightarrow> queue_wf q \<and> sz \<noteq> 0 \<and> pcHead q \<noteq> None \<and> uxLength q = len \<and> uxItemSize q = sz"

lemma data_queue_count: "data_queue len sz q \<Longrightarrow> unat (uxMessagesWaiting q) \<le> unat len"
  by (auto simp: data_queue_def queue_wf_def Let_def)

lemma data_queue_frame:
  "data_queue len sz q \<Longrightarrow> same_frame q q' \<Longrightarrow> queue_wf q' \<Longrightarrow> data_queue len sz q'"
  by (simp add: data_queue_def same_frame_def)

lemma data_queue_lists [simp]:
  "data_queue len sz (q\<lparr>xTasksWaitingToReceive := xs\<rparr>) = data_queue len sz q"
  "data_queue len sz (q\<lparr>xTasksWaitingToSend := xs\<rparr>) = data_queue len sz q"
  "data_queue len sz (q\<lparr>cRxLock := b\<rparr>) = data_queue len sz q"
  "data_queue len sz (q\<lparr>cTxLock := b\<rparr>) = data_queue len sz q"
  by (simp_all add: data_queue_def)

lemma copy_contract:
  assumes "data_queue len sz (que s)" "length x = unat sz"
    and "uxMessagesWaiting (que s) < len \<and> pos \<noteq> OVERWRITE \<or> pos = OVERWRITE \<and> len = 1"
  shows "\<exists>q'. prvCopyDataToQueue (Some x) pos s = Some (False, s\<lparr>que := q'\<rparr>)
    \<and> data_queue len sz q' \<and> items q' = place pos x (items (que s)) \<and> same_frame (que s) q'"
proof (cases "pos = SEND_TO_BACK")
  case True
  with copy_back [of s x] assms show ?thesis
    by (auto simp: data_queue_def intro: data_queue_frame simp: same_frame_def)
next
  case False
  with copy_front [of s x pos] assms show ?thesis
    by (cases pos) (auto simp: data_queue_def same_frame_def)
qed

lemma full_iff:
  "data_queue len sz q \<Longrightarrow> uxMessagesWaiting q < len \<longleftrightarrow> length (items q) < unat len"
  by (simp add: word_less_nat_alt)

lemma after_isr_send_contents:
  "data_queue len sz (que (snd (after_isr_send s))) = data_queue len sz (que s)"
  "items (que (snd (after_isr_send s))) = items (que s)"
  by (simp_all add: after_isr_send_def Let_def)

text \<open>An operation that gives what the list operation gives, and leaves its list.\<close>

definition refines_op ::
  "uint32 \<Rightarrow> uint32 \<Rightarrow> (op_result \<times> rtos) option \<Rightarrow> op_result \<times> byte list list \<Rightarrow> bool" where
  "refines_op len sz m spec \<longleftrightarrow>
    (\<exists>s'. m = Some (fst spec, s') \<and> items (que s') = snd spec \<and> data_queue len sz (que s'))"

lemma Queue_eqI: "xs = xTasksWaitingToReceive q \<Longrightarrow> q\<lparr>xTasksWaitingToReceive := xs\<rparr> = q"
  "xs = xTasksWaitingToSend q \<Longrightarrow> q\<lparr>xTasksWaitingToSend := xs\<rparr> = q"
  by simp_all

text \<open>The queue after each of the first critical sections.\<close>

lemma send_section_que:
  assumes "uxMessagesWaiting (que s) < uxLength (que s) \<or> pos = OVERWRITE"
    and "prvCopyDataToQueue item pos s = Some (y, s1)"
  shows "\<exists>s'. send_section item pos s = Some (True, s')
    \<and> que s' = (que s1)\<lparr>xTasksWaitingToReceive := tl (xTasksWaitingToReceive (que s1))\<rparr>"
  using assms que_wake_receiver [of s1]
  by (cases "wake_receiver s1") (auto simp: send_section_def Queue_eqI)

lemma receive_section_que:
  assumes "0 < uxMessagesWaiting (que s)" "prvCopyDataFromQueue (que s) = (buf, q1)"
  shows "\<exists>s'. receive_section s = (Some buf, s')
    \<and> que s' = q1\<lparr>uxMessagesWaiting := uxMessagesWaiting (que s) - 1,
                  xTasksWaitingToSend := tl (xTasksWaitingToSend q1)\<rparr>"
proof -
  define s1 where "s1 = s\<lparr>que := q1\<lparr>uxMessagesWaiting := uxMessagesWaiting (que s) - 1\<rparr>\<rparr>"
  obtain y s2 where w: "wake_sender s1 = (y, s2)" by fastforce
  with que_wake_sender [of s1] have "que s2 = (que s1)\<lparr>xTasksWaitingToSend := tl (xTasksWaitingToSend (que s1))\<rparr>"
    by simp
  moreover have "que s1 = q1\<lparr>uxMessagesWaiting := uxMessagesWaiting (que s) - 1\<rparr>" by (simp add: s1_def)
  ultimately show ?thesis
    using assms w by (auto simp: receive_section_def Let_def Queue_eqI simp flip: s1_def)
qed

lemma peek_section_que:
  assumes "0 < uxMessagesWaiting (que s)" "prvCopyDataFromQueue (que s) = (buf, q1)"
    and "q1\<lparr>u_data := u_data (que s)\<rparr> = que s"
  shows "\<exists>s'. peek_section s = (Some buf, s')
    \<and> que s' = (que s)\<lparr>xTasksWaitingToReceive := tl (xTasksWaitingToReceive (que s))\<rparr>"
proof -
  have "xTasksWaitingToReceive (q1\<lparr>u_data := u_data (que s)\<rparr>) = xTasksWaitingToReceive q1" by simp
  then have "xTasksWaitingToReceive q1 = xTasksWaitingToReceive (que s)" by (simp add: assms(3))
  with assms que_wake_receiver [of s] show ?thesis
    by (cases "wake_receiver s") (auto simp: peek_section_def Let_def Queue_eqI)
qed

lemma send_section_refines:
  assumes "data_queue len sz (que s)" "length x = unat sz" "pos = OVERWRITE \<longrightarrow> len = 1"
  shows "refines_op len sz (map_option (\<lambda>(b, s). (if b then Done else Full, s)) (send_section (Some x) pos s))
    (list_send (unat len) x pos (items (que s)))"
proof (cases "uxMessagesWaiting (que s) < len \<or> pos = OVERWRITE")
  case True
  obtain q' where q': "prvCopyDataToQueue (Some x) pos s = Some (False, s\<lparr>que := q'\<rparr>)"
    "data_queue len sz q'" "items q' = place pos x (items (que s))"
    using copy_contract [OF assms(1,2), of pos] True assms(3) by auto
  have len: "uxLength (que s) = len" using assms(1) by (simp add: data_queue_def)
  with True obtain s' where "send_section (Some x) pos s = Some (True, s')"
    "que s' = q'\<lparr>xTasksWaitingToReceive := tl (xTasksWaitingToReceive q')\<rparr>"
    using send_section_que [OF _ q'(1)] by auto
  moreover have "list_send (unat len) x pos (items (que s)) = (Done, place pos x (items (que s)))"
    using True full_iff [OF assms(1)] by (auto simp: list_send_def)
  ultimately show ?thesis using q' by (simp add: refines_op_def)
next
  case False
  with assms show ?thesis
    by (simp add: refines_op_def send_section_def list_send_def data_queue_def word_less_nat_alt)
qed

lemma receive_cases:
  assumes "data_queue len sz q"
  shows "uxMessagesWaiting q = 0 \<and> items q = [] \<or>
    (\<exists>y ys q1. 0 < uxMessagesWaiting q \<and> items q = y # ys \<and> prvCopyDataFromQueue q = (y, q1)
      \<and> data_queue len sz (q1\<lparr>uxMessagesWaiting := uxMessagesWaiting q - 1\<rparr>)
      \<and> items (q1\<lparr>uxMessagesWaiting := uxMessagesWaiting q - 1\<rparr>) = ys
      \<and> q1\<lparr>u_data := u_data q\<rparr> = q)"
proof (cases "uxMessagesWaiting q = 0")
  case True
  then have "items q = []" by (metis length_0_conv length_items unat_0)
  with True show ?thesis by simp
next
  case False
  then have "items q \<noteq> []" by (metis length_0_conv length_items unat_eq_0)
  then obtain y ys where "items q = y # ys" by (cases "items q") auto
  moreover have "0 < uxMessagesWaiting q" using False by (simp add: word_neq_0_conv)
  ultimately show ?thesis
    using copy_from [of q] assms by (auto simp: data_queue_def same_frame_def)
qed

lemma receive_section_refines:
  assumes "data_queue len sz (que s)"
  shows "refines_op len sz (Some (case receive_section s of (b, s) \<Rightarrow> (as_item b, s)))
    (list_receive (items (que s)))"
  using receive_cases [OF assms]
proof (elim disjE exE conjE)
  assume "uxMessagesWaiting (que s) = 0" "items (que s) = []"
  with assms show ?thesis
    by (simp add: refines_op_def receive_section_def list_receive_def as_item_def)
next
  fix y ys q1
  assume *: "0 < uxMessagesWaiting (que s)" "items (que s) = y # ys" "prvCopyDataFromQueue (que s) = (y, q1)"
    "data_queue len sz (q1\<lparr>uxMessagesWaiting := uxMessagesWaiting (que s) - 1\<rparr>)"
    "items (q1\<lparr>uxMessagesWaiting := uxMessagesWaiting (que s) - 1\<rparr>) = ys"
  from receive_section_que [OF *(1,3)] * show ?thesis
    by (auto simp: refines_op_def list_receive_def as_item_def)
qed

lemma peek_section_refines:
  assumes "data_queue len sz (que s)"
  shows "refines_op len sz (Some (case peek_section s of (b, s) \<Rightarrow> (as_item b, s)))
    (list_peek (items (que s)))"
  using receive_cases [OF assms]
proof (elim disjE exE conjE)
  assume "uxMessagesWaiting (que s) = 0" "items (que s) = []"
  with assms show ?thesis
    by (simp add: refines_op_def peek_section_def list_peek_def as_item_def)
next
  fix y ys q1
  assume *: "0 < uxMessagesWaiting (que s)" "items (que s) = y # ys" "prvCopyDataFromQueue (que s) = (y, q1)"
    "q1\<lparr>u_data := u_data (que s)\<rparr> = que s"
  from peek_section_que [OF *(1,3,4)] assms *(2) show ?thesis
    by (auto simp: refines_op_def list_peek_def as_item_def)
qed

lemma reset_pointers_wf:
  assumes "pcHead q = Some 0" "uxLength q \<noteq> 0" "unat (uxLength q) * unat (uxItemSize q) < 2 ^ 32"
    and "length (storage q) = unat (uxLength q) * unat (uxItemSize q)"
  shows "queue_wf (reset_pointers q)" "items (reset_pointers q) = []"
proof -
  let ?len = "unat (uxLength q)" and ?sz = "unat (uxItemSize q)"
  have len: "0 < ?len" using assms(2) by (simp add: unat_gt_0)
  have tail: "uint (uxLength q * uxItemSize q) = int (?len * ?sz)"
    using assms(3) by (simp add: uint_nat unat_word_ariths del: of_nat_mult)
  have "(?len - 1) * ?sz < 2 ^ 32" by (rule le_less_trans [OF mult_le_mono1 assms(3)]) simp
  then have rd: "uint ((uxLength q - 1) * uxItemSize q) = int ((?len - 1) * ?sz)"
    using assms(2) by (simp add: uint_nat unat_word_ariths(2) unat_minus_one del: of_nat_mult)
  show "queue_wf (reset_pointers q)"
    by (rule queue_wfI [of "?len - 1"])
      (use assms len tail rd in \<open>simp_all add: reset_pointers_def head_of_def del: of_nat_mult\<close>)
  show "items (reset_pointers q) = []" by (simp add: items_def reset_pointers_def)
qed

lemma wf_storage:
  "data_queue len sz q \<Longrightarrow> pcHead q = Some 0 \<and> uxLength q \<noteq> 0
    \<and> unat (uxLength q) * unat (uxItemSize q) < 2 ^ 32
    \<and> length (storage q) = unat (uxLength q) * unat (uxItemSize q)"
  by (auto simp: data_queue_def elim!: queue_wfE)

lemma reset_refines:
  assumes "data_queue len sz (que s)"
  shows "refines_op len sz (Some (Done, snd (xQueueGenericReset b s))) (Done, [])"
proof -
  have r: "data_queue len sz (reset_pointers (que s))" "items (reset_pointers (que s)) = []"
    using reset_pointers_wf [of "que s"] wf_storage [OF assms] assms
    by (simp_all add: data_queue_def reset_pointers_def)
  moreover have "que (snd (xQueueGenericReset b s)) =
    (if b then (reset_pointers (que s))\<lparr>xTasksWaitingToSend := [], xTasksWaitingToReceive := []\<rparr>
     else (reset_pointers (que s))\<lparr>xTasksWaitingToSend := tl (xTasksWaitingToSend (reset_pointers (que s)))\<rparr>)"
    using que_wake_sender [of "upd_q reset_pointers s"]
    by (cases "wake_sender (upd_q reset_pointers s)")
      (auto simp: xQueueGenericReset_def Let_def Queue_eqI)
  ultimately show ?thesis by (simp add: refines_op_def)
qed

text \<open>
  A reset frees every place but wakes one sender only; the others stay blocked until somebody
  receives or their time runs out.
\<close>

lemma reset_wakes_one:
  "xTasksWaitingToSend (que (snd (xQueueGenericReset False s))) = tl (xTasksWaitingToSend (que s))"
  using que_wake_sender [of "upd_q reset_pointers s"]
  by (cases "wake_sender (upd_q reset_pointers s)")
    (auto simp: xQueueGenericReset_def Let_def reset_pointers_def)

lemma exec_refines:
  assumes "data_queue len sz (que s)" "op_ok len sz op"
  shows "refines_op len sz (queue_exec op s) (list_op (unat len) op (items (que s)))"
proof -
  have q: "uxItemSize (que s) = sz" "sz \<noteq> 0" "pcHead (que s) \<noteq> None" "uxLength (que s) = len"
    using assms(1) by (simp_all add: data_queue_def)
  show ?thesis
  proof (cases op)
    case (Send x pos)
    then have "send_asserts (Some x) pos 0 s" using q assms(2) by (auto simp: send_asserts_def)
    then have "queue_exec op s =
      map_option (\<lambda>(b, s). (if b then Done else Full, s)) (send_section (Some x) pos s)"
      unfolding Send
      by (subst queue_exec.simps, unfold xQueueGenericSend_def, subst send_loop.simps)
        (auto simp: as_sent_def split: option.splits)
    with send_section_refines [OF assms(1)] Send assms(2) show ?thesis by simp
  next
    case Receive
    have *: "queue_exec op s = Some (case receive_section s of (b, s) \<Rightarrow> (as_item b, s))"
      unfolding Receive
      by (subst queue_exec.simps, unfold xQueueReceive_def, subst receive_loop.simps)
        (auto simp: receive_asserts_def split: prod.splits)
    show ?thesis unfolding * using receive_section_refines [OF assms(1)] by (simp add: Receive)
  next
    case Peek
    have *: "queue_exec op s = Some (case peek_section s of (b, s) \<Rightarrow> (as_item b, s))"
      unfolding Peek
      by (subst queue_exec.simps, unfold xQueuePeek_def, subst receive_loop.simps)
        (auto simp: receive_asserts_def split: prod.splits)
    show ?thesis unfolding * using peek_section_refines [OF assms(1)] by (simp add: Peek)
  next
    case (SendFromISR x pos)
    show ?thesis
    proof (cases "uxMessagesWaiting (que s) < len \<or> pos = OVERWRITE")
      case True
      obtain q' where q': "prvCopyDataToQueue (Some x) pos s = Some (False, s\<lparr>que := q'\<rparr>)"
        "data_queue len sz q'" "items q' = place pos x (items (que s))"
        using copy_contract [OF assms(1), of x pos] True assms(2) SendFromISR by auto
      have "list_send (unat len) x pos (items (que s)) = (Done, place pos x (items (que s)))"
        using True full_iff [OF assms(1)] by (auto simp: list_send_def)
      with True q q' SendFromISR assms(2) after_isr_send_contents(1) [of len sz "s\<lparr>que := q'\<rparr>"]
        after_isr_send_contents(2) [of "s\<lparr>que := q'\<rparr>"]
      show ?thesis
        by (cases "after_isr_send (s\<lparr>que := q'\<rparr>)")
          (auto simp: xQueueGenericSendFromISR_def refines_op_def as_sent_def)
    next
      case False
      with q SendFromISR assms full_iff [OF assms(1)] show ?thesis
        by (simp add: xQueueGenericSendFromISR_def refines_op_def as_sent_def list_send_def)
    qed
  next
    case ReceiveFromISR
    from receive_cases [OF assms(1)] show ?thesis
    proof (elim disjE exE conjE)
      assume "uxMessagesWaiting (que s) = 0" "items (que s) = []"
      with assms ReceiveFromISR show ?thesis
        by (simp add: refines_op_def xQueueReceiveFromISR_def list_receive_def as_item_def)
    next
      fix y ys and q1 :: Queue_t
      let ?q2 = "q1\<lparr>uxMessagesWaiting := uxMessagesWaiting (que s) - 1\<rparr>"
      assume *: "0 < uxMessagesWaiting (que s)" "items (que s) = y # ys" "prvCopyDataFromQueue (que s) = (y, q1)"
        "data_queue len sz ?q2" "items ?q2 = ys"
      with ReceiveFromISR que_wake_sender [of "s\<lparr>que := ?q2\<rparr>"] show ?thesis
        by (cases "wake_sender (s\<lparr>que := ?q2\<rparr>)")
          (auto simp: refines_op_def xQueueReceiveFromISR_def Let_def list_receive_def as_item_def)
    qed
  next
    case PeekFromISR
    from receive_cases [OF assms(1)] show ?thesis
    proof (elim disjE exE conjE)
      assume "uxMessagesWaiting (que s) = 0" "items (que s) = []"
      with q assms PeekFromISR show ?thesis
        by (simp add: refines_op_def xQueuePeekFromISR_def list_peek_def as_item_def)
    next
      fix y ys q1
      assume "0 < uxMessagesWaiting (que s)" "items (que s) = y # ys" "prvCopyDataFromQueue (que s) = (y, q1)"
        "q1\<lparr>u_data := u_data (que s)\<rparr> = que s"
      with q assms PeekFromISR show ?thesis
        by (simp add: refines_op_def xQueuePeekFromISR_def list_peek_def as_item_def)
    qed
  next
    case Reset
    with reset_refines [OF assms(1)] show ?thesis by simp
  qed
qed

lemma create_data_queue:
  assumes "xQueueGenericCreate sizeof_Queue alloc len sz s0 = Some (True, s)" "sz \<noteq> 0"
    and "\<And>n st. alloc n = Some st \<Longrightarrow> length st = unat n"
  shows "data_queue len sz (que s)" "items (que s) = []" "xTasksWaitingToSend (que s) = []"
    "xTasksWaitingToReceive (que s) = []" "cRxLock (que s) = queueUNLOCKED" "cTxLock (que s) = queueUNLOCKED"
proof -
  from assms(1,2) obtain st where st: "alloc (len * sz) = Some st" "len \<noteq> 0" "len = len * sz div sz"
    "s = prvInitialiseNewQueue len sz st False s0"
    by (auto simp: xQueueGenericCreate_def Let_def split: if_splits option.splits)
  have "unat len = unat (len * sz) div unat sz" using st(3) by (metis unat_div_distrib)
  then have "unat len * unat sz \<le> unat (len * sz)" by (metis div_times_less_eq_dividend)
  then have lt: "unat len * unat sz < 2 ^ 32" using unat_less_32 [of "len * sz"] by linarith
  then have len: "length st = unat len * unat sz"
    using assms(3) [OF st(1)] by (simp add: unat_word_ariths)
  define q where "q = (que s0)\<lparr>pcHead := Some 0, uxLength := len, uxItemSize := sz,
       storage := st, ucStaticallyAllocated := False\<rparr>"
  have q: "que s = (reset_pointers q)\<lparr>xTasksWaitingToSend := [], xTasksWaitingToReceive := []\<rparr>"
    by (simp add: st(4) prvInitialiseNewQueue_def xQueueGenericReset_def q_def)
  have "queue_wf (reset_pointers q)" "items (reset_pointers q) = []"
    using reset_pointers_wf [of q] lt len st(2) by (simp_all add: q_def)
  then show "data_queue len sz (que s)" "items (que s) = []" "xTasksWaitingToSend (que s) = []"
    "xTasksWaitingToReceive (que s) = []" "cRxLock (que s) = queueUNLOCKED" "cTxLock (que s) = queueUNLOCKED"
    using assms(2) by (simp_all add: q data_queue_def reset_pointers_def q_def)
qed

text \<open>The operations on the ring buffer refine those on the list.\<close>

interpretation ring: op_refinement queue_exec "list_op (unat len)" "\<lambda>s. items (que s)"
  "\<lambda>s. data_queue len sz (que s)" "\<lambda>op xs. op_ok len sz op" for len sz
  by unfold_locales (use exec_refines in \<open>auto simp: refines_op_def\<close>)

text \<open>
  C6: the ring buffer of \<^verbatim>\<open>queue.c\<close> implements a bounded list. On a queue that
  \<^verbatim>\<open>xQueueGenericCreate\<close> has made for items of a size other than zero, any sequence of sends to the
  back, sends to the front, overwrites, receives, peeks and resets, by tasks and by interrupts, runs
  without a failed assertion and gives the results that the same operations give on the list of
  items, and the storage area holds that list after it.
\<close>
theorem ring_buffer_refines:
  assumes "xQueueGenericCreate sizeof_Queue alloc len sz s0 = Some (True, s)" "sz \<noteq> 0"
    and "\<And>n st. alloc n = Some st \<Longrightarrow> length st = unat n"
    and "\<forall>op \<in> set ops. op_ok len sz op"
  shows "\<exists>rs s'. runs queue_exec ops s = Some (rs, s') \<and> spec_runs (list_op (unat len)) ops [] = (rs, items (que s'))"
proof -
  note q = create_data_queue [OF assms(1-3)]
  have "ok_along (list_op (unat len)) (\<lambda>op xs. op_ok len sz op) ops xs" for xs
    using assms(4) by (induction ops arbitrary: xs) auto
  from ring.runs_spec [of len sz s, OF q(1) this] q(2) show ?thesis by auto
qed

text \<open>A kernel with an idle task on each core, whose allocator returns zeroed memory.\<close>

definition idle_tcb :: TCB where
  "idle_tcb = \<lparr>uxPriority = 0, uxBasePriority = 0, uxMutexesHeld = 0, xEventValue = 25,
     xCoreID = None, ucDelayAborted = False\<rparr>"

definition no_queue :: Queue_t where
  "no_queue = \<lparr>pcHead = None, pcWriteTo = 0, u_data = XQueue 0 0, xTasksWaitingToSend = [],
     xTasksWaitingToReceive = [], uxMessagesWaiting = 0, uxLength = 0, uxItemSize = 0, cRxLock = 0,
     cTxLock = 0, ucStaticallyAllocated = False, storage = []\<rparr>"

definition boot_rtos :: rtos where
  "boot_rtos = \<lparr>xTickCount = 0, xNumOfOverflows = 0, xNextTaskUnblockTime = portMAX_DELAY,
     pxDelayedTaskList = [], pxOverflowDelayedTaskList = [], xSuspendedTaskList = [],
     xPendedTicks = 0, readied = [], tcb = (\<lambda>t. idle_tcb), pxCurrentTCB = (\<lambda>c. c), core_id = 0,
     uxSchedulerSuspended = (\<lambda>c. False), xPendingReadyList = (\<lambda>c. []), switches = [],
     que = no_queue\<rparr>"

definition zeroed :: "uint32 \<Rightarrow> byte list option" where
  "zeroed n = Some (replicate (unat n) 0)"

definition made_queue :: "uint32 \<Rightarrow> uint32 \<Rightarrow> rtos" where
  "made_queue len sz = prvInitialiseNewQueue len sz (replicate (unat (len * sz)) 0) False boot_rtos"

lemma made_queue_created: "xQueueGenericCreate 84 zeroed 3 2 boot_rtos = Some (True, made_queue 3 2)"
  by (simp add: xQueueGenericCreate_def zeroed_def made_queue_def)

lemma zeroed_length: "zeroed n = Some st \<Longrightarrow> length st = unat n"
  by (auto simp: zeroed_def)

theorem ring_buffer_refines_witness:
  "\<exists>rs s'. runs queue_exec [Send [1, 2] SEND_TO_BACK, SendFromISR [3, 4] SEND_TO_FRONT, Peek, Receive, Receive]
       (made_queue 3 2) = Some (rs, s')
     \<and> rs = [Done, Done, Item [3, 4], Item [3, 4], Item [1, 2]] \<and> items (que s') = []"
proof -
  let ?ops = "[Send [1, 2] SEND_TO_BACK, SendFromISR [3, 4] SEND_TO_FRONT, Peek, Receive, Receive]"
  have "\<forall>op \<in> set ?ops. op_ok 3 2 op" by simp
  from ring_buffer_refines [OF made_queue_created _ zeroed_length this] obtain rs s' where
    *: "runs queue_exec ?ops (made_queue 3 2) = Some (rs, s')" and
    "spec_runs (list_op (unat (3 :: uint32))) ?ops [] = (rs, items (que s'))" by auto
  then have "rs = [Done, Done, Item [3, 4], Item [3, 4], Item [1, 2]]" "items (que s') = []"
    by (simp_all add: list_send_def list_receive_def list_peek_def del: runs.simps)
  with * show ?thesis by blast
qed

end
