(* ===== verification/Freertos_Blocking.thy ===== *)
theory Freertos_Blocking
  imports Freertos_Queue
begin

text \<open>
  Tasks and interrupts that share one queue. Each task is at some point of \<^verbatim>\<open>xQueueGenericSend\<close>,
  \<^verbatim>\<open>xQueueReceive\<close> or \<^verbatim>\<open>xQueuePeek\<close> (or at none), and a step is one critical section of one task, one call
  from an interrupt, a tick, or anything else that leaves the queue alone; the steps of different
  tasks interleave in any order. A task on one of the event lists of the queue does not run; it is
  already back at the top of its loop. \<^verbatim>\<open>xQueueReset\<close> is not among the steps: it frees all places
  and wakes one sender (\<open>reset_wakes_one\<close>), so the count below would not survive it.

  The lemmas give the invariant of this system. It holds the types of the state, and a count that
  rules out lost wake-ups: while a task is blocked waiting for an item, every item in the queue is
  matched by a task that is awake and about to take one, and the same for senders and free places.
\<close>

section \<open>The system\<close>

text \<open>
  \<open>TrySend\<close>, \<open>TryReceive\<close>: before the first critical section. \<open>WaitSend\<close>, \<open>WaitReceive\<close>: before the
  second. \<open>LastLook\<close>: after an expired time-out, before the queue is looked at once more. The flag of the
  receiving phases tells \<^verbatim>\<open>xQueuePeek\<close> from \<^verbatim>\<open>xQueueReceive\<close>.
\<close>

datatype phase =
  Outside
| TrySend "byte list" copy_position "TimeOut_t option" uint32
| WaitSend "byte list" copy_position TimeOut_t uint32
| TryReceive bool "TimeOut_t option" uint32
| WaitReceive bool TimeOut_t uint32
| LastLook bool TimeOut_t uint32

type_synonym tasks = "nat \<Rightarrow> phase"

definition run_as :: "nat \<Rightarrow> nat \<Rightarrow> rtos \<Rightarrow> rtos" where
  "run_as c t s = s\<lparr>core_id := c, pxCurrentTCB := (pxCurrentTCB s)(c := t)\<rparr>"

definition awake :: "nat \<Rightarrow> rtos \<Rightarrow> bool" where
  "awake t s \<longleftrightarrow> t \<notin> set (xTasksWaitingToSend (que s)) \<and> t \<notin> set (xTasksWaitingToReceive (que s))"

definition after_send :: "byte list \<Rightarrow> copy_position \<Rightarrow> TimeOut_t option \<Rightarrow> uint32 \<Rightarrow> bool \<times> rtos \<Rightarrow> phase" where
  "after_send x pos pto n r = (if fst r \<or> n = 0 then Outside
     else WaitSend x pos (entry_time pto (snd r)) n)"

definition after_receive :: "bool \<Rightarrow> TimeOut_t option \<Rightarrow> uint32 \<Rightarrow> byte list option \<times> rtos \<Rightarrow> phase" where
  "after_receive pk pto n r = (if fst r \<noteq> None \<or> n = 0 then Outside
     else WaitReceive pk (entry_time pto (snd r)) n)"

definition first_section :: "bool \<Rightarrow> rtos \<Rightarrow> byte list option \<times> rtos" where
  "first_section pk = (if pk then peek_section else receive_section)"

text \<open>The tasks that a tick has made ready leave the event lists as well.\<close>

definition drop_readied :: "rtos \<Rightarrow> rtos \<Rightarrow> rtos" where
  "drop_readied s s' = upd_q (\<lambda>q. q\<lparr>
     xTasksWaitingToSend := filter (\<lambda>t. t \<notin> set (drop (length (readied s)) (readied s'))) (xTasksWaitingToSend q),
     xTasksWaitingToReceive := filter (\<lambda>t. t \<notin> set (drop (length (readied s)) (readied s'))) (xTasksWaitingToReceive q)\<rparr>) s'"

inductive rtos_step :: "rtos \<Rightarrow> tasks \<Rightarrow> rtos \<Rightarrow> tasks \<Rightarrow> bool" where
  call_send: "ph t = Outside
    \<Longrightarrow> op_ok (uxLength (que s)) (uxItemSize (que s)) (Send x pos)
    \<Longrightarrow> rtos_step s ph s (ph(t := TrySend x pos None n))"
| call_receive: "ph t = Outside \<Longrightarrow> rtos_step s ph s (ph(t := TryReceive pk None n))"
| try_send: "ph t = TrySend x pos pto n \<Longrightarrow> awake t s
    \<Longrightarrow> send_section (Some x) pos (run_as c t s) = Some (b, s')
    \<Longrightarrow> rtos_step s ph s' (ph(t := after_send x pos pto n (b, s')))"
| wait_send: "ph t = WaitSend x pos pto n
    \<Longrightarrow> send_wait pto n (run_as c t s) = (r, pto', n', s')
    \<Longrightarrow> rtos_step s ph s' (ph(t := if r = Expired then Outside else TrySend x pos (Some pto') n'))"
| try_receive: "ph t = TryReceive pk pto n \<Longrightarrow> awake t s
    \<Longrightarrow> first_section pk (run_as c t s) = (b, s')
    \<Longrightarrow> rtos_step s ph s' (ph(t := after_receive pk pto n (b, s')))"
| wait_receive: "ph t = WaitReceive pk pto n
    \<Longrightarrow> receive_wait pto n (run_as c t s) = (r, pto', n', s')
    \<Longrightarrow> rtos_step s ph s' (ph(t := if r = Expired then LastLook pk pto' n' else TryReceive pk (Some pto') n'))"
| last_look: "ph t = LastLook pk pto n
    \<Longrightarrow> rtos_step s ph s (ph(t := if prvIsQueueEmpty s then Outside else TryReceive pk (Some pto) n))"
| isr_send: "op_ok (uxLength (que s)) (uxItemSize (que s)) (SendFromISR x pos)
    \<Longrightarrow> xQueueGenericSendFromISR (Some x) pos s = Some (r, w, s') \<Longrightarrow> rtos_step s ph s' ph"
| isr_receive: "xQueueReceiveFromISR True s = Some (b, w, s') \<Longrightarrow> rtos_step s ph s' ph"
| isr_peek: "xQueuePeekFromISR True s = Some (b, s') \<Longrightarrow> rtos_step s ph s' ph"
| tick: "xTaskIncrementTick False s = Some s' \<Longrightarrow> rtos_step s ph (drop_readied s s') ph"
| elsewhere: "que s' = que s \<Longrightarrow> rtos_step s ph s' ph"

inductive reachable :: "rtos \<Rightarrow> rtos \<Rightarrow> tasks \<Rightarrow> bool" for s0 where
  start: "reachable s0 s0 (\<lambda>t. Outside)"
| step: "reachable s0 s ph \<Longrightarrow> rtos_step s ph s' ph' \<Longrightarrow> reachable s0 s' ph'"

section \<open>The invariant\<close>

fun sending :: "phase \<Rightarrow> bool" where
  "sending (TrySend x pos pto n) = True" | "sending _ = False"

fun receiving :: "phase \<Rightarrow> bool" where
  "receiving (TryReceive pk pto n) = True" | "receiving _ = False"

text \<open>The tasks that are awake and about to send or to receive.\<close>

definition senders :: "nat list \<Rightarrow> tasks \<Rightarrow> nat set" where
  "senders ws ph = {t. sending (ph t) \<and> t \<notin> set ws}"

definition receivers :: "nat list \<Rightarrow> tasks \<Rightarrow> nat set" where
  "receivers wr ph = {t. receiving (ph t) \<and> t \<notin> set wr}"

definition busy :: "tasks \<Rightarrow> nat set" where
  "busy ph = {t. ph t \<noteq> Outside}"

definition wake_inv :: "nat \<Rightarrow> nat \<Rightarrow> nat list \<Rightarrow> nat list \<Rightarrow> tasks \<Rightarrow> bool" where
  "wake_inv len n ws wr ph \<longleftrightarrow> n \<le> len \<and> distinct ws \<and> distinct wr \<and> finite (busy ph)
     \<and> (\<forall>t \<in> set ws. sending (ph t)) \<and> (\<forall>t \<in> set wr. receiving (ph t))
     \<and> (ws \<noteq> [] \<longrightarrow> len \<le> n + card (senders ws ph))
     \<and> (wr \<noteq> [] \<longrightarrow> n \<le> card (receivers wr ph))"

section \<open>Counting\<close>

lemma finite_senders [simp]:
  "finite (busy ph) \<Longrightarrow> finite (senders ws ph)"
  "finite (busy ph) \<Longrightarrow> finite (receivers wr ph)"
  unfolding senders_def receivers_def busy_def by (auto elim!: rev_finite_subset)

lemma finite_upd [simp]: "finite (busy ph) \<Longrightarrow> finite (busy (ph(t := p)))"
  by (rule finite_subset [of _ "insert t (busy ph)"]) (auto simp: busy_def)

text \<open>Waking the first task of a list adds it to the tasks that are awake.\<close>

lemma wake_head:
  assumes "distinct wr" "\<forall>t \<in> set wr. receiving (ph t)" "wr \<noteq> []"
  shows "receivers (tl wr) ph = insert (hd wr) (receivers wr ph)" "hd wr \<notin> receivers wr ph"
  using assms by (cases wr; auto simp: receivers_def)+

lemma wake_head_send:
  assumes "distinct ws" "\<forall>t \<in> set ws. sending (ph t)" "ws \<noteq> []"
  shows "senders (tl ws) ph = insert (hd ws) (senders ws ph)" "hd ws \<notin> senders ws ph"
  using assms by (cases ws; auto simp: senders_def)+

lemma wake_invD:
  assumes "wake_inv len n ws wr ph"
  shows "n \<le> len" "distinct ws" "distinct wr" "finite (busy ph)"
    "\<And>t. t \<in> set ws \<Longrightarrow> sending (ph t)" "\<And>t. t \<in> set wr \<Longrightarrow> receiving (ph t)"
    "ws \<noteq> [] \<Longrightarrow> len \<le> n + card (senders ws ph)" "wr \<noteq> [] \<Longrightarrow> n \<le> card (receivers wr ph)"
  using assms by (auto simp: wake_inv_def)

text \<open>A task that is neither about to send nor about to receive may become anything.\<close>

lemma wake_move:
  assumes "wake_inv len n ws wr ph" "\<not> sending (ph t)" "\<not> receiving (ph t)"
  shows "wake_inv len n ws wr (ph(t := p))"
proof -
  note i = wake_invD [OF assms(1)]
  have t: "t \<notin> set ws" "t \<notin> set wr" using i(5,6) assms(2,3) by blast+
  have "card (senders ws ph) \<le> card (senders ws (ph(t := p)))"
    using i(4) assms(2) t by (intro card_mono finite_senders finite_upd) (auto simp: senders_def)
  moreover have "card (receivers wr ph) \<le> card (receivers wr (ph(t := p)))"
    using i(4) assms(3) t by (intro card_mono finite_senders finite_upd) (auto simp: receivers_def)
  ultimately show ?thesis
    using i t by (auto simp: wake_inv_def intro: order.trans)
qed

lemma not_both: "sending p \<Longrightarrow> \<not> receiving p" "receiving p \<Longrightarrow> \<not> sending p"
  by (cases p; simp)+

lemma others_same:
  "\<not> receiving (ph t) \<Longrightarrow> \<not> receiving p \<Longrightarrow> receivers wr (ph(t := p)) = receivers wr ph"
  "\<not> sending (ph t) \<Longrightarrow> \<not> sending p \<Longrightarrow> senders ws (ph(t := p)) = senders ws ph"
  by (auto simp: receivers_def senders_def)

text \<open>A task that was about to send or to receive no longer counts when it goes on.\<close>

lemma one_less:
  assumes "finite (busy ph)"
  shows "sending (ph t) \<Longrightarrow> t \<notin> set ws \<Longrightarrow> \<not> sending p
      \<Longrightarrow> card (senders ws ph) = Suc (card (senders ws (ph(t := p))))"
    and "receiving (ph t) \<Longrightarrow> t \<notin> set wr \<Longrightarrow> \<not> receiving p
      \<Longrightarrow> card (receivers wr ph) = Suc (card (receivers wr (ph(t := p))))"
proof -
  assume *: "sending (ph t)" "t \<notin> set ws" "\<not> sending p"
  then have "senders ws ph = insert t (senders ws (ph(t := p)))" "t \<notin> senders ws (ph(t := p))"
    by (auto simp: senders_def)
  then show "card (senders ws ph) = Suc (card (senders ws (ph(t := p))))"
    by (metis card_insert_disjoint finite_senders finite_upd assms)
next
  assume *: "receiving (ph t)" "t \<notin> set wr" "\<not> receiving p"
  then have "receivers wr ph = insert t (receivers wr (ph(t := p)))" "t \<notin> receivers wr (ph(t := p))"
    by (auto simp: receivers_def)
  then show "card (receivers wr ph) = Suc (card (receivers wr (ph(t := p))))"
    by (metis card_insert_disjoint finite_senders finite_upd assms)
qed

text \<open>An arriving item wakes the first receiver, a taken item the first sender.\<close>

lemma wake_arrive:
  assumes "wake_inv len n ws wr ph" "n' \<le> len" "n \<le> n'" "n' \<le> Suc n"
  shows "wake_inv len n' ws (tl wr) ph"
proof (cases "wr = []")
  case True
  with assms show ?thesis by (auto simp: wake_inv_def intro: order.trans)
next
  case False
  note i = wake_invD [OF assms(1)]
  have "card (receivers (tl wr) ph) = Suc (card (receivers wr ph))"
    using wake_head [of wr ph] i False by simp
  moreover have "distinct (tl wr)" "\<forall>t \<in> set (tl wr). receiving (ph t)"
    using i(3,6) False by (simp_all add: distinct_tl list.set_sel)
  ultimately show ?thesis
    using i assms False by (auto simp: wake_inv_def)
qed

lemma wake_depart:
  assumes "wake_inv len n ws wr ph" "n = Suc n'"
  shows "wake_inv len n' (tl ws) wr ph"
proof (cases "ws = []")
  case True
  with assms show ?thesis by (auto simp: wake_inv_def)
next
  case False
  note i = wake_invD [OF assms(1)]
  have "card (senders (tl ws) ph) = Suc (card (senders ws ph))"
    using wake_head_send [of ws ph] i False by simp
  moreover have "distinct (tl ws)" "\<forall>t \<in> set (tl ws). sending (ph t)"
    using i(2,5) False by (simp_all add: distinct_tl list.set_sel)
  ultimately show ?thesis
    using i assms False by (auto simp: wake_inv_def)
qed

text \<open>Tasks that leave the lists before their turn.\<close>

lemma wake_filter:
  assumes "wake_inv len n ws wr ph"
  shows "wake_inv len n (filter P ws) (filter P wr) ph"
proof -
  note i = wake_invD [OF assms]
  have "card (senders ws ph) \<le> card (senders (filter P ws) ph)"
    "card (receivers wr ph) \<le> card (receivers (filter P wr) ph)"
    using i(4) by (intro card_mono finite_senders; auto simp: senders_def receivers_def)+
  with i show ?thesis
    by (cases "ws = []"; cases "wr = []") (auto simp: wake_inv_def intro: order.trans)
qed

section \<open>The steps of a task on the counts\<close>

lemma wake_sent:
  assumes "wake_inv len n ws wr ph" "sending (ph t)" "t \<notin> set ws" "\<not> sending p" "\<not> receiving p"
    and "n' \<le> len" "n \<le> n'" "n' \<le> Suc n" "len \<le> n' \<or> n' = Suc n"
  shows "wake_inv len n' ws (tl wr) (ph(t := p))"
proof -
  note i = wake_invD [OF assms(1)] and a = wake_invD [OF wake_arrive [OF assms(1,6,7,8)]]
  have "ws \<noteq> [] \<Longrightarrow> len \<le> n' + card (senders ws (ph(t := p)))"
    using one_less(1) [OF i(4) assms(2,3,4)] i(7) assms(9) by auto
  moreover have "receivers (tl wr) (ph(t := p)) = receivers (tl wr) ph"
    using others_same(1) not_both(1) [OF assms(2)] assms(5) by blast
  moreover have "t \<notin> set (tl wr)" using a(6) not_both(1) [OF assms(2)] by blast
  ultimately show ?thesis using a assms(3) by (simp add: wake_inv_def)
qed

lemma wake_full:
  assumes "wake_inv len n ws wr ph" "sending (ph t)" "t \<notin> set ws" "\<not> sending p" "\<not> receiving p"
    and "len \<le> n"
  shows "wake_inv len n ws wr (ph(t := p))"
proof -
  note i = wake_invD [OF assms(1)]
  have "receivers wr (ph(t := p)) = receivers wr ph"
    using others_same(1) not_both(1) [OF assms(2)] assms(5) by blast
  moreover have "t \<notin> set wr" using i(6) not_both(1) [OF assms(2)] by blast
  ultimately show ?thesis using i assms(3,6) by (simp add: wake_inv_def)
qed

lemma wake_received:
  assumes "wake_inv len n ws wr ph" "receiving (ph t)" "t \<notin> set wr" "\<not> sending p" "\<not> receiving p"
    and "n = Suc n'"
  shows "wake_inv len n' (tl ws) wr (ph(t := p))"
proof -
  note i = wake_invD [OF assms(1)] and a = wake_invD [OF wake_depart [OF assms(1,6)]]
  have "wr \<noteq> [] \<Longrightarrow> n' \<le> card (receivers wr (ph(t := p)))"
    using one_less(2) [OF i(4) assms(2,3,5)] i(8) assms(6) by auto
  moreover have "senders (tl ws) (ph(t := p)) = senders (tl ws) ph"
    using others_same(2) not_both(2) [OF assms(2)] assms(4) by blast
  moreover have "t \<notin> set (tl ws)" using a(5) not_both(2) [OF assms(2)] by blast
  ultimately show ?thesis using a assms(3) by (simp add: wake_inv_def)
qed

lemma wake_peeked:
  assumes "wake_inv len n ws wr ph" "receiving (ph t)" "t \<notin> set wr" "\<not> sending p" "\<not> receiving p"
  shows "wake_inv len n ws (tl wr) (ph(t := p))"
proof -
  note i = wake_invD [OF assms(1)]
  note a = wake_invD [OF wake_arrive [OF assms(1) i(1) order.refl]]
  have t: "t \<notin> set ws" "t \<notin> set (tl wr)"
    using i(5) not_both(2) [OF assms(2)] assms(3) list.set_sel(2) [of wr t] by (auto, cases wr, auto)
  have "n \<le> card (receivers (tl wr) (ph(t := p)))" if "wr \<noteq> []"
  proof -
    have "card (receivers (tl wr) ph) = Suc (card (receivers wr ph))"
      using wake_head [of wr ph] i that by simp
    with one_less(2) [OF i(4) assms(2) t(2) assms(5)] i(8) [OF that] show ?thesis by simp
  qed
  moreover have "senders ws (ph(t := p)) = senders ws ph"
    using others_same(2) not_both(2) [OF assms(2)] assms(4) by blast
  ultimately show ?thesis using a t by (cases "wr = []") (simp_all add: wake_inv_def)
qed

lemma wake_empty:
  assumes "wake_inv len 0 ws wr ph" "receiving (ph t)" "t \<notin> set wr" "\<not> sending p" "\<not> receiving p"
  shows "wake_inv len 0 ws wr (ph(t := p))"
proof -
  note i = wake_invD [OF assms(1)]
  have "senders ws (ph(t := p)) = senders ws ph"
    using others_same(2) not_both(2) [OF assms(2)] assms(4) by blast
  moreover have "t \<notin> set ws" using i(5) not_both(2) [OF assms(2)] by blast
  ultimately show ?thesis using i assms(3) by (simp add: wake_inv_def)
qed

text \<open>A task goes onto a list only when it finds the queue full or empty.\<close>

lemma wake_block_sender:
  assumes "wake_inv len n ws wr ph" "\<not> sending (ph t)" "\<not> receiving (ph t)" "sending p" "len \<le> n"
  shows "wake_inv len n (vListInsert val t ws) wr (ph(t := p))"
proof -
  note i = wake_invD [OF assms(1)]
  have t: "t \<notin> set ws" "t \<notin> set wr" using i(5,6) assms(2,3) by blast+
  have "receivers wr (ph(t := p)) = receivers wr ph"
    using others_same(1) assms(3) not_both(1) [OF assms(4)] by blast
  moreover have "distinct (vListInsert val t ws)"
    using distinct_vListInsert [of "\<lambda>u. u" val t ws] i(2) t by simp
  ultimately show ?thesis using i assms(4,5) t by (auto simp: wake_inv_def)
qed

lemma wake_block_receiver:
  assumes "wake_inv len 0 ws wr ph" "\<not> sending (ph t)" "\<not> receiving (ph t)" "receiving p"
  shows "wake_inv len 0 ws (vListInsert val t wr) (ph(t := p))"
proof -
  note i = wake_invD [OF assms(1)]
  have t: "t \<notin> set ws" "t \<notin> set wr" using i(5,6) assms(2,3) by blast+
  have "senders ws (ph(t := p)) = senders ws ph"
    using others_same(2) assms(2) not_both(2) [OF assms(4)] by blast
  moreover have "distinct (vListInsert val t wr)"
    using distinct_vListInsert [of "\<lambda>u. u" val t wr] i(3) t by simp
  ultimately show ?thesis using i assms(4) t by (auto simp: wake_inv_def)
qed

section \<open>The invariant of the system\<close>

fun phase_ok :: "uint32 \<Rightarrow> uint32 \<Rightarrow> phase \<Rightarrow> bool" where
  "phase_ok len sz (TrySend x pos pto n) = op_ok len sz (Send x pos)"
| "phase_ok len sz (WaitSend x pos pto n) = op_ok len sz (Send x pos)"
| "phase_ok len sz _ = True"

definition queue_inv :: "uint32 \<Rightarrow> uint32 \<Rightarrow> Queue_t \<Rightarrow> tasks \<Rightarrow> bool" where
  "queue_inv len sz q ph \<longleftrightarrow> data_queue len sz q \<and> cRxLock q = queueUNLOCKED \<and> cTxLock q = queueUNLOCKED
     \<and> (\<forall>t. phase_ok len sz (ph t))
     \<and> wake_inv (unat len) (unat (uxMessagesWaiting q)) (xTasksWaitingToSend q) (xTasksWaitingToReceive q) ph"

lemma que_run_as [simp]: "que (run_as c t s) = que s" "current (run_as c t s) = t"
  by (simp_all add: run_as_def current_def)

text \<open>What a send does to the queue, for a task and for an interrupt.\<close>

definition sent_to :: "uint32 \<Rightarrow> uint32 \<Rightarrow> Queue_t \<Rightarrow> Queue_t \<Rightarrow> bool" where
  "sent_to len sz q q' \<longleftrightarrow> data_queue len sz q' \<and> cRxLock q' = cRxLock q \<and> cTxLock q' = cTxLock q
     \<and> xTasksWaitingToSend q' = xTasksWaitingToSend q
     \<and> xTasksWaitingToReceive q' = tl (xTasksWaitingToReceive q)
     \<and> unat (uxMessagesWaiting q) \<le> unat (uxMessagesWaiting q')
     \<and> unat (uxMessagesWaiting q') \<le> unat len
     \<and> (unat (uxMessagesWaiting q') = Suc (unat (uxMessagesWaiting q))
        \<or> unat (uxMessagesWaiting q') = unat (uxMessagesWaiting q) \<and> unat len \<le> unat (uxMessagesWaiting q'))"

lemma copy_counts:
  assumes "data_queue len sz (que s)" "op_ok len sz (Send x pos)"
    and "uxMessagesWaiting (que s) < len \<or> pos = OVERWRITE"
  shows "\<exists>q'. prvCopyDataToQueue (Some x) pos s = Some (False, s\<lparr>que := q'\<rparr>)
    \<and> sent_to len sz (que s) (q'\<lparr>xTasksWaitingToReceive := tl (xTasksWaitingToReceive q')\<rparr>)
    \<and> xTasksWaitingToReceive q' = xTasksWaitingToReceive (que s) \<and> cTxLock q' = cTxLock (que s)"
proof -
  obtain q' where q': "prvCopyDataToQueue (Some x) pos s = Some (False, s\<lparr>que := q'\<rparr>)"
    "data_queue len sz q'" "items q' = place pos x (items (que s))" "same_frame (que s) q'"
    using copy_contract [OF assms(1), of x pos] assms(2,3) by auto
  have "unat (uxMessagesWaiting q') = length (place pos x (items (que s)))"
    using length_items [of q'] by (simp add: q'(3))
  then have "unat (uxMessagesWaiting q') = (if pos = OVERWRITE then 1 else Suc (unat (uxMessagesWaiting (que s))))"
    by (cases pos) simp_all
  with q' data_queue_count [OF q'(2)] data_queue_count [OF assms(1)] assms(2) show ?thesis
    by (intro exI [of _ q']) (auto simp: sent_to_def same_frame_def split: if_splits)
qed

lemma send_effect:
  assumes "data_queue len sz (que s)" "op_ok len sz (Send x pos)"
    and "send_section (Some x) pos s = Some (b, s')"
  shows "(b \<and> sent_to len sz (que s) (que s'))
    \<or> (\<not> b \<and> que s' = que s \<and> unat len \<le> unat (uxMessagesWaiting (que s)))"
proof (cases "uxMessagesWaiting (que s) < len \<or> pos = OVERWRITE")
  case True
  obtain q' where q': "prvCopyDataToQueue (Some x) pos s = Some (False, s\<lparr>que := q'\<rparr>)"
    "sent_to len sz (que s) (q'\<lparr>xTasksWaitingToReceive := tl (xTasksWaitingToReceive q')\<rparr>)"
    using copy_counts [OF assms(1,2) True] by blast
  have "uxLength (que s) = len" using assms(1) by (simp add: data_queue_def)
  with send_section_que [OF _ q'(1)] True q'(2) assms(3) show ?thesis by auto
next
  case False
  with assms show ?thesis
    by (auto simp: send_section_def data_queue_def word_less_nat_alt)
qed

lemma isr_send_effect:
  assumes "data_queue len sz (que s)" "op_ok len sz (Send x pos)" "cTxLock (que s) = queueUNLOCKED"
    and "xQueueGenericSendFromISR (Some x) pos s = Some (r, w, s')"
  shows "sent_to len sz (que s) (que s') \<or> que s' = que s"
proof (cases "uxMessagesWaiting (que s) < len \<or> pos = OVERWRITE")
  case True
  obtain q' where q': "prvCopyDataToQueue (Some x) pos s = Some (False, s\<lparr>que := q'\<rparr>)"
    "sent_to len sz (que s) (q'\<lparr>xTasksWaitingToReceive := tl (xTasksWaitingToReceive q')\<rparr>)"
    "cTxLock q' = queueUNLOCKED"
    using copy_counts [OF assms(1,2) True] assms(3) by auto
  have "que (snd (after_isr_send (s\<lparr>que := q'\<rparr>)))
    = q'\<lparr>xTasksWaitingToReceive := tl (xTasksWaitingToReceive q')\<rparr>"
    using q'(3) by (auto simp: after_isr_send_def Queue_eqI)
  moreover have "uxLength (que s) = len" using assms(1) by (simp add: data_queue_def)
  ultimately show ?thesis
    using True q'(1,2) assms(4)
    by (cases "after_isr_send (s\<lparr>que := q'\<rparr>)") (auto simp: xQueueGenericSendFromISR_def split: if_splits)
next
  case False
  with assms show ?thesis
    by (auto simp: xQueueGenericSendFromISR_def data_queue_def split: if_splits)
qed

definition taken_from :: "uint32 \<Rightarrow> uint32 \<Rightarrow> Queue_t \<Rightarrow> Queue_t \<Rightarrow> bool" where
  "taken_from len sz q q' \<longleftrightarrow> data_queue len sz q' \<and> cRxLock q' = cRxLock q \<and> cTxLock q' = cTxLock q
     \<and> xTasksWaitingToSend q' = tl (xTasksWaitingToSend q)
     \<and> xTasksWaitingToReceive q' = xTasksWaitingToReceive q
     \<and> unat (uxMessagesWaiting q) = Suc (unat (uxMessagesWaiting q'))"

lemma copy_from_counts:
  assumes "data_queue len sz q" "0 < uxMessagesWaiting q" "prvCopyDataFromQueue q = (y, q1)"
  shows "taken_from len sz q (q1\<lparr>uxMessagesWaiting := uxMessagesWaiting q - 1,
      xTasksWaitingToSend := tl (xTasksWaitingToSend q1)\<rparr>)"
    and "q1\<lparr>u_data := u_data q\<rparr> = q"
    and "xTasksWaitingToSend q1 = xTasksWaitingToSend q" "cRxLock q1 = cRxLock q"
proof -
  obtain q' where q': "prvCopyDataFromQueue q = (hd (items q), q')" "same_frame q q'"
    "queue_wf (q'\<lparr>uxMessagesWaiting := uxMessagesWaiting q - 1\<rparr>)" "q'\<lparr>u_data := u_data q\<rparr> = q"
    using copy_from [of q] assms(1,2) by (auto simp: data_queue_def)
  then have [simp]: "q' = q1" using assms(3) by simp
  have "unat (uxMessagesWaiting q) = Suc (unat (uxMessagesWaiting q - 1))"
    using assms(2) by (simp add: unat_minus_one word_neq_0_conv [symmetric] unat_gt_0 word_less_nat_alt)
  with q' assms(1) show "taken_from len sz q (q1\<lparr>uxMessagesWaiting := uxMessagesWaiting q - 1,
      xTasksWaitingToSend := tl (xTasksWaitingToSend q1)\<rparr>)"
    by (simp add: taken_from_def data_queue_def same_frame_def)
  show "q1\<lparr>u_data := u_data q\<rparr> = q" "xTasksWaitingToSend q1 = xTasksWaitingToSend q" "cRxLock q1 = cRxLock q"
    using q' by (simp_all add: same_frame_def)
qed

lemma receive_effect:
  assumes "data_queue len sz (que s)" "receive_section s = (b, s')"
  shows "(b \<noteq> None \<and> taken_from len sz (que s) (que s'))
    \<or> (b = None \<and> que s' = que s \<and> uxMessagesWaiting (que s) = 0)"
proof (cases "uxMessagesWaiting (que s) = 0")
  case True
  with assms(2) show ?thesis by (auto simp: receive_section_def)
next
  case False
  then have n: "0 < uxMessagesWaiting (que s)" by (simp add: word_neq_0_conv)
  obtain y q1 where q1: "prvCopyDataFromQueue (que s) = (y, q1)" by fastforce
  from receive_section_que [OF n q1] copy_from_counts(1) [OF assms(1) n q1] assms(2) show ?thesis
    by auto
qed

lemma peek_effect:
  assumes "data_queue len sz (que s)" "peek_section s = (b, s')"
  shows "(b \<noteq> None \<and> que s' = (que s)\<lparr>xTasksWaitingToReceive := tl (xTasksWaitingToReceive (que s))\<rparr>)
    \<or> (b = None \<and> que s' = que s \<and> uxMessagesWaiting (que s) = 0)"
proof (cases "uxMessagesWaiting (que s) = 0")
  case True
  with assms(2) show ?thesis by (auto simp: peek_section_def)
next
  case False
  then have n: "0 < uxMessagesWaiting (que s)" by (simp add: word_neq_0_conv)
  obtain y q1 where q1: "prvCopyDataFromQueue (que s) = (y, q1)" by fastforce
  from peek_section_que [OF n q1 copy_from_counts(2) [OF assms(1) n q1]] assms(2) show ?thesis by auto
qed

lemma isr_receive_effect:
  assumes "data_queue len sz (que s)" "cRxLock (que s) = queueUNLOCKED"
    and "xQueueReceiveFromISR True s = Some (b, w, s')"
  shows "taken_from len sz (que s) (que s') \<or> que s' = que s"
proof (cases "uxMessagesWaiting (que s) = 0")
  case True
  with assms(3) show ?thesis by (simp add: xQueueReceiveFromISR_def)
next
  case False
  then have n: "0 < uxMessagesWaiting (que s)" by (simp add: word_neq_0_conv)
  obtain y q1 where q1: "prvCopyDataFromQueue (que s) = (y, q1)" by fastforce
  note c = copy_from_counts [OF assms(1) n q1]
  define s1 where "s1 = s\<lparr>que := q1\<lparr>uxMessagesWaiting := uxMessagesWaiting (que s) - 1\<rparr>\<rparr>"
  have "xTasksWaitingToSend (que s1) = xTasksWaitingToSend q1" by (simp add: s1_def)
  then have "que s' = (que s1)\<lparr>xTasksWaitingToSend := tl (xTasksWaitingToSend (que s1))\<rparr>"
    using assms(2,3) n q1 que_wake_sender [of s1]
    by (cases "wake_sender s1")
      (auto simp: xQueueReceiveFromISR_def Let_def Queue_eqI simp flip: s1_def split: if_splits)
  with c(1) show ?thesis by (simp add: s1_def)
qed

text \<open>The second critical section, entered with an unlocked queue.\<close>

lemma unlock_que:
  "cTxLock (que s) = queueLOCKED_UNMODIFIED \<Longrightarrow> cRxLock (que s) = queueLOCKED_UNMODIFIED
    \<Longrightarrow> que (prvUnlockQueue s) = (que s)\<lparr>cTxLock := queueUNLOCKED, cRxLock := queueUNLOCKED\<rparr>"
  by (simp add: prvUnlockQueue_def queueLOCKED_UNMODIFIED_def)

lemma que_check_timeout:
  "check_timeout pto n s = (e, pto', n', s') \<Longrightarrow> que s' = que s \<and> current s' = current s"
  by (auto simp: check_timeout_def Let_def upd_tcb_def current_def split: prod.splits)

lemma que_lock [simp]:
  "cRxLock (que s) = queueUNLOCKED \<Longrightarrow> cTxLock (que s) = queueUNLOCKED
    \<Longrightarrow> que (prvLockQueue s) = (que s)\<lparr>cRxLock := queueLOCKED_UNMODIFIED, cTxLock := queueLOCKED_UNMODIFIED\<rparr>"
  by (simp add: prvLockQueue_def)

lemma wait_effect:
  assumes "wait_section unfit block pto n s = (r, pto', n', s')"
    and "cRxLock (que s) = queueUNLOCKED" "cTxLock (que s) = queueUNLOCKED"
    and "\<And>k s. que (block k s) = ins k s (que s)"
    and "\<And>k s q l m. ins k s (q\<lparr>cRxLock := l, cTxLock := m\<rparr>) = (ins k s q)\<lparr>cRxLock := l, cTxLock := m\<rparr>"
    and "\<And>k s q. cRxLock (ins k s q) = cRxLock q \<and> cTxLock (ins k s q) = cTxLock q"
  shows "r \<noteq> Blocked \<and> que s' = que s \<or> r = Blocked \<and> (\<exists>s1 k. unfit s1 \<and> current s1 = current s
      \<and> uxMessagesWaiting (que s1) = uxMessagesWaiting (que s) \<and> uxLength (que s1) = uxLength (que s)
      \<and> que s' = ins k s1 (que s))"
proof -
  obtain e p k s1 where c: "check_timeout pto n (prvLockQueue s) = (e, p, k, s1)"
    using prod_cases4 by blast
  have q1: "que s1 = (que s)\<lparr>cRxLock := queueLOCKED_UNMODIFIED, cTxLock := queueLOCKED_UNMODIFIED\<rparr>"
    and cur: "current s1 = current s"
    using que_check_timeout [OF c] assms(2,3) by (auto simp: prvLockQueue_def upd_q_def current_def)
  have id: "q\<lparr>cRxLock := a, cTxLock := b, cTxLock := queueUNLOCKED, cRxLock := queueUNLOCKED\<rparr> = q"
    if "cRxLock q = queueUNLOCKED" "cTxLock q = queueUNLOCKED" for q :: Queue_t and a b
    using that by simp
  consider "e" | "\<not> e" "unfit s1" | "\<not> e" "\<not> unfit s1" by blast
  then show ?thesis
  proof cases
    case 2
    have "que (prvUnlockQueue (block k s1)) = ins k s1 (que s)"
      using assms(2,3) by (subst unlock_que) (simp_all add: assms(4,5,6) q1)
    moreover from 2 c assms(1) have "r = Blocked" "s' = request YieldWithinApi (prvUnlockQueue (block k s1))"
      by (auto simp: wait_section_def)
    ultimately show ?thesis using 2 cur q1 by (intro disjI2 conjI exI [of _ s1] exI [of _ k]) simp_all
  qed (use c q1 assms(1-3) unlock_que [of s1] in \<open>auto simp: wait_section_def\<close>)
qed

lemma que_block_sender:
  "que (block_sender k s) = (que s)\<lparr>xTasksWaitingToSend :=
     vListInsert (\<lambda>t. xEventValue (tcb s t)) (current s) (xTasksWaitingToSend (que s))\<rparr>"
  by (simp add: block_sender_def vTaskPlaceOnEventList_def)

lemma que_block_receiver:
  "que (block_receiver k s) = (que s)\<lparr>xTasksWaitingToReceive :=
     vListInsert (\<lambda>t. xEventValue (tcb s t)) (current s) (xTasksWaitingToReceive (que s))\<rparr>"
  by (simp add: block_receiver_def vTaskPlaceOnEventList_def)

lemma send_wait_effect:
  assumes "send_wait pto n s = (r, pto', n', s')"
    and "cRxLock (que s) = queueUNLOCKED" "cTxLock (que s) = queueUNLOCKED"
  shows "r \<noteq> Blocked \<and> que s' = que s \<or> r = Blocked \<and> uxMessagesWaiting (que s) = uxLength (que s)
    \<and> (\<exists>val. que s' = (que s)\<lparr>xTasksWaitingToSend := vListInsert val (current s) (xTasksWaitingToSend (que s))\<rparr>)"
proof -
  define ins where "ins k s q = q\<lparr>xTasksWaitingToSend :=
     vListInsert (\<lambda>t. xEventValue (tcb s t)) (current s) (xTasksWaitingToSend q)\<rparr>" for k :: uint32 and s :: rtos and q :: Queue_t
  have "r \<noteq> Blocked \<and> que s' = que s \<or> r = Blocked \<and> (\<exists>s1 k. prvIsQueueFull s1 \<and> current s1 = current s
      \<and> uxMessagesWaiting (que s1) = uxMessagesWaiting (que s) \<and> uxLength (que s1) = uxLength (que s)
      \<and> que s' = ins k s1 (que s))"
    by (rule wait_effect [OF assms(1) [unfolded send_wait_def] assms(2,3)])
      (simp_all add: que_block_sender ins_def)
  then show ?thesis by (auto simp: ins_def prvIsQueueFull_def)
qed

lemma receive_wait_effect:
  assumes "receive_wait pto n s = (r, pto', n', s')"
    and "cRxLock (que s) = queueUNLOCKED" "cTxLock (que s) = queueUNLOCKED"
  shows "r \<noteq> Blocked \<and> que s' = que s \<or> r = Blocked \<and> uxMessagesWaiting (que s) = 0
    \<and> (\<exists>val. que s' = (que s)\<lparr>xTasksWaitingToReceive := vListInsert val (current s) (xTasksWaitingToReceive (que s))\<rparr>)"
proof -
  define ins where "ins k s q = q\<lparr>xTasksWaitingToReceive :=
     vListInsert (\<lambda>t. xEventValue (tcb s t)) (current s) (xTasksWaitingToReceive q)\<rparr>" for k :: uint32 and s :: rtos and q :: Queue_t
  have "r \<noteq> Blocked \<and> que s' = que s \<or> r = Blocked \<and> (\<exists>s1 k. prvIsQueueEmpty s1 \<and> current s1 = current s
      \<and> uxMessagesWaiting (que s1) = uxMessagesWaiting (que s) \<and> uxLength (que s1) = uxLength (que s)
      \<and> que s' = ins k s1 (que s))"
    by (rule wait_effect [OF assms(1) [unfolded receive_wait_def] assms(2,3)])
      (simp_all add: que_block_receiver ins_def)
  then show ?thesis by (auto simp: ins_def prvIsQueueEmpty_def)
qed

section \<open>Every step keeps the invariant\<close>

lemma queue_invD:
  assumes "queue_inv len sz q ph"
  shows "data_queue len sz q" "cRxLock q = queueUNLOCKED" "cTxLock q = queueUNLOCKED"
    "\<And>t. phase_ok len sz (ph t)"
    "wake_inv (unat len) (unat (uxMessagesWaiting q)) (xTasksWaitingToSend q) (xTasksWaitingToReceive q) ph"
    "uxLength q = len" "uxItemSize q = sz"
  using assms by (auto simp: queue_inv_def data_queue_def)

lemma inv_move:
  assumes "queue_inv len sz q ph" "\<not> sending (ph t)" "\<not> receiving (ph t)" "phase_ok len sz p"
  shows "queue_inv len sz q (ph(t := p))"
  using assms by (auto simp: queue_inv_def intro: wake_move)

lemma inv_sent:
  assumes "queue_inv len sz q ph" "sent_to len sz q q'"
  shows "queue_inv len sz q' ph"
    and "sending (ph t) \<Longrightarrow> t \<notin> set (xTasksWaitingToSend q) \<Longrightarrow> queue_inv len sz q' (ph(t := Outside))"
proof -
  note i = queue_invD [OF assms(1)]
  show "queue_inv len sz q' ph"
    using i assms(2) wake_arrive [OF i(5), of "unat (uxMessagesWaiting q')"]
    by (auto simp: queue_inv_def sent_to_def)
  assume "sending (ph t)" "t \<notin> set (xTasksWaitingToSend q)"
  then show "queue_inv len sz q' (ph(t := Outside))"
    using i assms(2) wake_sent [OF i(5), of t Outside "unat (uxMessagesWaiting q')"]
    by (auto simp: queue_inv_def sent_to_def)
qed

lemma inv_taken:
  assumes "queue_inv len sz q ph" "taken_from len sz q q'"
  shows "queue_inv len sz q' ph"
    and "receiving (ph t) \<Longrightarrow> t \<notin> set (xTasksWaitingToReceive q) \<Longrightarrow> queue_inv len sz q' (ph(t := Outside))"
proof -
  note i = queue_invD [OF assms(1)]
  show "queue_inv len sz q' ph"
    using i assms(2) wake_depart [OF i(5), of "unat (uxMessagesWaiting q')"]
    by (auto simp: queue_inv_def taken_from_def)
  assume "receiving (ph t)" "t \<notin> set (xTasksWaitingToReceive q)"
  then show "queue_inv len sz q' (ph(t := Outside))"
    using i assms(2) wake_received [OF i(5), of t Outside "unat (uxMessagesWaiting q')"]
    by (auto simp: queue_inv_def taken_from_def)
qed

lemma inv_try_send:
  assumes "queue_inv len sz (que s) ph" "ph t = TrySend x pos pto n" "awake t s"
    and "send_section (Some x) pos (run_as c t s) = Some (b, s')"
  shows "queue_inv len sz (que s') (ph(t := after_send x pos pto n (b, s')))"
proof -
  note i = queue_invD [OF assms(1)]
  have ok: "op_ok len sz (Send x pos)" using i(4) [of t] assms(2) by simp
  have t: "sending (ph t)" "t \<notin> set (xTasksWaitingToSend (que s))"
    using assms(2,3) by (simp_all add: awake_def)
  from send_effect [OF _ ok assms(4)] i(1)
  consider "b" "sent_to len sz (que s) (que s')"
    | "\<not> b" "que s' = que s" "unat len \<le> unat (uxMessagesWaiting (que s))" by auto
  then show ?thesis
  proof cases
    case 1
    with inv_sent(2) [OF assms(1) _ t] show ?thesis by (simp add: after_send_def)
  next
    case 2
    with i t ok wake_full [OF i(5) t] show ?thesis by (auto simp: queue_inv_def after_send_def)
  qed
qed

lemma inv_wait_send:
  assumes "queue_inv len sz (que s) ph" "ph t = WaitSend x pos pto n"
    and "send_wait pto n (run_as c t s) = (r, pto', n', s')"
  shows "queue_inv len sz (que s') (ph(t := if r = Expired then Outside else TrySend x pos (Some pto') n'))"
proof -
  note i = queue_invD [OF assms(1)]
  have ok: "op_ok len sz (Send x pos)" using i(4) [of t] assms(2) by simp
  from send_wait_effect [OF assms(3)] i(2,3,6)
  consider "r \<noteq> Blocked" "que s' = que s"
    | val where "r = Blocked" "uxMessagesWaiting (que s) = len"
      "que s' = (que s)\<lparr>xTasksWaitingToSend := vListInsert val t (xTasksWaitingToSend (que s))\<rparr>" by auto
  then show ?thesis
  proof cases
    case 1
    with inv_move [OF assms(1), of t] assms(2) ok show ?thesis by simp
  next
    case 2
    with i ok assms(2) wake_block_sender [OF i(5), of t] show ?thesis by (auto simp: queue_inv_def)
  qed
qed

lemma inv_try_receive:
  assumes "queue_inv len sz (que s) ph" "ph t = TryReceive pk pto n" "awake t s"
    and "first_section pk (run_as c t s) = (b, s')"
  shows "queue_inv len sz (que s') (ph(t := after_receive pk pto n (b, s')))"
proof -
  note i = queue_invD [OF assms(1)]
  have t: "receiving (ph t)" "t \<notin> set (xTasksWaitingToReceive (que s))"
    using assms(2,3) by (simp_all add: awake_def)
  have empty: "queue_inv len sz (que s) (ph(t := after_receive pk pto n (None, s')))"
    if "uxMessagesWaiting (que s) = 0"
    using i that t wake_empty [of "unat len" "xTasksWaitingToSend (que s)" "xTasksWaitingToReceive (que s)" ph t]
    by (auto simp: queue_inv_def after_receive_def)
  show ?thesis
  proof (cases pk)
    case True
    from peek_effect [of len sz "run_as c t s" b s'] i(1) assms(4) True
    consider "b \<noteq> None" "que s' = (que s)\<lparr>xTasksWaitingToReceive := tl (xTasksWaitingToReceive (que s))\<rparr>"
      | "b = None" "que s' = que s" "uxMessagesWaiting (que s) = 0" by (auto simp: first_section_def)
    then show ?thesis
    proof cases
      case 1
      with i t wake_peeked [OF i(5) t] show ?thesis by (auto simp: queue_inv_def after_receive_def)
    qed (use empty in simp)
  next
    case False
    from receive_effect [of len sz "run_as c t s" b s'] i(1) assms(4) False
    consider "b \<noteq> None" "taken_from len sz (que s) (que s')"
      | "b = None" "que s' = que s" "uxMessagesWaiting (que s) = 0" by (auto simp: first_section_def)
    then show ?thesis
    proof cases
      case 1
      with inv_taken(2) [OF assms(1) _ t] show ?thesis by (simp add: after_receive_def)
    qed (use empty in simp)
  qed
qed

lemma inv_wait_receive:
  assumes "queue_inv len sz (que s) ph" "ph t = WaitReceive pk pto n"
    and "receive_wait pto n (run_as c t s) = (r, pto', n', s')"
  shows "queue_inv len sz (que s')
    (ph(t := if r = Expired then LastLook pk pto' n' else TryReceive pk (Some pto') n'))"
proof -
  note i = queue_invD [OF assms(1)]
  from receive_wait_effect [OF assms(3)] i(2,3)
  consider "r \<noteq> Blocked" "que s' = que s"
    | val where "r = Blocked" "uxMessagesWaiting (que s) = 0"
      "que s' = (que s)\<lparr>xTasksWaitingToReceive := vListInsert val t (xTasksWaitingToReceive (que s))\<rparr>" by auto
  then show ?thesis
  proof cases
    case 1
    with inv_move [OF assms(1), of t] assms(2) show ?thesis by simp
  next
    case 2
    with i assms(2) wake_block_receiver [of "unat len" _ _ ph t] show ?thesis
      by (auto simp: queue_inv_def)
  qed
qed

lemma tick_que:
  fixes s :: rtos
  assumes "xTaskIncrementTick False s = Some s'" shows "que s' = que s"
proof -
  have u: "que (unblock_loop xs c) = que c" for xs and c :: rtos
    by (induction xs c rule: unblock_loop.induct) auto
  with assms show ?thesis
    by (auto simp: xTaskIncrementTick_def Let_def taskSWITCH_DELAYED_LISTS_def
        prvResetNextTaskUnblockTime_def split: if_splits option.splits)
qed

lemma inv_filter:
  assumes "queue_inv len sz q ph"
  shows "queue_inv len sz (q\<lparr>xTasksWaitingToSend := filter P (xTasksWaitingToSend q),
    xTasksWaitingToReceive := filter P (xTasksWaitingToReceive q)\<rparr>) ph"
  using assms by (auto simp: queue_inv_def intro: wake_filter)

lemma rtos_step_inv:
  assumes "rtos_step s ph s' ph'" "queue_inv len sz (que s) ph"
  shows "queue_inv len sz (que s') ph'"
  using assms
proof (induction rule: rtos_step.induct)
  case (call_send ph t s x pos n)
  then show ?case using queue_invD(6,7) by (intro inv_move) fastforce+
next
  case (call_receive ph t s pk n)
  then show ?case by (intro inv_move) simp_all
next
  case (try_send ph t x pos pto n s c b s')
  then show ?case by (intro inv_try_send)
next
  case (wait_send ph t x pos pto n c s r pto' n' s')
  then show ?case by (intro inv_wait_send)
next
  case (try_receive ph t pk pto n s c b s')
  then show ?case by (intro inv_try_receive)
next
  case (wait_receive ph t pk pto n c s r pto' n' s')
  then show ?case by (intro inv_wait_receive)
next
  case (last_look ph t pk pto n s)
  then show ?case by (intro inv_move) simp_all
next
  case (isr_send s x pos r w s' ph)
  then have "op_ok len sz (Send x pos)" using queue_invD(6,7) [OF isr_send.prems] by simp
  with isr_send isr_send_effect [OF queue_invD(1) [OF isr_send.prems]] queue_invD(3) [OF isr_send.prems]
    inv_sent(1) [OF isr_send.prems] show ?case by metis
next
  case (isr_receive s b w s' ph)
  with isr_receive_effect [OF queue_invD(1,2) [OF isr_receive.prems]] inv_taken(1) [OF isr_receive.prems]
  show ?case by metis
next
  case (isr_peek s b s' ph)
  then have "que s' = que s"
    using copy_from_counts(2) [OF queue_invD(1) [OF isr_peek.prems]]
    by (auto simp: xQueuePeekFromISR_def split: if_splits prod.splits)
  with isr_peek show ?case by simp
next
  case (tick s s' ph)
  then show ?case using inv_filter tick_que [OF tick.hyps] by (simp add: drop_readied_def)
next
  case (elsewhere s' s ph)
  then show ?case by simp
qed

lemma reachable_inv:
  assumes "reachable s0 s ph" "queue_inv len sz (que s0) (\<lambda>t. Outside)"
  shows "queue_inv len sz (que s) ph"
  using assms by (induction rule: reachable.induct) (auto intro: rtos_step_inv)

lemma created_inv:
  assumes "xQueueGenericCreate sizeof_Queue alloc len sz s1 = Some (True, s0)" "sz \<noteq> 0"
    and "\<And>n st. alloc n = Some st \<Longrightarrow> length st = unat n"
  shows "queue_inv len sz (que s0) (\<lambda>t. Outside)"
proof -
  note q = create_data_queue [OF assms]
  have "unat (uxMessagesWaiting (que s0)) = 0" using length_items [of "que s0"] q(2) by simp
  with q data_queue_count [OF q(1)] show ?thesis by (simp add: queue_inv_def wake_inv_def busy_def)
qed

section \<open>The properties\<close>

text \<open>
  C7: types of the queue under concurrency. Starting from a queue made by \<^verbatim>\<open>xQueueGenericCreate\<close>, in
  every state that tasks, interrupts and ticks can reach by interleaving their critical sections: the storage area
  has kept its size, the pointers stand on slots of it, the count is at most the length, the queue
  is unlocked between critical sections, and each event list holds each task at most once and only
  tasks that are inside a call of the kind the list is for.
\<close>
theorem queue_types_preserved:
  assumes "xQueueGenericCreate sizeof_Queue alloc len sz s1 = Some (True, s0)" "sz \<noteq> 0"
    and "\<And>n st. alloc n = Some st \<Longrightarrow> length st = unat n"
    and "reachable s0 s ph"
  shows "queue_wf (que s) \<and> length (storage (que s)) = unat len * unat sz
    \<and> uxMessagesWaiting (que s) \<le> len
    \<and> cRxLock (que s) = queueUNLOCKED \<and> cTxLock (que s) = queueUNLOCKED
    \<and> distinct (xTasksWaitingToSend (que s)) \<and> distinct (xTasksWaitingToReceive (que s))
    \<and> (\<forall>t \<in> set (xTasksWaitingToSend (que s)). sending (ph t))
    \<and> (\<forall>t \<in> set (xTasksWaitingToReceive (que s)). receiving (ph t))"
proof -
  note i = queue_invD [OF reachable_inv [OF assms(4) created_inv [OF assms(1-3)]]]
  have "length (storage (que s)) = unat len * unat sz" using wf_storage [OF i(1)] i(6,7) by simp
  with i(1-3) wake_invD [OF i(5)] data_queue_count [OF i(1)] show ?thesis
    by (simp add: data_queue_def word_le_nat_alt)
qed

text \<open>
  C4: no wake-up is lost. In every state reachable from a fresh queue, if a task is blocked waiting
  to receive, then every item in the queue is matched by a task that is awake inside a receiving
  call and about to look at the queue; and if a task is blocked waiting to send, every free place is
  matched by a task that is awake inside a sending call. So no task sleeps on a queue that could serve it unless
  a task that will be served, and wakes the next one, is on its way.
\<close>
theorem no_lost_wakeup:
  assumes "xQueueGenericCreate sizeof_Queue alloc len sz s1 = Some (True, s0)" "sz \<noteq> 0"
    and "\<And>n st. alloc n = Some st \<Longrightarrow> length st = unat n"
    and "reachable s0 s ph"
  shows "(xTasksWaitingToReceive (que s) \<noteq> [] \<longrightarrow> unat (uxQueueMessagesWaiting s)
      \<le> card {t. receiving (ph t) \<and> t \<notin> set (xTasksWaitingToReceive (que s))})
    \<and> (xTasksWaitingToSend (que s) \<noteq> [] \<longrightarrow> unat (uxQueueSpacesAvailable s)
      \<le> card {t. sending (ph t) \<and> t \<notin> set (xTasksWaitingToSend (que s))})"
proof -
  note i = queue_invD [OF reachable_inv [OF assms(4) created_inv [OF assms(1-3)]]]
  have "unat (uxQueueSpacesAvailable s) = unat len - unat (uxMessagesWaiting (que s))"
    using i(6) data_queue_count [OF i(1)] by (simp add: uxQueueSpacesAvailable_def unat_sub word_le_nat_alt)
  with wake_invD(7,8) [OF i(5)] show ?thesis
    by (auto simp: uxQueueMessagesWaiting_def senders_def receivers_def)
qed

section \<open>Witnesses\<close>

text \<open>A task that calls \<^verbatim>\<open>xQueueReceive\<close> on an empty queue ends up on the event list.\<close>

lemma block_on_empty:
  assumes "reachable s0 s ph" "ph t = Outside" "uxMessagesWaiting (que s) = 0" "awake t s"
    and "\<not> ucDelayAborted (tcb s t)" "cRxLock (que s) = queueUNLOCKED" "cTxLock (que s) = queueUNLOCKED"
  shows "\<exists>val pto n. reachable s0
    (s\<lparr>que := (que s)\<lparr>xTasksWaitingToReceive := vListInsert val t (xTasksWaitingToReceive (que s))\<rparr>\<rparr>)
    (ph(t := TryReceive False pto n))"
proof -
  let ?s = "run_as 0 t s" and ?pto = "vTaskInternalSetTimeOutState (run_as 0 t s)"
  have "first_section False ?s = (None, ?s)"
    using assms(3) by (simp add: first_section_def receive_section_def)
  then have "rtos_step s (ph(t := TryReceive False None 10)) ?s (ph(t := WaitReceive False ?pto 10))"
    using try_receive [of "ph(t := TryReceive False None 10)" t False None 10 s 0 None ?s] assms(4)
    by (simp add: after_receive_def entry_time_def)
  moreover have "rtos_step s ph s (ph(t := TryReceive False None 10))"
    using call_receive [of ph t s False 10] assms(2) by simp
  ultimately have "reachable s0 ?s (ph(t := WaitReceive False ?pto 10))"
    using assms(1) by (blast intro: reachable.step)
  moreover obtain r pto' n' s' where w: "receive_wait ?pto 10 (run_as 0 t ?s) = (r, pto', n', s')"
    using prod_cases4 by blast
  ultimately have 1: "reachable s0 s' (ph(t := if r = Expired then LastLook False pto' n' else TryReceive False (Some pto') n'))"
    using reachable.step [OF _ wait_receive [of "ph(t := WaitReceive False ?pto 10)" t False ?pto 10, OF _ w]]
    by fastforce
  have "r = Blocked"
    using w assms(3,5)
    by (auto simp: receive_wait_def wait_section_def check_timeout_def prvLockQueue_def upd_q_def
        run_as_def current_def xTaskCheckForTimeOut_def vTaskInternalSetTimeOutState_def
        prvIsQueueEmpty_def Let_def split: if_splits)
  then obtain val where "que s' = (que s)\<lparr>xTasksWaitingToReceive := vListInsert val t (xTasksWaitingToReceive (que s))\<rparr>"
    using receive_wait_effect [OF w] assms(6,7) by auto
  then have "reachable s0
    (s\<lparr>que := (que s)\<lparr>xTasksWaitingToReceive := vListInsert val t (xTasksWaitingToReceive (que s))\<rparr>\<rparr>)
    (ph(t := TryReceive False (Some pto') n'))"
    using reachable.step [OF 1 elsewhere, of "s\<lparr>que := que s'\<rparr>"] \<open>r = Blocked\<close> by simp
  then show ?thesis by blast
qed

text \<open>Tasks 1 and 2 block on an empty queue, then an interrupt sends one item.\<close>

lemma one_of_two_woken:
  "\<exists>s ph. reachable (made_queue 3 2) s ph \<and> length (xTasksWaitingToReceive (que s)) = 1
     \<and> uxMessagesWaiting (que s) = 1"
proof -
  let ?s0 = "made_queue 3 2"
  note q = create_data_queue [OF made_queue_created _ zeroed_length]
  have n0: "uxMessagesWaiting (que ?s0) = 0"
    using length_items [of "que ?s0"] q(2) by (simp add: unat_eq_0)
  have flag: "\<not> ucDelayAborted (tcb ?s0 t)" for t
    by (simp add: made_queue_def prvInitialiseNewQueue_def xQueueGenericReset_def upd_q_def boot_rtos_def idle_tcb_def)
  obtain val pto n where 1: "reachable ?s0
    (?s0\<lparr>que := (que ?s0)\<lparr>xTasksWaitingToReceive := vListInsert val 1 []\<rparr>\<rparr>) ((\<lambda>t. Outside)(1 := TryReceive False pto n))"
    using block_on_empty [OF reachable.start [of ?s0], of 1] n0 flag q by (auto simp: awake_def)
  obtain val' pto' n' where 2: "reachable ?s0
    (?s0\<lparr>que := (que ?s0)\<lparr>xTasksWaitingToReceive := vListInsert val' 2 [1]\<rparr>\<rparr>)
    ((\<lambda>t. Outside)(1 := TryReceive False pto n, 2 := TryReceive False pto' n'))"
    using block_on_empty [OF 1, of 2] n0 flag q by (auto simp: awake_def)
  define s where "s = ?s0\<lparr>que := (que ?s0)\<lparr>xTasksWaitingToReceive := vListInsert val' 2 [1]\<rparr>\<rparr>"
  have d: "data_queue 3 2 (que s)" "items (que s) = []" "cTxLock (que s) = queueUNLOCKED"
    using q by (simp_all add: s_def)
  have "refines_op 3 2 (queue_exec (SendFromISR [7, 8] SEND_TO_BACK) s) (Done, [[7, 8]])"
    using exec_refines [OF d(1), of "SendFromISR [7, 8] SEND_TO_BACK"] d(2) by (simp add: list_send_def)
  then obtain r w s' where s': "xQueueGenericSendFromISR (Some [7, 8]) SEND_TO_BACK s = Some (r, w, s')"
    "items (que s') = [[7, 8]]"
    by (auto simp: refines_op_def)
  then have "sent_to 3 2 (que s) (que s')"
    using isr_send_effect [OF d(1) _ d(3) s'(1)] d(2) by auto
  then have "length (xTasksWaitingToReceive (que s')) = 1"
    by (auto simp: sent_to_def s_def)
  moreover have "uxMessagesWaiting (que s') = 1"
    using length_items [of "que s'"] s'(2) by (simp add: word_unat_eq_iff)
  moreover have "reachable ?s0 s' ((\<lambda>t. Outside)(1 := TryReceive False pto n, 2 := TryReceive False pto' n'))"
    using reachable.step [OF 2 isr_send [OF _ s'(1) [unfolded s_def]]] q(1) by (simp add: data_queue_def)
  ultimately show ?thesis by blast
qed

theorem queue_types_preserved_witness:
  "\<exists>s ph. reachable (made_queue 3 2) s ph \<and> uxMessagesWaiting (que s) = 1
     \<and> xTasksWaitingToReceive (que s) \<noteq> [] \<and> queue_wf (que s) \<and> length (storage (que s)) = 6"
proof -
  obtain s ph where r: "reachable (made_queue 3 2) s ph" "length (xTasksWaitingToReceive (que s)) = 1"
    "uxMessagesWaiting (que s) = 1" using one_of_two_woken by blast
  with queue_types_preserved [OF made_queue_created _ zeroed_length r(1)] show ?thesis
    by (intro exI [of _ s] exI [of _ ph]) auto
qed

theorem no_lost_wakeup_witness:
  "\<exists>s ph. reachable (made_queue 3 2) s ph \<and> xTasksWaitingToReceive (que s) \<noteq> []
     \<and> uxQueueMessagesWaiting s = 1
     \<and> 1 \<le> card {t. receiving (ph t) \<and> t \<notin> set (xTasksWaitingToReceive (que s))}"
proof -
  obtain s ph where r: "reachable (made_queue 3 2) s ph" "length (xTasksWaitingToReceive (que s)) = 1"
    "uxMessagesWaiting (que s) = 1" using one_of_two_woken by blast
  then have "xTasksWaitingToReceive (que s) \<noteq> []" by auto
  with no_lost_wakeup [OF made_queue_created _ zeroed_length r(1)] r show ?thesis
    by (intro exI [of _ s] exI [of _ ph]) (auto simp: uxQueueMessagesWaiting_def)
qed

end
