(* ===== verification/Freertos_Mutex.thy ===== *)
theory Freertos_Mutex
  imports Freertos_Queue
begin

text \<open>
  Recursive mutexes (\<^verbatim>\<open>xQueueCreateMutex\<close>, \<^verbatim>\<open>xQueueTakeMutexRecursive\<close>, \<^verbatim>\<open>xQueueGiveMutexRecursive\<close> of
  \<^verbatim>\<open>queue.c\<close>), which the lock of \<^verbatim>\<open>tkl_mutex.c\<close> is made of: a queue of length one and item size zero whose
  one item is the right to run.

  The lemmas show that such a mutex implements an owner and a depth, and that the count of mutexes
  each task holds, on which giving back an inherited priority depends, is kept exactly.
\<close>

section \<open>Owner and depth\<close>

datatype mutex_op = Take nat | Give nat

fun owner_op :: "mutex_op \<Rightarrow> nat option \<times> nat \<Rightarrow> bool \<times> nat option \<times> nat" where
  "owner_op (Take t) (h, d) = (if h = None then (True, Some t, 1)
     else if h = Some t then (True, h, Suc d) else (False, h, d))"
| "owner_op (Give t) (h, d) = (if h = Some t then if d = 1 then (True, None, 0) else (True, h, d - 1)
     else (False, h, d))"

text \<open>The same operations on the queue: each call is made by the task it names and does not wait.\<close>

definition as_task :: "nat \<Rightarrow> rtos \<Rightarrow> rtos" where
  "as_task t s = s\<lparr>pxCurrentTCB := (pxCurrentTCB s)(core_id s := t)\<rparr>"

fun mutex_exec :: "mutex_op \<Rightarrow> rtos \<Rightarrow> (bool \<times> rtos) option" where
  "mutex_exec (Take t) s =
    map_option (\<lambda>(r, s). (r \<noteq> pdFAIL, s)) (xQueueTakeMutexRecursive no_gap 0 (as_task t s))"
| "mutex_exec (Give t) s =
    map_option (\<lambda>(r, s). (r \<noteq> pdFAIL, s)) (xQueueGiveMutexRecursive (as_task t s))"

definition mutex_state :: "rtos \<Rightarrow> nat option \<times> nat" where
  "mutex_state s = (xQueueGetMutexHolder s, unat (uxRecursiveCallCount (u_data (que s))))"

text \<open>
  \<open>base t\<close> is how many other mutexes the task \<open>t\<close> holds. The one item is in the queue exactly when
  there is no holder.
\<close>

definition mutex_inv :: "(nat \<Rightarrow> uint32) \<Rightarrow> rtos \<Rightarrow> bool" where
  "mutex_inv base s \<longleftrightarrow> (\<exists>h c. pcHead (que s) = None \<and> uxItemSize (que s) = 0 \<and> uxLength (que s) = 1
     \<and> xTasksWaitingToReceive (que s) = [] \<and> xTasksWaitingToSend (que s) = []
     \<and> u_data (que s) = XSemaphore h c
     \<and> uxMessagesWaiting (que s) = (if h = None then 1 else 0) \<and> (c = 0 \<longleftrightarrow> h = None)
     \<and> (\<forall>t. uxMutexesHeld (tcb s t) = base t + (if h = Some t then 1 else 0)))"

lemma as_task_simps [simp]:
  "que (as_task t s) = que s" "current (as_task t s) = t" "tcb (as_task t s) = tcb s"
  by (simp_all add: as_task_def current_def)

lemma tcb_simps [simp]:
  "tcb (upd_q f s) = tcb s" "current (upd_q f s) = current s" "tcb (yield_if b s) = tcb s"
  "tcb (upd_tcb t g s) = (tcb s)(t := g (tcb s t))" "current (upd_tcb t g s) = current s"
  by (simp_all add: upd_q_def current_def yield_if_def request_def upd_tcb_def)

lemma take_free:
  assumes "mutex_inv base s" "xMutexHolder (u_data (que s)) = None"
  shows "\<exists>s'. xQueueSemaphoreTake no_gap 0 (as_task t s) = Some (pdPASS, s')
    \<and> que s' = (que s)\<lparr>uxMessagesWaiting := 0,
        u_data := XSemaphore (Some t) (uxRecursiveCallCount (u_data (que s)))\<rparr>
    \<and> tcb s' = (tcb s)(t := (tcb s t)\<lparr>uxMutexesHeld := uxMutexesHeld (tcb s t) + 1\<rparr>)"
  using assms
  by (auto simp: mutex_inv_def xQueueSemaphoreTake_def take_loop.simps [of _ 0] take_section_def Let_def
      pvTaskIncrementMutexHeldCount_def)

lemma take_held:
  assumes "mutex_inv base s" "xMutexHolder (u_data (que s)) \<noteq> None"
  shows "xQueueSemaphoreTake no_gap 0 (as_task t s) = Some (errQUEUE_EMPTY, as_task t s)"
  using assms
  by (auto simp: mutex_inv_def xQueueSemaphoreTake_def take_loop.simps [of _ 0] take_section_def)

lemma give_last:
  assumes "mutex_inv base s" "xMutexHolder (u_data (que s)) = Some t" "base t \<noteq> 0xFFFFFFFF"
  defines "s1 \<equiv> set_call_count 0 (as_task t s)"
  shows "\<exists>s'. xQueueGenericSend no_gap None 0 SEND_TO_BACK s1 = Some (pdPASS, s')
    \<and> que s' = (que s)\<lparr>uxMessagesWaiting := 1, u_data := XSemaphore None 0\<rparr>
    \<and> (\<forall>u. uxMutexesHeld (tcb s' u) = base u)"
proof -
  have "base t + 1 \<noteq> 0"
  proof
    assume "base t + 1 = 0"
    then have "base t = - 1" by (metis add.commute add_eq_0_iff)
    with assms(3) show False by simp
  qed
  with assms(1,2) show ?thesis
    by (auto simp: mutex_inv_def s1_def set_call_count_def xQueueGenericSend_def send_asserts_def
        send_loop.simps [of _ 0] send_section_def prvCopyDataToQueue_def xTaskPriorityDisinherit_def Let_def)
qed

lemma mutex_exec_refines:
  assumes "mutex_inv base s" "\<And>t. base t \<noteq> 0xFFFFFFFF" "snd (mutex_state s) + 1 < 2 ^ 32"
  shows "\<exists>s'. mutex_exec op s = Some (fst (owner_op op (mutex_state s)), s')
    \<and> mutex_state s' = snd (owner_op op (mutex_state s)) \<and> mutex_inv base s'"
proof -
  from assms(1) obtain h c where m: "pcHead (que s) = None" "uxItemSize (que s) = 0" "uxLength (que s) = 1"
    "xTasksWaitingToReceive (que s) = []" "xTasksWaitingToSend (que s) = []" "u_data (que s) = XSemaphore h c"
    "uxMessagesWaiting (que s) = (if h = None then 1 else 0)" "c = 0 \<longleftrightarrow> h = None"
    "\<And>t. uxMutexesHeld (tcb s t) = base t + (if h = Some t then 1 else 0)"
    by (auto simp: mutex_inv_def)
  have st: "mutex_state s = (h, unat c)" by (simp add: mutex_state_def xQueueGetMutexHolder_def m)
  have c1: "unat (c + 1) = Suc (unat c)" using assms(3) st by (simp add: unat_plus_exact)
  then have nz: "c + 1 \<noteq> 0" by (metis nat.distinct(1) unat_0)
  show ?thesis
  proof (cases op)
    case (Take t)
    consider "h = None" | "h = Some t" | u where "h = Some u" "u \<noteq> t" by (cases h) auto
    then show ?thesis
    proof cases
      case 1
      then obtain s' where s': "xQueueSemaphoreTake no_gap 0 (as_task t s) = Some (pdPASS, s')"
        "que s' = (que s)\<lparr>uxMessagesWaiting := 0, u_data := XSemaphore (Some t) c\<rparr>"
        "tcb s' = (tcb s)(t := (tcb s t)\<lparr>uxMutexesHeld := uxMutexesHeld (tcb s t) + 1\<rparr>)"
        using take_free [OF assms(1), of t] m by auto
      have "mutex_exec op s = Some (True, set_call_count (c + 1) s')"
        using 1 Take m s' by (simp add: xQueueTakeMutexRecursive_def)
      moreover have "mutex_inv base (set_call_count (c + 1) s')"
        unfolding mutex_inv_def using 1 m s' nz by (intro exI [of _ "Some t"] exI [of _ "c + 1"]) (auto simp: set_call_count_def)
      moreover have "owner_op op (mutex_state s) = (True, Some t, 1)" "mutex_state (set_call_count (c + 1) s') = (Some t, 1)"
        using 1 Take st m s' c1 by (simp_all add: mutex_state_def xQueueGetMutexHolder_def set_call_count_def)
      ultimately show ?thesis by simp
    next
      case 2
      have "mutex_exec op s = Some (True, set_call_count (c + 1) (as_task t s))"
        using 2 Take m by (simp add: xQueueTakeMutexRecursive_def)
      moreover have "mutex_inv base (set_call_count (c + 1) (as_task t s))"
        unfolding mutex_inv_def using 2 m nz
        by (intro exI [of _ "Some t"] exI [of _ "c + 1"]) (auto simp: set_call_count_def)
      moreover have "owner_op op (mutex_state s) = (True, Some t, Suc (unat c))" "mutex_state (set_call_count (c + 1) (as_task t s)) = (Some t, Suc (unat c))"
        using 2 Take st m c1 by (simp_all add: mutex_state_def xQueueGetMutexHolder_def set_call_count_def)
      ultimately show ?thesis by simp
    next
      case 3
      then have "mutex_exec op s = Some (False, as_task t s)"
        using Take m take_held [OF assms(1), of t] by (simp add: xQueueTakeMutexRecursive_def)
      moreover have "mutex_inv base (as_task t s)" using assms(1) by (simp add: mutex_inv_def)
      moreover have "owner_op op (mutex_state s) = (False, h, unat c)" "mutex_state (as_task t s) = (h, unat c)"
        using 3 Take st m by (simp_all add: mutex_state_def xQueueGetMutexHolder_def set_call_count_def)
      ultimately show ?thesis by simp
    qed
  next
    case (Give t)
    consider "h = Some t" "c = 1" | "h = Some t" "c \<noteq> 1" | "h \<noteq> Some t" by blast
    then show ?thesis
    proof cases
      case 1
      then obtain s' where s': "xQueueGenericSend no_gap None 0 SEND_TO_BACK (set_call_count 0 (as_task t s)) = Some (pdPASS, s')"
        "que s' = (que s)\<lparr>uxMessagesWaiting := 1, u_data := XSemaphore None 0\<rparr>"
        "\<And>u. uxMutexesHeld (tcb s' u) = base u"
        using give_last [OF assms(1) _ assms(2), of t] m by auto
      have "mutex_exec op s = Some (True, s')"
        using 1 Give m s' by (simp add: xQueueGiveMutexRecursive_def set_call_count_def)
      moreover have "mutex_inv base s'"
        unfolding mutex_inv_def using m s' by (intro exI [of _ None] exI [of _ 0]) auto
      moreover have "owner_op op (mutex_state s) = (True, None, 0)" "mutex_state (s') = (None, 0)"
        using 1 Give st m s' by (simp_all add: mutex_state_def xQueueGetMutexHolder_def set_call_count_def)
      ultimately show ?thesis by simp
    next
      case 2
      then have "c \<noteq> 0" using m(8) by simp
      then have cm: "unat (c - 1) = unat c - 1" by (rule unat_minus_one)
      have c2: "unat c \<noteq> 1" using 2 by (metis unat_1 word_unat_eq_iff)
      have "c - 1 \<noteq> 0" using 2 by simp
      then have "mutex_exec op s = Some (True, set_call_count (c - 1) (as_task t s))"
        using 2 Give m by (simp add: xQueueGiveMutexRecursive_def set_call_count_def)
      moreover have "mutex_inv base (set_call_count (c - 1) (as_task t s))"
        unfolding mutex_inv_def using 2 m
        by (intro exI [of _ "Some t"] exI [of _ "c - 1"]) (auto simp: set_call_count_def)
      moreover have "owner_op op (mutex_state s) = (True, Some t, unat c - 1)" "mutex_state (set_call_count (c - 1) (as_task t s)) = (Some t, unat c - 1)"
        using 2 Give st m cm c2 by (simp_all add: mutex_state_def xQueueGetMutexHolder_def set_call_count_def)
      ultimately show ?thesis by simp
    next
      case 3
      then have "mutex_exec op s = Some (False, as_task t s)"
        using Give m by (simp add: xQueueGiveMutexRecursive_def)
      moreover have "mutex_inv base (as_task t s)" using assms(1) by (simp add: mutex_inv_def)
      moreover have "owner_op op (mutex_state s) = (False, h, unat c)" "mutex_state (as_task t s) = (h, unat c)"
        using 3 Give st m by (simp_all add: mutex_state_def xQueueGetMutexHolder_def set_call_count_def)
      ultimately show ?thesis by simp
    qed
  qed
qed

lemma owner_depth: "snd (snd (owner_op op m)) \<le> Suc (snd m)"
  by (cases op; cases m) auto

lemma created_mutex:
  assumes "xQueueCreateMutex sizeof_Queue alloc s0 = Some (True, s)"
  shows "mutex_inv (\<lambda>t. uxMutexesHeld (tcb s0 t)) s" "mutex_state s = (None, 0)"
proof -
  obtain st where s: "prvInitialiseMutex (prvInitialiseNewQueue 1 0 st False s0) = Some s"
    using assms by (auto simp: xQueueCreateMutex_def xQueueGenericCreate_def Let_def
        split: option.splits if_splits)
  define s1 where "s1 = upd_q (\<lambda>q. q\<lparr>u_data := XSemaphore None 0, pcHead := None\<rparr>)
    (prvInitialiseNewQueue 1 0 st False s0)"
  have q1: "pcHead (que s1) = None" "uxItemSize (que s1) = 0" "uxLength (que s1) = 1"
    "xTasksWaitingToReceive (que s1) = []" "xTasksWaitingToSend (que s1) = []"
    "u_data (que s1) = XSemaphore None 0" "uxMessagesWaiting (que s1) = 0" "tcb s1 = tcb s0"
    by (simp_all add: s1_def prvInitialiseNewQueue_def xQueueGenericReset_def reset_pointers_def)
  have "xQueueGenericSend no_gap None 0 SEND_TO_BACK s1
    = Some (pdPASS, upd_q (\<lambda>q. q\<lparr>u_data := XSemaphore None 0, uxMessagesWaiting := 1\<rparr>) s1)"
    using q1 by (simp add: xQueueGenericSend_def send_asserts_def send_loop.simps [of _ 0] send_section_def
        prvCopyDataToQueue_def xTaskPriorityDisinherit_def yield_if_def upd_q_def)
  then have "s = upd_q (\<lambda>q. q\<lparr>u_data := XSemaphore None 0, uxMessagesWaiting := 1\<rparr>) s1"
    using s by (simp add: prvInitialiseMutex_def flip: s1_def)
  then show "mutex_inv (\<lambda>t. uxMutexesHeld (tcb s0 t)) s" "mutex_state s = (None, 0)"
    using q1 by (simp_all add: mutex_inv_def mutex_state_def xQueueGetMutexHolder_def)
qed

text \<open>Takes and gives refine those of an owner and a depth, which the call count must not exceed.\<close>

interpretation mutex: op_refinement mutex_exec owner_op mutex_state
  "\<lambda>s. mutex_inv base s \<and> (\<forall>t. base t \<noteq> 0xFFFFFFFF)" "\<lambda>op m. snd m + 1 < 2 ^ 32" for base
  by unfold_locales (use mutex_exec_refines in blast)

lemma depth_along: "snd m + length ops < 2 ^ 32 \<Longrightarrow> ok_along owner_op (\<lambda>op m. snd m + 1 < 2 ^ 32) ops m"
proof (induction ops arbitrary: m)
  case (Cons op ops)
  then show ?case using owner_depth [of op m] by simp
qed simp

text \<open>
  C14: a recursive mutex implements an owner and a depth. On a mutex that \<^verbatim>\<open>xQueueCreateMutex\<close> has made,
  any sequence of takes and gives that do not wait, by any tasks, runs without a failed assertion
  and gives the answers of an owner with a depth: the first take wins, only the owner takes again or
  gives, and the mutex is free again when the owner has given as often as it has taken. The number of
  mutexes each task is recorded to hold, which decides when an inherited priority is given back, is
  always the true one.
\<close>
theorem recursive_mutex_refines:
  assumes "xQueueCreateMutex sizeof_Queue alloc s0 = Some (True, s)"
    and "\<forall>t. uxMutexesHeld (tcb s0 t) \<noteq> 0xFFFFFFFF" "length ops < 2 ^ 32"
  shows "\<exists>rs s'. runs mutex_exec ops s = Some (rs, s') \<and> spec_runs owner_op ops (None, 0) = (rs, mutex_state s')
    \<and> (\<forall>t. uxMutexesHeld (tcb s' t)
         = uxMutexesHeld (tcb s0 t) + (if xQueueGetMutexHolder s' = Some t then 1 else 0))"
proof -
  note m = created_mutex [OF assms(1)]
  obtain rs s' where "runs mutex_exec ops s = Some (rs, s')" "spec_runs owner_op ops (None, 0) = (rs, mutex_state s')"
    "mutex_inv (\<lambda>t. uxMutexesHeld (tcb s0 t)) s'"
    using mutex.runs_spec [of _ s ops] depth_along [of "(None, 0)" ops] assms(2,3) m by fastforce
  then show ?thesis by (auto simp: mutex_inv_def xQueueGetMutexHolder_def)
qed

definition made_mutex :: rtos where
  "made_mutex = the (prvInitialiseMutex (prvInitialiseNewQueue 1 0 [] False boot_rtos))"

theorem recursive_mutex_refines_witness:
  "\<exists>rs s'. runs mutex_exec [Take 1, Take 2, Take 1, Give 2, Give 1, Give 1, Take 2] made_mutex = Some (rs, s')
     \<and> rs = [True, False, True, False, True, True, True] \<and> xQueueGetMutexHolder s' = Some 2
     \<and> uxMutexesHeld (tcb s' 2) = 1"
proof -
  let ?ops = "[Take 1, Take 2, Take 1, Give 2, Give 1, Give 1, Take 2]"
  have 1: "xQueueCreateMutex 84 zeroed boot_rtos = Some (True, made_mutex)"
    by (simp add: xQueueCreateMutex_def xQueueGenericCreate_def zeroed_def made_mutex_def
        prvInitialiseMutex_def xQueueGenericSend_def send_asserts_def send_loop.simps [of _ 0]
        send_section_def prvCopyDataToQueue_def xTaskPriorityDisinherit_def
        prvInitialiseNewQueue_def xQueueGenericReset_def reset_pointers_def upd_q_def)
  have held: "uxMutexesHeld (tcb boot_rtos t) = 0" for t by (simp add: boot_rtos_def idle_tcb_def)
  from recursive_mutex_refines [OF 1, of ?ops] held obtain rs s' where
    *: "runs mutex_exec ?ops made_mutex = Some (rs, s')" "spec_runs owner_op ?ops (None, 0) = (rs, mutex_state s')"
    "\<forall>t. uxMutexesHeld (tcb s' t) = (if xQueueGetMutexHolder s' = Some t then 1 else 0)" by auto
  from *(2) have "rs = [True, False, True, False, True, True, True]" "xQueueGetMutexHolder s' = Some 2"
    by (simp_all add: mutex_state_def)
  with * show ?thesis by auto
qed

end
