(* ===== verification/Freertos_Os.thy ===== *)
theory Freertos_Os
  imports Freertos_Queue
begin

text \<open>
  The queues of the adapter (\<^verbatim>\<open>tkl_queue.c\<close>, theory \<open>Os_Sync\<close>) on the queues of the kernel
  (\<^verbatim>\<open>queue.c\<close>, theory \<open>Freertos_Queue\<close>). The answers that the adapter's model takes from its platform are
  here computed by the model of the kernel, so what \<open>Os_Sync\<close> asks of a kernel is proved rather
  than assumed.

  The call list holds the calls in the order they complete. Between two completions nothing changes
  the contents of the queue, so a call that succeeds does so in one critical section, the one in
  which it completes, and a call that fails was either refused by that section or has run out of time; the
  parameter \<open>gives_up\<close> says which calls run out of time.
\<close>

section \<open>The kernel as a platform\<close>

fun ring_call :: "handle \<Rightarrow> os_call \<Rightarrow> ring_op option" where
  "ring_call h (XQueueSend h' bs t) = (if h' = h then Some (Send bs SEND_TO_BACK) else None)"
| "ring_call h (XQueueSendFromISR h' bs) = (if h' = h then Some (SendFromISR bs SEND_TO_BACK) else None)"
| "ring_call h (XQueueReceive h' t) = (if h' = h then Some Receive else None)"
| "ring_call h (XQueueReceiveFromISR h') = (if h' = h then Some ReceiveFromISR else None)"
| "ring_call h _ = None"

definition kernel_step ::
  "(os_call list \<Rightarrow> os_call \<Rightarrow> bool) \<Rightarrow> handle \<Rightarrow> os_call list \<Rightarrow> os_call \<Rightarrow> rtos \<Rightarrow> op_result option \<times> rtos" where
  "kernel_step gives_up h tr c s =
    (case ring_call h c of
       None \<Rightarrow> (None, s)
     | Some op \<Rightarrow> if gives_up tr c then (None, s)
         else case queue_exec op s of None \<Rightarrow> (None, s) | Some (r, s') \<Rightarrow> (Some r, s'))"

text \<open>The kernel after the calls of a list.\<close>

definition kernel_after ::
  "(os_call list \<Rightarrow> os_call \<Rightarrow> bool) \<Rightarrow> handle \<Rightarrow> rtos \<Rightarrow> os_call list \<Rightarrow> rtos" where
  "kernel_after gives_up h s0 tr = hist (\<lambda>tr c s. snd (kernel_step gives_up h tr c s)) s0 tr"

definition kernel_answer ::
  "(os_call list \<Rightarrow> os_call \<Rightarrow> bool) \<Rightarrow> handle \<Rightarrow> rtos \<Rightarrow> os_call list \<Rightarrow> os_call \<Rightarrow> op_result option" where
  "kernel_answer gives_up h s0 tr c = fst (kernel_step gives_up h tr c (kernel_after gives_up h s0 tr))"

definition kernel_os ::
  "(os_call list \<Rightarrow> bool) \<Rightarrow> (os_call list \<Rightarrow> os_call \<Rightarrow> bool) \<Rightarrow> handle \<Rightarrow> rtos \<Rightarrow> os_platform" where
  "kernel_os isr gives_up h s0 = \<lparr>in_isr = isr, new_handle = \<lambda>_ _. Some h,
     os_ret = \<lambda>tr c. (case kernel_answer gives_up h s0 tr c of
        Some Done \<Rightarrow> pdPASS | Some (Item x) \<Rightarrow> pdPASS | _ \<Rightarrow> pdFAIL),
     woken = \<lambda>_ _. False,
     received = \<lambda>tr c. (case kernel_answer gives_up h s0 tr c of Some (Item x) \<Rightarrow> x | _ \<Rightarrow> [])\<rparr>"

section \<open>The contents of the queue\<close>

text \<open>The messages sent have the item size of the queue.\<close>

fun sized :: "handle \<Rightarrow> uint32 \<Rightarrow> os_call \<Rightarrow> bool" where
  "sized h sz (XQueueSend h' bs t) \<longleftrightarrow> h' = h \<longrightarrow> length bs = unat sz"
| "sized h sz (XQueueSendFromISR h' bs) \<longleftrightarrow> h' = h \<longrightarrow> length bs = unat sz"
| "sized h sz _ \<longleftrightarrow> True"

lemma ring_call_ok: "sized h sz c \<Longrightarrow> ring_call h c = Some op \<Longrightarrow> op_ok len sz op"
  by (cases c) (auto split: if_splits)

lemma kernel_step_cases:
  assumes "data_queue len sz (que s)" "sized h sz c"
  shows "kernel_step gives_up h tr c s = (None, s) \<or>
    (\<exists>op s'. ring_call h c = Some op \<and> data_queue len sz (que s')
       \<and> kernel_step gives_up h tr c s = (Some (fst (list_op (unat len) op (items (que s)))), s')
       \<and> items (que s') = snd (list_op (unat len) op (items (que s))))"
proof (cases "ring_call h c = None \<or> gives_up tr c")
  case True
  then show ?thesis by (auto simp: kernel_step_def split: option.splits)
next
  case False
  then obtain op where op: "ring_call h c = Some op" by auto
  from exec_refines [OF assms(1) ring_call_ok [OF assms(2) op]] obtain s' where
    "queue_exec op s = Some (fst (list_op (unat len) op (items (que s))), s')"
    "items (que s') = snd (list_op (unat len) op (items (que s)))" "data_queue len sz (que s')"
    by (auto simp: refines_op_def)
  with op False show ?thesis by (auto simp: kernel_step_def)
qed

lemma kernel_contents:
  assumes "data_queue len sz (que s0)" "items (que s0) = []" "\<forall>c \<in> set tr. sized h sz c"
  shows "data_queue len sz (que (kernel_after gives_up h s0 tr))
    \<and> items (que (kernel_after gives_up h s0 tr)) = queue_of (kernel_os isr gives_up h s0) h tr"
  using assms(3)
proof (induction tr rule: rev_induct)
  case Nil
  show ?case using assms(1,2) by (simp add: kernel_after_def queue_of_def hist_def)
next
  case (snoc c tr)
  let ?p = "kernel_os isr gives_up h s0" and ?s = "kernel_after gives_up h s0 tr"
  have IH: "data_queue len sz (que ?s)" "items (que ?s) = queue_of ?p h tr" using snoc by auto
  have after: "kernel_after gives_up h s0 (tr @ [c]) = snd (kernel_step gives_up h tr c ?s)"
    by (simp add: kernel_after_def hist_def hist_from_append)
  have ans: "kernel_answer gives_up h s0 tr c = fst (kernel_step gives_up h tr c ?s)"
    by (simp add: kernel_answer_def)
  have "sized h sz c" using snoc.prems by simp
  from kernel_step_cases [OF IH(1) this, of gives_up tr] show ?case
  proof (elim disjE exE conjE)
    assume "kernel_step gives_up h tr c ?s = (None, ?s)"
    with IH after ans show ?case by (simp add: kernel_os_def)
  next
    fix op s'
    assume *: "ring_call h c = Some op" "data_queue len sz (que s')"
      "kernel_step gives_up h tr c ?s = (Some (fst (list_op (unat len) op (items (que ?s)))), s')"
      "items (que s') = snd (list_op (unat len) op (items (que ?s)))"
    from *(1) have "queue_of ?p h (tr @ [c]) = snd (list_op (unat len) op (queue_of ?p h tr))"
      using ans *(3) IH(2)
      by (cases c) (auto simp: kernel_os_def list_send_def list_receive_def split: if_splits list.splits)
    with * after IH(2) show ?case by simp
  qed
qed

lemma kernel_fifo:
  assumes "data_queue len sz (que s0)" "items (que s0) = []" "\<forall>c \<in> set tr. sized h sz c"
  shows "fifo_at (kernel_os isr gives_up h s0) h tr"
proof -
  note k = kernel_contents [OF assms, of gives_up isr]
  have r: "queue_of (kernel_os isr gives_up h s0) h tr \<noteq> []
    \<and> received (kernel_os isr gives_up h s0) tr c = hd (queue_of (kernel_os isr gives_up h s0) h tr)"
    if "ring_call h c \<in> {Some Receive, Some ReceiveFromISR}" "sized h sz c"
      "os_ret (kernel_os isr gives_up h s0) tr c = pdTRUE" for c
    using kernel_step_cases [of len sz "kernel_after gives_up h s0 tr" h c gives_up tr] k that
    by (auto simp: kernel_os_def kernel_answer_def list_receive_def split: list.splits)
  show ?thesis
    unfolding fifo_at_def
  proof (intro allI impI)
    fix c
    assume *: "(c = XQueueReceiveFromISR h \<or> (\<exists>t. c = XQueueReceive h t))
      \<and> os_ret (kernel_os isr gives_up h s0) tr c = pdTRUE"
    then have "ring_call h c \<in> {Some Receive, Some ReceiveFromISR}" "sized h sz c" by auto
    with * r show "queue_of (kernel_os isr gives_up h s0) h tr \<noteq> []
      \<and> received (kernel_os isr gives_up h s0) tr c = hd (queue_of (kernel_os isr gives_up h s0) h tr)"
      by blast
  qed
qed

text \<open>Posts of messages of the right size keep the call list so.\<close>

fun op_sized :: "uint32 \<Rightarrow> queue_op \<Rightarrow> bool" where
  "op_sized sz (Post bs t) \<longleftrightarrow> length bs = unat sz"
| "op_sized sz (Fetch t) \<longleftrightarrow> True"

lemma run_sized:
  assumes "op_sized sz op" "\<forall>c \<in> set (calls s). sized h sz c" "queue_run p h [op] s = (ps, fs, s')"
  shows "\<forall>c \<in> set (calls s'). sized h sz c"
  using assms
  by (cases op) (auto simp: tkl_queue_post_def tkl_queue_fetch_def isr_or_task_def Let_def
      split: prod.splits if_splits)

text \<open>
  C9: the adapter's queue on the kernel's ring buffer. For any sequence of \<^verbatim>\<open>tkl_queue_post\<close> and
  \<^verbatim>\<open>tkl_queue_fetch\<close> on a queue that \<^verbatim>\<open>xQueueGenericCreate\<close> has made, with messages of its item size,
  made from tasks and interrupts and with calls that run out of time anywhere: the messages that were
  accepted are the messages fetched, in order, followed by those in the storage area of the queue,
  of which there are never more than its length. Nothing is assumed of the kernel.
\<close>
theorem tkl_queue_on_freertos:
  assumes "xQueueGenericCreate sizeof_Queue alloc len sz k = Some (True, s0)" "sz \<noteq> 0"
    and "\<And>n st. alloc n = Some st \<Longrightarrow> length st = unat n"
    and "\<forall>op \<in> set ops. op_sized sz op"
    and "queue_run (kernel_os isr gives_up h s0) h ops \<lparr>calls = []\<rparr> = (posted, fetched, s')"
  shows "posted = fetched @ items (que (kernel_after gives_up h s0 (calls s')))
    \<and> length posted \<le> length fetched + unat len"
proof -
  note q = create_data_queue [OF assms(1-3)]
  let ?p = "kernel_os isr gives_up h s0" and ?P = "\<lambda>tr. \<forall>c \<in> set tr. sized h sz c"
  have "queue_of ?p h (calls \<lparr>calls = []\<rparr>) @ posted = fetched @ queue_of ?p h (calls s') \<and> ?P (calls s')"
  proof (rule queue_run_content [where P = ?P, OF _ _ _ assms(5)])
    show "fifo_at ?p h tr" if "?P tr" for tr using kernel_fifo [OF q(1,2) that] .
    show "?P (calls s'')" if "op \<in> set ops" "?P (calls s)" "queue_run ?p h [op] s = (ps, fs, s'')"
      for op s ps fs s'' using run_sized [OF _ that(2,3)] that(1) assms(4) by blast
  qed simp
  then have r: "posted = fetched @ queue_of ?p h (calls s')" "?P (calls s')"
    by (simp_all add: queue_of_def hist_def)
  note k = kernel_contents [OF q(1,2) r(2), of gives_up isr]
  have "length (items (que (kernel_after gives_up h s0 (calls s')))) \<le> unat len"
    unfolding length_items using k data_queue_count by blast
  with r(1) k show ?thesis by simp
qed

theorem tkl_queue_on_freertos_witness:
  "\<exists>posted fetched s'. queue_run (kernel_os (\<lambda>tr. False) (\<lambda>tr c. False) 1 (made_queue 3 2)) 1
       [Post [1, 2] 10, Fetch 5, Post [3, 4] 10] \<lparr>calls = []\<rparr> = (posted, fetched, s')
     \<and> posted = fetched @ items (que (kernel_after (\<lambda>tr c. False) 1 (made_queue 3 2) (calls s')))"
proof -
  obtain posted fetched s' where r: "queue_run (kernel_os (\<lambda>tr. False) (\<lambda>tr c. False) 1 (made_queue 3 2)) 1
       [Post [1, 2] 10, Fetch 5, Post [3, 4] 10] \<lparr>calls = []\<rparr> = (posted, fetched, s')"
    using prod_cases3 by blast
  with tkl_queue_on_freertos [OF made_queue_created _ zeroed_length _ r] show ?thesis by auto
qed

end
