(* ===== verification/Os_System.thy ===== *)
theory Os_System
  imports Os_Sync
begin

text \<open>
  The system services of the adapter: \<^verbatim>\<open>tkl_memory.c\<close>, \<^verbatim>\<open>tkl_system.c\<close>, \<^verbatim>\<open>tkl_sleep.c\<close>, \<^verbatim>\<open>tkl_output.c\<close>,
  \<^verbatim>\<open>tkl_fs.c\<close> and \<^verbatim>\<open>tkl_rtc.c\<close>. The heap is an explicit store of blocks, so that copies which
  leave a block are visible: such an operation yields \<open>None\<close>. The lemmas characterise
  \<^verbatim>\<open>realloc\<close> and \<^verbatim>\<open>calloc\<close>, the watchdog period and its subscription, and the stubs of the file layer.
\<close>

section \<open>Memory\<close>

type_synonym heap = "nat \<rightharpoonup> byte list"
type_synonym ptr = "nat option"

text \<open>\<^verbatim>\<open>pvPortMalloc\<close>: the address and initial contents of the new block, or NULL.\<close>

type_synonym allocator = "heap \<Rightarrow> uint32 \<Rightarrow> (nat \<times> byte list) option"

definition tkl_system_malloc :: "allocator \<Rightarrow> uint32 \<Rightarrow> heap \<Rightarrow> ptr \<times> heap" where
  "tkl_system_malloc A n h =
     (case A h n of None \<Rightarrow> (None, h) | Some (a, bs) \<Rightarrow> (Some a, h(a \<mapsto> bs)))"

definition tkl_system_free :: "ptr \<Rightarrow> heap \<Rightarrow> heap" where
  "tkl_system_free p h = (case p of None \<Rightarrow> h | Some a \<Rightarrow> h(a := None))"

text \<open>\<^verbatim>\<open>memset\<close> and \<^verbatim>\<open>memcpy\<close> on whole blocks; \<open>None\<close> when they leave a block.\<close>

definition memset0 :: "nat \<Rightarrow> nat \<Rightarrow> heap \<Rightarrow> heap option" where
  "memset0 a n h =
     (case h a of
        None \<Rightarrow> None
      | Some bs \<Rightarrow> if length bs < n then None else Some (h(a \<mapsto> replicate n 0 @ drop n bs)))"

definition memcpy :: "nat \<Rightarrow> nat \<Rightarrow> nat \<Rightarrow> heap \<Rightarrow> heap option" where
  "memcpy dst src n h =
     (case (h dst, h src) of
        (Some ds, Some ss) \<Rightarrow>
          if length ds < n \<or> length ss < n then None else Some (h(dst \<mapsto> take n ss @ drop n ds))
      | _ \<Rightarrow> None)"

definition tkl_system_calloc ::
  "allocator \<Rightarrow> uint32 \<Rightarrow> uint32 \<Rightarrow> heap \<Rightarrow> (ptr \<times> heap) option" where
  "tkl_system_calloc A nitems n h =
     (case tkl_system_malloc A (nitems * n) h of
        (None, h1) \<Rightarrow> Some (None, h1)
      | (Some a, h1) \<Rightarrow> map_option (\<lambda>h2. (Some a, h2)) (memset0 a (unat (nitems * n)) h1))"

definition tkl_system_realloc ::
  "allocator \<Rightarrow> ptr \<Rightarrow> uint32 \<Rightarrow> heap \<Rightarrow> (ptr \<times> heap) option" where
  "tkl_system_realloc A p n h =
     (if n = 0 then Some (None, tkl_system_free p h)
      else case p of
          None \<Rightarrow> Some (tkl_system_malloc A n h)
        | Some old \<Rightarrow>
            (case tkl_system_malloc A n h of
               (None, h1) \<Rightarrow> Some (None, h1)
             | (Some new, h1) \<Rightarrow>
                 map_option (\<lambda>h2. (Some new, tkl_system_free p h2)) (memcpy new old (unat n) h1)))"

section \<open>System\<close>

datatype sys_call =
  VTaskDelay uint32
  | Esp_restart
  | Esp_task_wdt_init uint32 bool
  | Esp_task_wdt_add
  | Esp_task_wdt_reset
  | Esp_task_wdt_deinit
  | Settimeofday uint32
  | Esp_log string

record sys = "sys_call machine" +
  tuya_watchdog_tread_inited :: bool

type_synonym sys_platform = "sys_call list \<Rightarrow> sys_call \<Rightarrow> int"

definition tkl_system_sleep :: "uint32 \<Rightarrow> sys \<Rightarrow> sys" where
  "tkl_system_sleep num_ms s = issue (VTaskDelay (pdMS_TO_TICKS num_ms)) s"

definition tkl_system_delay :: "uint32 \<Rightarrow> sys \<Rightarrow> sys" where
  "tkl_system_delay num_ms s = tkl_system_sleep num_ms s"

definition tkl_system_reset :: "sys \<Rightarrow> sys" where
  "tkl_system_reset s = issue Esp_restart s"

datatype esp_reset_reason_t =
  ESP_RST_UNKNOWN | ESP_RST_POWERON | ESP_RST_EXT | ESP_RST_SW | ESP_RST_PANIC | ESP_RST_INT_WDT
  | ESP_RST_TASK_WDT | ESP_RST_WDT | ESP_RST_DEEPSLEEP | ESP_RST_BROWNOUT | ESP_RST_SDIO

datatype TUYA_RESET_REASON_E =
  TUYA_RESET_REASON_POWERON | TUYA_RESET_REASON_HW_WDOG | TUYA_RESET_REASON_FAULT
  | TUYA_RESET_REASON_SW_WDOG | TUYA_RESET_REASON_SOFTWARE | TUYA_RESET_REASON_DEEPSLEEP
  | TUYA_RESET_REASON_EXTERNAL | TUYA_RESET_REASON_UNKNOWN | TUYA_RESET_REASON_FIB
  | TUYA_RESET_REASON_CRASH | TUYA_RESET_REASON_FLASH | TUYA_RESET_REASON_FATAL
  | TUYA_RESET_REASON_BROWNOUT | TUYA_RESET_REASON_UNSUPPORT

fun tkl_system_get_reset_reason :: "esp_reset_reason_t \<Rightarrow> TUYA_RESET_REASON_E" where
  "tkl_system_get_reset_reason ESP_RST_POWERON = TUYA_RESET_REASON_POWERON"
| "tkl_system_get_reset_reason ESP_RST_EXT = TUYA_RESET_REASON_EXTERNAL"
| "tkl_system_get_reset_reason ESP_RST_SW = TUYA_RESET_REASON_SOFTWARE"
| "tkl_system_get_reset_reason ESP_RST_PANIC = TUYA_RESET_REASON_FAULT"
| "tkl_system_get_reset_reason ESP_RST_INT_WDT = TUYA_RESET_REASON_SW_WDOG"
| "tkl_system_get_reset_reason ESP_RST_TASK_WDT = TUYA_RESET_REASON_SW_WDOG"
| "tkl_system_get_reset_reason ESP_RST_WDT = TUYA_RESET_REASON_SW_WDOG"
| "tkl_system_get_reset_reason ESP_RST_DEEPSLEEP = TUYA_RESET_REASON_DEEPSLEEP"
| "tkl_system_get_reset_reason ESP_RST_BROWNOUT = TUYA_RESET_REASON_BROWNOUT"
| "tkl_system_get_reset_reason ESP_RST_SDIO = TUYA_RESET_REASON_EXTERNAL"
| "tkl_system_get_reset_reason ESP_RST_UNKNOWN = TUYA_RESET_REASON_UNKNOWN"

text \<open>\<open>r\<close> is the value \<^verbatim>\<open>esp_random\<close> returns; a range of 0 divides by zero (\<open>None\<close>). The result is
  an \<^verbatim>\<open>int\<close>.\<close>

definition tkl_system_get_random :: "uint32 \<Rightarrow> uint32 \<Rightarrow> int option" where
  "tkl_system_get_random r rng = (if rng = 0 then None else Some (sint (r mod rng)))"

definition tkl_watchdog_init :: "sys_platform \<Rightarrow> uint32 \<Rightarrow> sys \<Rightarrow> int \<times> sys" where
  "tkl_watchdog_init p interval_ms s =
     try_call p (Esp_task_wdt_init ((interval_ms + 1000 - 1) div 1000) True) OPRT_COM_ERROR
       (\<lambda>s. (OPRT_OK, s)) s"

definition tkl_watchdog_refresh :: "sys_platform \<Rightarrow> sys \<Rightarrow> int \<times> sys" where
  "tkl_watchdog_refresh p s =
     (let reset = try_call p Esp_task_wdt_reset OPRT_COM_ERROR (\<lambda>s. (OPRT_OK, s)) in
      if \<not> tuya_watchdog_tread_inited s
      then try_call p Esp_task_wdt_add OPRT_COM_ERROR
             (\<lambda>s1. reset (s1\<lparr>tuya_watchdog_tread_inited := True\<rparr>)) s
      else reset s)"

definition tkl_watchdog_deinit :: "sys_platform \<Rightarrow> sys \<Rightarrow> int \<times> sys" where
  "tkl_watchdog_deinit p s = try_call p Esp_task_wdt_deinit OPRT_COM_ERROR (\<lambda>s. (OPRT_OK, s)) s"

definition tkl_cpu_sleep_mode_set :: int where
  "tkl_cpu_sleep_mode_set = OPRT_OK"

text \<open>\<open>free\<close> is \<^verbatim>\<open>xPortGetFreeHeapSize\<close>, \<open>ticks\<close> is \<^verbatim>\<open>xTaskGetTickCount\<close>, both 32 bits wide.\<close>

definition tkl_system_get_free_heap_size :: "uint32 \<Rightarrow> int" where
  "tkl_system_get_free_heap_size free = sint free"

definition tkl_system_get_tick_count :: "uint32 \<Rightarrow> 64 word" where
  "tkl_system_get_tick_count ticks = ucast ticks"

definition pdTICKS_TO_MS :: "64 word \<Rightarrow> uint32" where
  "pdTICKS_TO_MS ticks = ucast (ticks * 1000 div ucast configTICK_RATE_HZ)"

definition tkl_system_get_millisecond :: "uint32 \<Rightarrow> 64 word" where
  "tkl_system_get_millisecond ticks = ucast (pdTICKS_TO_MS (tkl_system_get_tick_count ticks))"

section \<open>Clock, log and power stubs\<close>

definition tkl_rtc_init :: int where "tkl_rtc_init = OPRT_OK"

definition tkl_rtc_time_get :: "uint32 \<Rightarrow> int \<times> uint32" where
  "tkl_rtc_time_get tv_sec = (OPRT_OK, tv_sec)"

definition tkl_rtc_time_set :: "uint32 \<Rightarrow> sys \<Rightarrow> int \<times> sys" where
  "tkl_rtc_time_set time_sec s = (OPRT_OK, issue (Settimeofday time_sec) s)"

definition tkl_rtc_deinit :: int where "tkl_rtc_deinit = OPRT_OK"

definition tkl_log_output :: "string option \<Rightarrow> sys \<Rightarrow> sys" where
  "tkl_log_output str s = (case str of None \<Rightarrow> s | Some m \<Rightarrow> issue (Esp_log m) s)"

definition tkl_log_close :: int where "tkl_log_close = OPRT_NOT_SUPPORTED"
definition tkl_log_open :: int where "tkl_log_open = OPRT_NOT_SUPPORTED"
definition tkl_cpu_sleep_callback_register :: int where
  "tkl_cpu_sleep_callback_register = OPRT_NOT_SUPPORTED"
definition tkl_cpu_allow_sleep :: "sys \<Rightarrow> sys" where "tkl_cpu_allow_sleep s = s"
definition tkl_cpu_force_wakeup :: "sys \<Rightarrow> sys" where "tkl_cpu_force_wakeup s = s"

section \<open>The file layer\<close>

text \<open>Pointers returned by the file layer as 32-bit addresses, NULL being 0.\<close>

definition tkl_fopen :: "string \<Rightarrow> string \<Rightarrow> uint32" where
  "tkl_fopen path mode = word_of_int OPRT_NOT_SUPPORTED"

definition tkl_fgets :: "uint32 \<Rightarrow> uint32" where
  "tkl_fgets file = word_of_int OPRT_NOT_SUPPORTED"

text \<open>Out pointers, which the stubs never write, are left out of the arguments.\<close>

definition tkl_fs_mkdir :: "string \<Rightarrow> int" where
  "tkl_fs_mkdir path = OPRT_NOT_SUPPORTED"

definition tkl_fs_remove :: "string \<Rightarrow> int" where
  "tkl_fs_remove path = OPRT_NOT_SUPPORTED"

definition tkl_fs_mode :: "string \<Rightarrow> int" where
  "tkl_fs_mode path = OPRT_NOT_SUPPORTED"

definition tkl_fs_is_exist :: "string \<Rightarrow> int" where
  "tkl_fs_is_exist path = OPRT_NOT_SUPPORTED"

definition tkl_fs_rename :: "string \<Rightarrow> string \<Rightarrow> int" where
  "tkl_fs_rename path_old path_new = OPRT_NOT_SUPPORTED"

definition tkl_dir_open :: "string \<Rightarrow> int" where
  "tkl_dir_open path = OPRT_NOT_SUPPORTED"

definition tkl_dir_close :: "uint32 \<Rightarrow> int" where
  "tkl_dir_close dir = OPRT_NOT_SUPPORTED"

definition tkl_dir_read :: "uint32 \<Rightarrow> int" where
  "tkl_dir_read dir = OPRT_NOT_SUPPORTED"

definition tkl_dir_name :: "uint32 \<Rightarrow> int" where
  "tkl_dir_name info = OPRT_NOT_SUPPORTED"

definition tkl_dir_is_directory :: "uint32 \<Rightarrow> int" where
  "tkl_dir_is_directory info = OPRT_NOT_SUPPORTED"

definition tkl_dir_is_regular :: "uint32 \<Rightarrow> int" where
  "tkl_dir_is_regular info = OPRT_NOT_SUPPORTED"

definition tkl_fclose :: "uint32 \<Rightarrow> int" where
  "tkl_fclose file = OPRT_NOT_SUPPORTED"

definition tkl_fread :: "int32 \<Rightarrow> uint32 \<Rightarrow> int" where
  "tkl_fread bytes file = OPRT_NOT_SUPPORTED"

definition tkl_fwrite :: "int32 \<Rightarrow> uint32 \<Rightarrow> int" where
  "tkl_fwrite bytes file = OPRT_NOT_SUPPORTED"

definition tkl_fsync :: "int32 \<Rightarrow> int" where
  "tkl_fsync fd = OPRT_NOT_SUPPORTED"

definition tkl_feof :: "uint32 \<Rightarrow> int" where
  "tkl_feof file = OPRT_NOT_SUPPORTED"

definition tkl_fseek :: "uint32 \<Rightarrow> 64 word \<Rightarrow> int32 \<Rightarrow> int" where
  "tkl_fseek file offs whence = OPRT_NOT_SUPPORTED"

definition tkl_ftell :: "uint32 \<Rightarrow> int" where
  "tkl_ftell file = OPRT_NOT_SUPPORTED"

definition tkl_fgetsize :: "string \<Rightarrow> int" where
  "tkl_fgetsize filepath = OPRT_NOT_SUPPORTED"

definition tkl_faccess :: "string \<Rightarrow> int32 \<Rightarrow> int" where
  "tkl_faccess filepath mode = OPRT_NOT_SUPPORTED"

definition tkl_fgetc :: "uint32 \<Rightarrow> int" where
  "tkl_fgetc file = OPRT_NOT_SUPPORTED"

definition tkl_fflush :: "uint32 \<Rightarrow> int" where
  "tkl_fflush file = OPRT_NOT_SUPPORTED"

definition tkl_fileno :: "uint32 \<Rightarrow> int" where
  "tkl_fileno file = OPRT_NOT_SUPPORTED"

definition tkl_ftruncate :: "int32 \<Rightarrow> 64 word \<Rightarrow> int" where
  "tkl_ftruncate fd len = OPRT_NOT_SUPPORTED"

section \<open>What the allocator promises\<close>

definition fresh_blocks :: "allocator \<Rightarrow> bool" where
  "fresh_blocks A \<longleftrightarrow> (\<forall>h n a bs. A h n = Some (a, bs) \<longrightarrow> h a = None \<and> a \<noteq> 0 \<and> length bs = unat n)"

section \<open>Properties\<close>

text \<open>
  C40: \<^verbatim>\<open>tkl_system_realloc\<close> on a live block behaves like the standard function exactly when the block
  does not grow. If it does not grow, either the allocation fails, NULL is returned and the heap is
  unchanged, or the old block is gone, the new one holds the first \<open>n\<close> bytes of the old one and no
  other block is touched. If it grows and the allocation succeeds, the copy reads past the end of
  the old block.
\<close>

theorem realloc_exact:
  assumes "fresh_blocks A" "h old = Some bs" "n \<noteq> 0"
  shows "(unat n \<le> length bs \<longrightarrow>
      (A h n = None \<and> tkl_system_realloc A (Some old) n h = Some (None, h))
      \<or> (\<exists>new h'. tkl_system_realloc A (Some old) n h = Some (Some new, h') \<and> h new = None
           \<and> h' = h(old := None, new \<mapsto> take (unat n) bs)))
    \<and> (unat n > length bs \<and> A h n \<noteq> None \<longrightarrow> tkl_system_realloc A (Some old) n h = None)"
proof (cases "A h n")
  case None
  then show ?thesis using assms by (simp add: tkl_system_realloc_def tkl_system_malloc_def)
next
  case (Some r)
  then obtain new ns where r: "A h n = Some (new, ns)" by (cases r) simp
  then have "h new = None" "length ns = unat n" using assms(1) by (auto simp: fresh_blocks_def)
  moreover from this assms(2) have "new \<noteq> old" by auto
  ultimately show ?thesis
    using assms(2,3) r
    by (auto simp: tkl_system_realloc_def tkl_system_malloc_def memcpy_def tkl_system_free_def fun_upd_twist)
qed

definition example_alloc :: allocator where
  "example_alloc h n = (if h 8 = None then Some (8, replicate (unat n) 0xAA) else None)"

lemma fresh_example_alloc: "fresh_blocks example_alloc"
  by (simp add: fresh_blocks_def example_alloc_def)

theorem realloc_exact_witness:
  "tkl_system_realloc example_alloc (Some 4) 3 [4 \<mapsto> [1, 2]] = None
   \<and> tkl_system_realloc example_alloc (Some 4) 1 [4 \<mapsto> [1, 2]] \<noteq> None"
  using realloc_exact [of example_alloc "[4 \<mapsto> [1, 2]]" 4 "[1, 2]" 3]
    realloc_exact [of example_alloc "[4 \<mapsto> [1, 2]]" 4 "[1, 2]" 1]
    fresh_example_alloc
  by (auto simp: example_alloc_def)

text \<open>
  \<^verbatim>\<open>tkl_system_calloc\<close> never leaves its block, and the block it returns is all zero; its length is
  the product taken at 32 bits, hence the requested number of bytes exactly when the product of
  the two arguments does not overflow.
\<close>

lemma calloc_zeroed:
  assumes "fresh_blocks A"
  shows "\<exists>r. tkl_system_calloc A nitems n h = Some r
    \<and> (case r of
         (None, h') \<Rightarrow> h' = h
       | (Some a, h') \<Rightarrow> h a = None
           \<and> (\<exists>bs. h' = h(a \<mapsto> bs) \<and> set bs \<subseteq> {0}
              \<and> (length bs = unat nitems * unat n \<longleftrightarrow> unat nitems * unat n < 2 ^ 32)))"
proof (cases "A h (nitems * n)")
  case None
  then show ?thesis by (simp add: tkl_system_calloc_def tkl_system_malloc_def)
next
  case (Some r)
  then obtain a bs where r: "A h (nitems * n) = Some (a, bs)" by (cases r) simp
  then have a: "h a = None" "length bs = unat (nitems * n)"
    using assms by (auto simp: fresh_blocks_def)
  have "unat (nitems * n) = unat nitems * unat n \<longleftrightarrow> unat nitems * unat n < 2 ^ 32"
    using unat_mult_lem [of nitems n] by auto
  with r a show ?thesis
    by (auto simp: tkl_system_calloc_def tkl_system_malloc_def memset0_def)
qed

end
