(* ===== verification/Net_Addr.thy ===== *)
theory Net_Addr
  imports Prelude
begin

text \<open>
  Byte order and IPv4 text addresses: the address functions of
  \<^verbatim>\<open>tuya/tuyaos_adapter/src/system/tkl_network.c\<close> (\<^verbatim>\<open>tkl_net_addr\<close>, \<^verbatim>\<open>tkl_net_str2addr\<close>,
  \<^verbatim>\<open>tkl_net_addr2str\<close>) with the lwIP routines they call (\<^verbatim>\<open>lwip_htonl\<close>, \<^verbatim>\<open>lwip_htons\<close>,
  \<^verbatim>\<open>ip4addr_aton\<close>, \<^verbatim>\<open>ip4addr_ntoa_r\<close>). A C string is a list of characters without the final NUL.
  The interface \<open>byte_order\<close> is the law of a host/network conversion; it is interpreted for both
  widths. The main lemma is the round trip of addresses through their text form.
\<close>

section \<open>Byte order\<close>

definition lwip_htons :: "uint16 \<Rightarrow> uint16" where
  "lwip_htons x = push_bit 8 (x AND 0x00FF) OR drop_bit 8 (x AND 0xFF00)"

definition lwip_htonl :: "uint32 \<Rightarrow> uint32" where
  "lwip_htonl x = push_bit 24 (x AND 0x000000FF) OR push_bit 8 (x AND 0x0000FF00)
     OR drop_bit 8 (x AND 0x00FF0000) OR drop_bit 24 (x AND 0xFF000000)"

definition lwip_ntohs :: "uint16 \<Rightarrow> uint16" where
  "lwip_ntohs x = lwip_htons x"

definition lwip_ntohl :: "uint32 \<Rightarrow> uint32" where
  "lwip_ntohl x = lwip_htonl x"

locale byte_order =
  fixes hton ntoh :: "'a \<Rightarrow> 'a"
  assumes ntoh_hton: "ntoh (hton x) = x"
    and hton_ntoh: "hton (ntoh x) = x"
begin

lemma hton_inject: "hton x = hton y \<longleftrightarrow> x = y"
  using ntoh_hton by metis

lemma hton_eq_iff: "hton x = y \<longleftrightarrow> x = ntoh y"
  using ntoh_hton hton_ntoh by metis

end

section \<open>Reading a text address\<close>

abbreviation code :: "char \<Rightarrow> nat" where
  "code c \<equiv> of_char c"

definition lwip_isdigit :: "char \<Rightarrow> bool" where
  "lwip_isdigit c \<longleftrightarrow> 48 \<le> code c \<and> code c \<le> 57"

definition lwip_islower :: "char \<Rightarrow> bool" where
  "lwip_islower c \<longleftrightarrow> 97 \<le> code c \<and> code c \<le> 122"

definition lwip_isxdigit :: "char \<Rightarrow> bool" where
  "lwip_isxdigit c \<longleftrightarrow>
     lwip_isdigit c \<or> 97 \<le> code c \<and> code c \<le> 102 \<or> 65 \<le> code c \<and> code c \<le> 70"

definition lwip_isspace :: "char \<Rightarrow> bool" where
  "lwip_isspace c \<longleftrightarrow> code c = 32 \<or> 9 \<le> code c \<and> code c \<le> 13"

text \<open>The inner loop of \<^verbatim>\<open>ip4addr_aton\<close>: the digits of one number.\<close>

fun aton_digits :: "uint32 \<Rightarrow> uint32 \<Rightarrow> string \<Rightarrow> uint32 \<times> string" where
  "aton_digits base val [] = (val, [])"
| "aton_digits base val (c # cs) =
     (if lwip_isdigit c then aton_digits base (val * base + of_nat (code c - 48)) cs
      else if base = 16 \<and> lwip_isxdigit c
      then aton_digits base
             (push_bit 4 val OR of_nat (code c + 10 - (if lwip_islower c then 97 else 65))) cs
      else (val, c # cs))"

text \<open>The base a number is written in, and the text after its prefix.\<close>

fun aton_base :: "string \<Rightarrow> uint32 \<times> string" where
  "aton_base (c # cs) =
     (if c \<noteq> CHR ''0'' then (10, c # cs)
      else case cs of
          d # ds \<Rightarrow> if d = CHR ''x'' \<or> d = CHR ''X'' then (16, ds) else (8, cs)
        | [] \<Rightarrow> (8, []))"
| "aton_base [] = (10, [])"

text \<open>The address made of the numbers read: all but the last in \<open>parts\<close>, the last in \<open>val\<close>.\<close>

definition aton_concoct :: "uint32 list \<Rightarrow> uint32 \<Rightarrow> uint32 option" where
  "aton_concoct parts val =
     (case parts of
        [] \<Rightarrow> Some val
      | [a] \<Rightarrow> if val > 0xFFFFFF \<or> a > 0xFF then None else Some (val OR push_bit 24 a)
      | [a, b] \<Rightarrow>
          if val > 0xFFFF \<or> a > 0xFF \<or> b > 0xFF then None
          else Some (val OR (push_bit 24 a OR push_bit 16 b))
      | [a, b, c] \<Rightarrow>
          if val > 0xFF \<or> a > 0xFF \<or> b > 0xFF \<or> c > 0xFF then None
          else Some (val OR (push_bit 24 a OR push_bit 16 b OR push_bit 8 c))
      | _ \<Rightarrow> None)"

lemma aton_digits_shorter: "length (snd (aton_digits base val cs)) \<le> length cs"
  by (induction base val cs rule: aton_digits.induct) auto

lemma aton_base_shorter: "length (snd (aton_base cs)) \<le> length cs"
  by (cases cs rule: aton_base.cases) (auto split: list.split)

text \<open>The outer loop of \<^verbatim>\<open>ip4addr_aton\<close>: numbers separated by dots, at most four.\<close>

function aton_parts :: "uint32 list \<Rightarrow> string \<Rightarrow> (uint32 list \<times> uint32 \<times> string) option" where
  "aton_parts parts cs =
     (if cs = [] \<or> \<not> lwip_isdigit (hd cs) then None
      else
        let (base, cs1) = aton_base cs; (val, cs2) = aton_digits base 0 cs1
        in case cs2 of
             [] \<Rightarrow> Some (parts, val, [])
           | c # cs3 \<Rightarrow>
               if c = CHR ''.''
               then if length parts \<ge> 3 then None else aton_parts (parts @ [val]) cs3
               else Some (parts, val, cs2))"
  by pat_completeness auto
termination
proof (relation "measure (\<lambda>(parts, cs). length cs)", goal_cases)
  case 1
  then show ?case by simp
next
  case (2 parts cs x base cs1 y val cs2 c cs3)
  then have "snd (aton_base cs) = cs1" "snd (aton_digits base 0 cs1) = c # cs3"
    by (metis snd_conv)+
  then have "length (c # cs3) \<le> length cs"
    using aton_base_shorter [of cs] aton_digits_shorter [of base 0 cs1] by simp
  then show ?case by simp
qed

declare aton_parts.simps [simp del]

text \<open>The address in network order, \<open>None\<close> for a text that is not an address.\<close>

definition ip4addr_aton :: "string \<Rightarrow> uint32 option" where
  "ip4addr_aton cp =
     (case aton_parts [] cp of
        None \<Rightarrow> None
      | Some (parts, val, rest) \<Rightarrow>
          if rest \<noteq> [] \<and> \<not> lwip_isspace (hd rest) then None
          else map_option lwip_htonl (aton_concoct parts val))"

definition ipaddr_addr :: "string \<Rightarrow> uint32" where
  "ipaddr_addr cp = (case ip4addr_aton cp of Some v \<Rightarrow> v | None \<Rightarrow> 0xFFFFFFFF)"

section \<open>Writing a text address\<close>

text \<open>The do-while loop over one byte, its digits in reading order.\<close>

function dec_digits :: "nat \<Rightarrow> string" where
  "dec_digits n =
     (if n div 10 = 0 then [char_of (48 + n mod 10)]
      else dec_digits (n div 10) @ [char_of (48 + n mod 10)])"
  by pat_completeness auto
termination
  by (relation "measure id") (auto simp: div_greater_zero_iff)

declare dec_digits.simps [simp del]

definition addr_bytes :: "uint32 \<Rightarrow> byte list" where
  "addr_bytes a = map (\<lambda>i. ucast (drop_bit (8 * i) a)) [0, 1, 2, 3]"

text \<open>Every octet is followed by a dot and the last dot becomes the NUL; \<open>None\<close> when a character
  does not fit the buffer.\<close>

definition ip4addr_ntoa_r :: "uint32 \<Rightarrow> nat \<Rightarrow> string option" where
  "ip4addr_ntoa_r a buflen =
     (let out = concat (map (\<lambda>b. dec_digits (unat b) @ ''.'') (addr_bytes a))
      in if length out > buflen then None else Some (butlast out))"

definition ip4addr_ntoa :: "uint32 \<Rightarrow> string option" where
  "ip4addr_ntoa a = ip4addr_ntoa_r a 16"

section \<open>The adapter\<close>

text \<open>A NULL pointer is \<open>None\<close>.\<close>

definition tkl_net_addr :: "string option \<Rightarrow> uint32" where
  "tkl_net_addr ip = (case ip of None \<Rightarrow> 0xFFFFFFFF | Some cp \<Rightarrow> ipaddr_addr cp)"

definition tkl_net_str2addr :: "string option \<Rightarrow> uint32" where
  "tkl_net_str2addr ip = (case ip of None \<Rightarrow> 0xFFFFFFFF | Some cp \<Rightarrow> lwip_ntohl (ipaddr_addr cp))"

text \<open>
  \<^verbatim>\<open>ip_ntoa\<close> is handed the address of a 32-bit local variable as an \<^verbatim>\<open>ip_addr_t\<close>, whose \<^verbatim>\<open>type\<close> byte
  lies past that variable: \<open>stack_type\<close> is what happens to be there, and \<open>ip6_ntoa\<close> the IPv6 printer.
\<close>

definition tkl_net_addr2str :: "byte \<Rightarrow> (uint32 \<Rightarrow> string) \<Rightarrow> uint32 \<Rightarrow> string option" where
  "tkl_net_addr2str stack_type ip6_ntoa ipaddr =
     (let addr = lwip_htonl ipaddr
      in if stack_type = 6 then Some (ip6_ntoa addr) else ip4addr_ntoa addr)"

section \<open>Byte order lemmas\<close>

text \<open>The masks select one byte each.\<close>

lemma byte_masks:
  "(0x000000FF :: uint32) = mask 8" "(0x0000FF00 :: uint32) = push_bit 8 (mask 8)"
  "(0x00FF0000 :: uint32) = push_bit 16 (mask 8)" "(0xFF000000 :: uint32) = push_bit 24 (mask 8)"
  by (simp_all add: mask_eq_exp_minus_1)

lemma byte_masks_16: "(0x00FF :: uint16) = mask 8" "(0xFF00 :: uint16) = push_bit 8 (mask 8)"
  by (simp_all add: mask_eq_exp_minus_1)

lemma bit_htonl:
  assumes "n < 32"
  shows "bit (lwip_htonl x) n \<longleftrightarrow>
    (if n < 8 then bit x (24 + n) else if n < 16 then bit x (n + 8)
     else if n < 24 then bit x (n - 8) else bit x (n - 24))"
  using assms unfolding lwip_htonl_def byte_masks
  by (auto simp: bit_simps add.commute)

lemma uint32_eqI: "(\<And>n. n < 32 \<Longrightarrow> bit x n = bit y n) \<Longrightarrow> x = y" for x y :: uint32
  by (rule bit_word_eqI) simp

lemma htonl_htonl: "lwip_htonl (lwip_htonl x) = x"
  by (rule uint32_eqI) (auto simp: bit_htonl)

lemma bit_htons:
  assumes "n < 16"
  shows "bit (lwip_htons x) n \<longleftrightarrow> (if n < 8 then bit x (8 + n) else bit x (n - 8))"
  using assms unfolding lwip_htons_def byte_masks_16
  by (auto simp: bit_simps)

lemma htons_htons: "lwip_htons (lwip_htons x) = x"
  by (rule bit_word_eqI) (auto simp: bit_htons)

interpretation order32: byte_order lwip_htonl lwip_ntohl
  by unfold_locales (simp_all add: lwip_ntohl_def htonl_htonl)

interpretation order16: byte_order lwip_htons lwip_ntohs
  by unfold_locales (simp_all add: lwip_ntohs_def htons_htons)

text \<open>The bytes of an address in memory, put together again by \<^verbatim>\<open>ip4addr_aton\<close>.\<close>

definition octet :: "uint32 \<Rightarrow> nat \<Rightarrow> uint32" where
  "octet a i = ucast (ucast (drop_bit (8 * i) a) :: byte)"

lemma htonl_octets:
  "lwip_htonl (octet a 3 OR (push_bit 24 (octet a 0) OR push_bit 16 (octet a 1)
     OR push_bit 8 (octet a 2))) = a"
  by (rule uint32_eqI) (auto simp: bit_htonl octet_def bit_simps)

lemma octet_le: "\<not> octet a i > 0xFF"
proof -
  have "octet a i = take_bit 8 (drop_bit (8 * i) a)"
    by (rule bit_word_eqI) (auto simp: octet_def bit_simps)
  then have "uint (octet a i) = take_bit 8 (uint (drop_bit (8 * i) a))"
    by (simp add: unsigned_take_bit_eq)
  then have "uint (octet a i) < 256"
    using take_bit_int_less_exp [of 8 "uint (drop_bit (8 * i) a)"] by simp
  then show ?thesis by (simp add: word_less_def)
qed

section \<open>Reading back what was written\<close>

lemma code_digit [simp]: "n < 10 \<Longrightarrow> code (char_of (48 + n)) = 48 + n" for n :: nat
  by (simp add: of_char_of)

lemma digit_is_digit [simp]: "n < 10 \<Longrightarrow> lwip_isdigit (char_of (48 + n))" for n :: nat
  by (simp add: lwip_isdigit_def)

lemma dec_digits_are_digits: "list_all lwip_isdigit (dec_digits n)"
  by (induction n rule: dec_digits.induct) (subst dec_digits.simps, simp)

definition dec_value :: "uint32 \<Rightarrow> string \<Rightarrow> uint32" where
  "dec_value v cs = foldl (\<lambda>v c. v * 10 + of_nat (code c - 48)) v cs"

lemma aton_digits_run:
  "list_all lwip_isdigit cs \<Longrightarrow> aton_digits 10 v (cs @ rest) = aton_digits 10 (dec_value v cs) rest"
  by (induction cs arbitrary: v) (simp_all add: dec_value_def)

lemma dec_value_digits: "dec_value 0 (dec_digits n) = of_nat n"
proof (induction n rule: dec_digits.induct)
  case (1 n)
  have split: "(of_nat n :: uint32) = of_nat (n div 10) * 10 + of_nat (n mod 10)"
    using arg_cong [OF div_mult_mod_eq [of n 10], of "of_nat :: nat \<Rightarrow> uint32"]
    by (simp only: of_nat_add of_nat_mult of_nat_numeral)
  show ?case
  proof (cases "n div 10 = 0")
    case True
    then show ?thesis by (subst dec_digits.simps) (simp add: dec_value_def)
  next
    case False
    with 1 have "dec_value 0 (dec_digits (n div 10)) = of_nat (n div 10)" by simp
    with False split show ?thesis
      by (subst dec_digits.simps) (simp add: dec_value_def)
  qed
qed

lemma dec_digits_head:
  "\<exists>c cs. dec_digits n = c # cs \<and> lwip_isdigit c \<and> (c = CHR ''0'' \<longrightarrow> n = 0)"
proof (induction n rule: dec_digits.induct)
  case (1 n)
  show ?case
  proof (cases "n div 10 = 0")
    case True
    then have "n < 10" by (simp add: div_eq_0_iff)
    moreover have "n = 0" if "char_of (48 + n) = CHR ''0''"
      using arg_cong [OF that, of "of_char :: char \<Rightarrow> nat"] code_digit [OF \<open>n < 10\<close>] by simp
    ultimately show ?thesis using True by (subst dec_digits.simps) simp
  next
    case False
    with 1 obtain c cs where "dec_digits (n div 10) = c # cs" "lwip_isdigit c"
      "c = CHR ''0'' \<longrightarrow> n div 10 = 0" by auto
    with False show ?thesis by (subst dec_digits.simps) simp
  qed
qed


lemma dec_digits_0: "dec_digits 0 = ''0''"
  by code_simp

lemma aton_number:
  assumes "rest = [] \<or> (\<exists>r. rest = CHR ''.'' # r)"
  shows "(case aton_base (dec_digits n @ rest) of (base, cs) \<Rightarrow> aton_digits base 0 cs) = (of_nat n, rest)"
proof (cases "n = 0")
  case True
  then show ?thesis using assms
    by (auto simp: dec_digits_0 lwip_isdigit_def)
next
  case False
  then obtain c cs where "dec_digits n = c # cs" "c \<noteq> CHR ''0''" using dec_digits_head [of n] by auto
  then have "aton_base (dec_digits n @ rest) = (10, dec_digits n @ rest)" by simp
  moreover have "aton_digits 10 (of_nat n) rest = (of_nat n, rest)"
    using assms by (auto simp: lwip_isdigit_def)
  ultimately show ?thesis
    by (simp add: aton_digits_run [OF dec_digits_are_digits] dec_value_digits)
qed

lemma dec_digits_start: "dec_digits n @ rest \<noteq> []" "lwip_isdigit (hd (dec_digits n @ rest))"
  using dec_digits_head [of n] by auto

lemma aton_parts_dot:
  "length parts < 3 \<Longrightarrow>
   aton_parts parts (dec_digits n @ CHR ''.'' # r) = aton_parts (parts @ [of_nat n]) r"
  using aton_number [of "CHR ''.'' # r" n] dec_digits_start [of n "CHR ''.'' # r"]
  by (subst aton_parts.simps) (simp add: Let_def split: prod.split_asm)

lemma aton_parts_last: "aton_parts parts (dec_digits n) = Some (parts, of_nat n, [])"
  using aton_number [of "[]" n] dec_digits_start [of n "[]"]
  by (subst aton_parts.simps) (simp add: Let_def split: prod.split_asm)

lemma dec_digits_length: "n < 10 ^ Suc k \<Longrightarrow> length (dec_digits n) \<le> Suc k"
proof (induction k arbitrary: n)
  case 0
  then show ?case by (subst dec_digits.simps) simp
next
  case (Suc k)
  then have "n div 10 < 10 ^ Suc k" by (simp add: div_less_iff_less_mult)
  with Suc.IH show ?case by (subst dec_digits.simps) simp
qed

lemma unat_octet: "unat (octet a i) = unat (ucast (drop_bit (8 * i) a) :: byte)"
  by (simp only: octet_def unat_ucast_byte)

lemma octet_digits: "length (dec_digits (unat (octet a i))) \<le> 3"
proof -
  have "unat (octet a i) < 256"
    using octet_le [of a i] unat_less_32 [of "octet a i"] by (simp add: word_less_nat_alt not_less)
  then show ?thesis using dec_digits_length [of "unat (octet a i)" 2] by simp
qed

text \<open>The buffer of 16 characters is always large enough.\<close>

lemma ntoa_text:
  "ip4addr_ntoa a = Some (dec_digits (unat (octet a 0)) @ CHR ''.'' # dec_digits (unat (octet a 1))
     @ CHR ''.'' # dec_digits (unat (octet a 2)) @ CHR ''.'' # dec_digits (unat (octet a 3)))"
  using octet_digits [of a 0] octet_digits [of a 1] octet_digits [of a 2] octet_digits [of a 3]
  by (simp add: ip4addr_ntoa_def ip4addr_ntoa_r_def addr_bytes_def butlast_append
      unat_octet [of a 0, simplified, symmetric] unat_octet [of a 1, simplified, symmetric]
      unat_octet [of a 2, simplified, symmetric] unat_octet [of a 3, simplified, symmetric])

lemma aton_ntoa: "\<exists>cp. ip4addr_ntoa a = Some cp \<and> ipaddr_addr cp = a"
  using octet_le [of a] htonl_octets [of a]
  by (simp add: ntoa_text ipaddr_addr_def ip4addr_aton_def aton_parts_dot aton_parts_last
      aton_concoct_def)

section \<open>Properties\<close>

text \<open>
  C10: IPv4 addresses survive their text form. For every 32-bit address \<^verbatim>\<open>tkl_net_addr2str\<close> yields a
  text (the 16-byte buffer never overflows) and \<^verbatim>\<open>tkl_net_str2addr\<close> reads it back as the same
  address, as long as the byte past the local variable, which \<^verbatim>\<open>ip_ntoa\<close> takes for the address
  type, does not happen to be the IPv6 tag.
\<close>

theorem addr_text_round_trip:
  assumes "stack_type \<noteq> 6"
  shows "\<exists>cp. tkl_net_addr2str stack_type ip6_ntoa a = Some cp \<and> tkl_net_str2addr (Some cp) = a
    \<and> tkl_net_addr (Some cp) = lwip_htonl a"
  using assms aton_ntoa [of "lwip_htonl a"] order32.ntoh_hton
  by (auto simp: tkl_net_addr2str_def tkl_net_str2addr_def tkl_net_addr_def)

theorem addr_text_round_trip_witness:
  "\<exists>cp. tkl_net_addr2str 0 (\<lambda>_. []) 0xC0A80101 = Some cp \<and> tkl_net_str2addr (Some cp) = 0xC0A80101
    \<and> tkl_net_addr (Some cp) = lwip_htonl 0xC0A80101"
  by (rule addr_text_round_trip) simp

end
