(* ===== verification/Network.thy ===== *)
theory Network
  imports Net_Addr "HOL-Library.Signed_Division"
begin

text \<open>
  The socket adapter, \<^verbatim>\<open>tuya/tuyaos_adapter/src/system/tkl_network.c\<close>: the translation of \<^verbatim>\<open>errno\<close>,
  descriptor sets, and one operation per socket call. lwIP's answers are a parameter; the state is
  the list of socket calls, shared with the TLS socket layer in \<open>Net_Sockets\<close>. Two interfaces are
  stated: \<open>fd_set_ops\<close>, the laws of descriptor sets, and \<open>fd_guard\<close>, the refusal of a negative
  descriptor, which is interpreted for every operation that has the check.
\<close>

section \<open>Socket calls\<close>

datatype sockopt =
  SO_RCVTIMEO | SO_SNDTIMEO | SO_RCVBUF | SO_SNDBUF | SO_REUSEADDR | SO_BROADCAST | SO_KEEPALIVE
  | SO_TYPE | TCP_NODELAY | TCP_KEEPIDLE | TCP_KEEPINTVL | TCP_KEEPCNT | Raw_opt int int

datatype sock_kind = SOCK_STREAM | SOCK_DGRAM | SOCK_RAW
datatype sock_proto = IPPROTO_IP | IPPROTO_ICMP | IPPROTO_TCP | IPPROTO_UDP

text \<open>An address and a port in network order, as in \<^verbatim>\<open>struct sockaddr_in\<close>.\<close>

type_synonym sockaddr_in = "uint32 \<times> uint16"

type_synonym fd_set = "uint32 list"

text \<open>Seconds and microseconds.\<close>

type_synonym timeval = "int \<times> int"

datatype (plugins only: code) net_call =
  Socket sock_kind sock_proto
  | Connect int sockaddr_in
  | Connect_raw int "byte list" int
  | Bind int sockaddr_in
  | Listen int int
  | Accept int
  | Send int "byte list"
  | Sendto int "byte list" sockaddr_in
  | Recv int nat
  | Recvfrom int nat
  | Recvfrom_peek int
  | Select int "fd_set option" "fd_set option" "fd_set option" "timeval option"
  | Shutdown int int
  | Close int
  | Fcntl_getfl int
  | Fcntl_setfl int int32
  | Setsockopt int sockopt "int list"
  | Getsockopt int sockopt
  | Getsockname int
  | Gethostbyname string
  | Getaddrinfo string string sock_kind sock_proto
  | Freeaddrinfo
  | Sock_read int nat
  | Sock_write int "byte list"
  | Sleep_ms nat

text \<open>
  \<open>net_ret\<close> is the return value of a call, \<open>net_errno\<close> the value of \<^verbatim>\<open>errno\<close> after the calls so far,
  \<open>peer\<close> the address a call stores, \<open>rx\<close> the bytes it delivers, \<open>ready\<close> the sets \<^verbatim>\<open>select\<close> leaves,
  \<open>host_addr\<close> the first address of a host entry (\<open>None\<close> for NULL).
\<close>

record net_platform =
  net_ret :: "net_call list \<Rightarrow> net_call \<Rightarrow> int"
  net_errno :: "net_call list \<Rightarrow> int"
  peer :: "net_call list \<Rightarrow> net_call \<Rightarrow> sockaddr_in"
  rx :: "net_call list \<Rightarrow> net_call \<Rightarrow> byte list"
  ready :: "net_call list \<Rightarrow> net_call \<Rightarrow> fd_set \<times> fd_set \<times> fd_set"
  host_addr :: "net_call list \<Rightarrow> string \<Rightarrow> uint32 option"

type_synonym net = "net_call machine"

definition UNW_SUCCESS :: int where [simp]: "UNW_SUCCESS = 0"
definition UNW_FAIL :: int where [simp]: "UNW_FAIL = - 1"
definition OPRT_OS_ADAPTER_INVALID_PARM :: int where [simp]: "OPRT_OS_ADAPTER_INVALID_PARM = - 0x6901"

text \<open>A call whose return value is the result.\<close>

definition direct_call :: "net_platform \<Rightarrow> net_call \<Rightarrow> net \<Rightarrow> int \<times> net" where
  "direct_call p c s = (net_ret p (calls s) c, issue c s)"

section \<open>Error numbers\<close>

datatype (plugins only: code) errno =
  EINTR | EBADF | EAGAIN | EFAULT | EBUSY | EINVAL | ENFILE | EMFILE | ENOSPC | EPIPE | EWOULDBLOCK
  | ENOTSOCK | ENOPROTOOPT | EADDRINUSE | EADDRNOTAVAIL | ENETDOWN | ENETUNREACH | ENETRESET
  | ECONNRESET | ENOBUFS | EISCONN | ENOTCONN | ETIMEDOUT | ECONNREFUSED | EHOSTDOWN
  | EHOSTUNREACH | ENOMEM | EMSGSIZE

definition UNW_EINTR :: int where [simp]: "UNW_EINTR = - 2"
definition UNW_EAGAIN :: int where [simp]: "UNW_EAGAIN = - 4"
definition UNW_EWOULDBLOCK :: int where [simp]: "UNW_EWOULDBLOCK = - 12"

definition unw_errno_trans :: "(errno \<times> int) list" where
  "unw_errno_trans =
    [(EINTR, UNW_EINTR), (EBADF, - 3), (EAGAIN, UNW_EAGAIN), (EFAULT, - 5), (EBUSY, - 6),
     (EINVAL, - 7), (ENFILE, - 8), (EMFILE, - 9), (ENOSPC, - 10), (EPIPE, - 11),
     (EWOULDBLOCK, UNW_EWOULDBLOCK), (ENOTSOCK, - 13), (ENOPROTOOPT, - 14), (EADDRINUSE, - 15),
     (EADDRNOTAVAIL, - 16), (ENETDOWN, - 17), (ENETUNREACH, - 18), (ENETRESET, - 19),
     (ECONNRESET, - 20), (ENOBUFS, - 21), (EISCONN, - 22), (ENOTCONN, - 23), (ETIMEDOUT, - 24),
     (ECONNREFUSED, - 25), (EHOSTDOWN, - 26), (EHOSTUNREACH, - 27), (ENOMEM, - 28), (EMSGSIZE, - 29)]"

text \<open>\<open>sys\<close> gives the numbers of the C library's \<^verbatim>\<open>errno.h\<close>.\<close>

type_synonym errno_numbers = "errno \<Rightarrow> int"

definition tkl_net_get_errno :: "errno_numbers \<Rightarrow> int \<Rightarrow> int" where
  "tkl_net_get_errno sys sys_err =
     (case find (\<lambda>(e, priv). sys e = sys_err) unw_errno_trans of
        Some (e, priv) \<Rightarrow> priv
      | None \<Rightarrow> - 100 - sys_err)"

section \<open>Descriptor sets\<close>

definition FD_SET :: "int \<Rightarrow> fd_set \<Rightarrow> fd_set" where
  "FD_SET fd f = (let n = nat fd in
     if n < 64 then f[n div 32 := f ! (n div 32) OR push_bit (n mod 32) 1] else f)"

definition FD_CLR :: "int \<Rightarrow> fd_set \<Rightarrow> fd_set" where
  "FD_CLR fd f = (let n = nat fd in
     if n < 64 then f[n div 32 := f ! (n div 32) AND NOT (push_bit (n mod 32) 1)] else f)"

definition FD_ISSET :: "int \<Rightarrow> fd_set \<Rightarrow> int" where
  "FD_ISSET fd f = (let n = nat fd in
     if n < 64 then sint (f ! (n div 32) AND push_bit (n mod 32) 1) else 0)"

definition FD_ZERO :: fd_set where
  "FD_ZERO = [0, 0]"

text \<open>A set pointer that is not NULL is \<open>Some\<close> of its contents; the second result is its contents
  afterwards.\<close>

definition tkl_net_fd_set :: "int \<Rightarrow> fd_set option \<Rightarrow> int \<times> fd_set option" where
  "tkl_net_fd_set fd fds =
     (case fds of
        None \<Rightarrow> (- 3000 + fd, None)
      | Some f \<Rightarrow> if fd < 0 then (- 3000 + fd, fds) else (UNW_SUCCESS, Some (FD_SET fd f)))"

definition tkl_net_fd_clear :: "int \<Rightarrow> fd_set option \<Rightarrow> int \<times> fd_set option" where
  "tkl_net_fd_clear fd fds =
     (case fds of
        None \<Rightarrow> (- 3000 + fd, None)
      | Some f \<Rightarrow> if fd < 0 then (- 3000 + fd, fds) else (UNW_SUCCESS, Some (FD_CLR fd f)))"

definition tkl_net_fd_isset :: "int \<Rightarrow> fd_set option \<Rightarrow> int" where
  "tkl_net_fd_isset fd fds =
     (case fds of
        None \<Rightarrow> - 3000 + fd
      | Some f \<Rightarrow> if fd < 0 then - 3000 + fd else FD_ISSET fd f)"

definition tkl_net_fd_zero :: "fd_set option \<Rightarrow> int \<times> fd_set option" where
  "tkl_net_fd_zero fds =
     (case fds of None \<Rightarrow> (- 1, None) | Some f \<Rightarrow> (UNW_SUCCESS, Some FD_ZERO))"

text \<open>The timeout is passed on only when it is not 0; the sets are those \<^verbatim>\<open>select\<close> leaves.\<close>

definition tkl_net_select ::
  "net_platform \<Rightarrow> int \<Rightarrow> fd_set option \<Rightarrow> fd_set option \<Rightarrow> fd_set option \<Rightarrow> uint32 \<Rightarrow> net
   \<Rightarrow> (int \<times> (fd_set \<times> fd_set \<times> fd_set) option) \<times> net" where
  "tkl_net_select p maxfd readfds writefds errorfds ms_timeout s =
     (if maxfd \<le> 0 then ((- 3000 + maxfd, None), s)
      else
        let tv = (uint (ms_timeout div 1000), uint ((ms_timeout mod 1000) * 1000));
            c = Select maxfd readfds writefds errorfds (if ms_timeout \<noteq> 0 then Some tv else None)
        in ((net_ret p (calls s) c, Some (ready p (calls s) c)), issue c s))"

section \<open>Sockets\<close>

definition tkl_net_close :: "net_platform \<Rightarrow> int \<Rightarrow> net \<Rightarrow> int \<times> net" where
  "tkl_net_close p fd s = (if fd < 0 then (- 3000 + fd, s) else direct_call p (Close fd) s)"

definition tkl_net_shutdown :: "net_platform \<Rightarrow> int \<Rightarrow> int \<Rightarrow> net \<Rightarrow> int \<times> net" where
  "tkl_net_shutdown p fd how s =
     (if fd < 0 then (- 3000 + fd, s) else direct_call p (Shutdown fd how) s)"

datatype TUYA_PROTOCOL_TYPE_E = PROTOCOL_TCP | PROTOCOL_UDP | PROTOCOL_RAW
datatype TUYA_TRANS_TYPE_E = TRANS_RECV | TRANS_SEND

definition tkl_net_socket_create :: "net_platform \<Rightarrow> TUYA_PROTOCOL_TYPE_E \<Rightarrow> net \<Rightarrow> int \<times> net" where
  "tkl_net_socket_create p type s =
     (if type = PROTOCOL_TCP then direct_call p (Socket SOCK_STREAM IPPROTO_TCP) s
      else if type = PROTOCOL_RAW then direct_call p (Socket SOCK_RAW IPPROTO_ICMP) s
      else direct_call p (Socket SOCK_DGRAM IPPROTO_IP) s)"

definition tkl_net_connect :: "net_platform \<Rightarrow> int \<Rightarrow> uint32 \<Rightarrow> uint16 \<Rightarrow> net \<Rightarrow> int \<times> net" where
  "tkl_net_connect p fd addr port s =
     (if fd < 0 then (- 3000 + fd, s)
      else direct_call p (Connect fd (lwip_htonl addr, lwip_htons port)) s)"

definition tkl_net_connect_raw :: "net_platform \<Rightarrow> int \<Rightarrow> byte list \<Rightarrow> int \<Rightarrow> net \<Rightarrow> int \<times> net" where
  "tkl_net_connect_raw p fd p_socket_addr len s =
     (if fd < 0 then (- 3000 + fd, s) else direct_call p (Connect_raw fd p_socket_addr len) s)"

definition tkl_net_bind :: "net_platform \<Rightarrow> int \<Rightarrow> uint32 \<Rightarrow> uint16 \<Rightarrow> net \<Rightarrow> int \<times> net" where
  "tkl_net_bind p fd addr port s =
     (if fd < 0 then (- 3000 + fd, s)
      else direct_call p (Bind fd (lwip_htonl addr, lwip_htons port)) s)"

definition tkl_net_socket_bind :: "net_platform \<Rightarrow> int \<Rightarrow> string option \<Rightarrow> net \<Rightarrow> int \<times> net" where
  "tkl_net_socket_bind p fd ip s =
     (case ip of
        None \<Rightarrow> (- 3000, s)
      | Some cp \<Rightarrow>
          let c = Bind fd (ipaddr_addr cp, 0)
          in (if net_ret p (calls s) c \<noteq> 0 then UNW_FAIL else UNW_SUCCESS, issue c s))"

definition tkl_net_listen :: "net_platform \<Rightarrow> int \<Rightarrow> int \<Rightarrow> net \<Rightarrow> int \<times> net" where
  "tkl_net_listen p fd backlog s =
     (if fd < 0 then (- 3000 + fd, s) else direct_call p (Listen fd backlog) s)"

text \<open>The address and port stored for the caller, in host order, are the second component; a NULL
  out pointer (\<open>False\<close>) receives nothing.\<close>

definition host_order :: "bool \<Rightarrow> bool \<Rightarrow> sockaddr_in \<Rightarrow> uint32 option \<times> uint16 option" where
  "host_order addr port sa =
     (if addr then Some (lwip_ntohl (fst sa)) else None,
      if port then Some (lwip_ntohs (snd sa)) else None)"

definition tkl_net_accept ::
  "net_platform \<Rightarrow> int \<Rightarrow> bool \<Rightarrow> bool \<Rightarrow> net \<Rightarrow> (int \<times> uint32 option \<times> uint16 option) \<times> net" where
  "tkl_net_accept p fd addr port s =
     (if fd < 0 then ((- 3000 + fd, None, None), s)
      else let c = Accept fd; cfd = net_ret p (calls s) c
           in if cfd < 0 then ((UNW_FAIL, None, None), issue c s)
              else ((cfd, host_order addr port (peer p (calls s) c)), issue c s))"

text \<open>A NULL buffer is \<open>None\<close>.\<close>

definition tkl_net_send :: "net_platform \<Rightarrow> int \<Rightarrow> byte list option \<Rightarrow> uint32 \<Rightarrow> net \<Rightarrow> int \<times> net" where
  "tkl_net_send p fd buf nbytes s =
     (case buf of
        None \<Rightarrow> (- 3000 + fd, s)
      | Some bs \<Rightarrow>
          if fd < 0 \<or> nbytes = 0 then (- 3000 + fd, s)
          else direct_call p (Send fd (take (unat nbytes) bs)) s)"

definition tkl_net_send_to ::
  "net_platform \<Rightarrow> int \<Rightarrow> byte list option \<Rightarrow> uint32 \<Rightarrow> uint32 \<Rightarrow> uint16 \<Rightarrow> net \<Rightarrow> int \<times> net" where
  "tkl_net_send_to p fd buf nbytes addr port s =
     (case buf of
        None \<Rightarrow> (- 3000 + fd, s)
      | Some bs \<Rightarrow>
          if fd < 0 \<or> nbytes = 0 then (- 3000 + fd, s)
          else direct_call p
                 (Sendto fd (take (unat nbytes) bs) (lwip_htonl addr, lwip_htons port)) s)"

text \<open>The bytes stored in the buffer are the second component.\<close>

definition tkl_net_recv ::
  "net_platform \<Rightarrow> int \<Rightarrow> bool \<Rightarrow> uint32 \<Rightarrow> net \<Rightarrow> (int \<times> byte list) \<times> net" where
  "tkl_net_recv p fd buf nbytes s =
     (if fd < 0 \<or> \<not> buf \<or> nbytes = 0 then ((- 3000 + fd, []), s)
      else
        let fds = Some (FD_SET fd FD_ZERO);
            c = Select (fd + 1) fds None fds None;
            s1 = issue c s
        in if net_ret p (calls s) c < 0 then ((- 2, []), s1)
           else if FD_ISSET fd (snd (snd (ready p (calls s) c))) \<noteq> 0 then ((- 4, []), s1)
           else let d = Recv fd (unat nbytes)
                in ((net_ret p (calls s1) d, rx p (calls s1) d), issue d s1))"

text \<open>
  The receive loop with \<open>got\<close> the bytes stored so far (\<^verbatim>\<open>rd_size\<close> is their number); it runs as long
  as the error asks to try again, so it is given fuel and yields \<open>None\<close> when that is used up.
\<close>

fun recv_nd_loop ::
  "net_platform \<Rightarrow> errno_numbers \<Rightarrow> nat \<Rightarrow> int \<Rightarrow> nat \<Rightarrow> byte list \<Rightarrow> net \<Rightarrow> (byte list \<times> net) option"
where
  "recv_nd_loop p sys 0 fd nd_size got s = None"
| "recv_nd_loop p sys (Suc fuel) fd nd_size got s =
     (if length got \<ge> nd_size then Some (got, s)
      else
        let c = Recv fd (nd_size - length got); ret = net_ret p (calls s) c; s1 = issue c s
        in if ret \<le> 0
           then if tkl_net_get_errno sys (net_errno p (calls s1))
                     \<in> {UNW_EWOULDBLOCK, UNW_EINTR, UNW_EAGAIN}
                then recv_nd_loop p sys fuel fd nd_size got (issue (Sleep_ms 10) s1)
                else Some (got, s1)
           else recv_nd_loop p sys fuel fd nd_size (got @ take (nat ret) (rx p (calls s) c)) s1)"

definition tkl_net_recv_nd_size ::
  "net_platform \<Rightarrow> errno_numbers \<Rightarrow> nat \<Rightarrow> int \<Rightarrow> bool \<Rightarrow> uint32 \<Rightarrow> uint32 \<Rightarrow> net
   \<Rightarrow> ((int \<times> byte list) \<times> net) option" where
  "tkl_net_recv_nd_size p sys fuel fd buf buf_size nd_size s =
     (if fd < 0 \<or> \<not> buf \<or> buf_size = 0 \<or> nd_size = 0 \<or> buf_size < nd_size
      then Some ((- 3000 + fd, []), s)
      else map_option
             (\<lambda>(got, s1). ((if length got < unat nd_size then - 2 else int (length got), got), s1))
             (recv_nd_loop p sys fuel fd (unat nd_size) [] s))"

definition tkl_net_recvfrom ::
  "net_platform \<Rightarrow> int \<Rightarrow> bool \<Rightarrow> uint32 \<Rightarrow> bool \<Rightarrow> bool \<Rightarrow> net
   \<Rightarrow> (int \<times> byte list \<times> uint32 option \<times> uint16 option) \<times> net" where
  "tkl_net_recvfrom p fd buf nbytes addr port s =
     (if fd < 0 \<or> \<not> buf \<or> nbytes = 0 then ((- 3000 + fd, [], None, None), s)
      else
        let c = Recvfrom fd (unat nbytes); ret = net_ret p (calls s) c
        in if ret \<le> 0 then ((ret, [], None, None), issue c s)
           else ((ret, rx p (calls s) c, host_order addr port (peer p (calls s) c)), issue c s))"

text \<open>The value of the C library.\<close>

definition O_NONBLOCK :: int32 where [simp]: "O_NONBLOCK = 0x4000"

definition tkl_net_get_nonblock ::
  "net_platform \<Rightarrow> errno_numbers \<Rightarrow> int \<Rightarrow> net \<Rightarrow> int \<times> net" where
  "tkl_net_get_nonblock p sys fd s =
     (if fd < 0 then (- 3000 + fd, s)
      else
        let c = Fcntl_getfl fd; s1 = issue c s; e = net_errno p (calls s1)
        in if word_of_int (net_ret p (calls s) c) AND O_NONBLOCK \<noteq> O_NONBLOCK then (0, s1)
           else if e = sys EAGAIN \<or> e = sys EWOULDBLOCK then (1, s1)
           else (0, s1))"

definition tkl_net_set_block :: "net_platform \<Rightarrow> int \<Rightarrow> bool \<Rightarrow> net \<Rightarrow> int \<times> net" where
  "tkl_net_set_block p fd block s =
     (if fd < 0 then (- 3000 + fd, s)
      else
        let c = Fcntl_getfl fd; flags = word_of_int (net_ret p (calls s) c); s1 = issue c s;
            d = Fcntl_setfl fd (if block then flags AND NOT O_NONBLOCK else flags OR O_NONBLOCK)
        in (if net_ret p (calls s1) d < 0 then UNW_FAIL else UNW_SUCCESS, issue d s1))"

definition set_option :: "net_platform \<Rightarrow> int \<Rightarrow> sockopt \<Rightarrow> int list \<Rightarrow> net \<Rightarrow> int \<times> net" where
  "set_option p fd opt vals s =
     (if fd < 0 then (- 3000 + fd, s)
      else let c = Setsockopt fd opt vals
           in (if net_ret p (calls s) c \<noteq> 0 then UNW_FAIL else UNW_SUCCESS, issue c s))"

text \<open>The division of a signed timeout truncates toward zero.\<close>

definition tkl_net_set_timeout ::
  "net_platform \<Rightarrow> int \<Rightarrow> int \<Rightarrow> TUYA_TRANS_TYPE_E \<Rightarrow> net \<Rightarrow> int \<times> net" where
  "tkl_net_set_timeout p fd ms_timeout type =
     set_option p fd (if type = TRANS_RECV then SO_RCVTIMEO else SO_SNDTIMEO)
       [ms_timeout sdiv 1000, (ms_timeout smod 1000) * 1000]"

definition tkl_net_set_bufsize ::
  "net_platform \<Rightarrow> int \<Rightarrow> int \<Rightarrow> TUYA_TRANS_TYPE_E \<Rightarrow> net \<Rightarrow> int \<times> net" where
  "tkl_net_set_bufsize p fd buf_size type =
     set_option p fd (if type = TRANS_RECV then SO_RCVBUF else SO_SNDBUF) [buf_size]"

definition tkl_net_set_reuse :: "net_platform \<Rightarrow> int \<Rightarrow> net \<Rightarrow> int \<times> net" where
  "tkl_net_set_reuse p fd = set_option p fd SO_REUSEADDR [1]"

definition tkl_net_disable_nagle :: "net_platform \<Rightarrow> int \<Rightarrow> net \<Rightarrow> int \<times> net" where
  "tkl_net_disable_nagle p fd = set_option p fd TCP_NODELAY [1]"

definition tkl_net_set_boardcast :: "net_platform \<Rightarrow> int \<Rightarrow> net \<Rightarrow> int \<times> net" where
  "tkl_net_set_boardcast p fd = set_option p fd SO_BROADCAST [1]"

text \<open>All four options are set even after one has failed.\<close>

definition tkl_net_set_keepalive ::
  "net_platform \<Rightarrow> int \<Rightarrow> bool \<Rightarrow> uint32 \<Rightarrow> uint32 \<Rightarrow> uint32 \<Rightarrow> net \<Rightarrow> int \<times> net" where
  "tkl_net_set_keepalive p fd alive idle intr cnt s =
     (if fd < 0 then (- 3000 + fd, s)
      else
        let (failed, s1) = fold (\<lambda>(opt, v) (failed, s).
              let c = Setsockopt fd opt [v] in (failed \<or> net_ret p (calls s) c \<noteq> 0, issue c s))
              [(SO_KEEPALIVE, of_bool alive), (TCP_KEEPIDLE, sint idle),
               (TCP_KEEPINTVL, sint intr), (TCP_KEEPCNT, sint cnt)] (False, s)
        in (if failed then UNW_FAIL else UNW_SUCCESS, s1))"

definition tkl_net_set_broadcast :: "net_platform \<Rightarrow> int \<Rightarrow> net \<Rightarrow> int \<times> net" where
  "tkl_net_set_broadcast p fd s =
     (if fd < 0 then (- 3000 + fd, s)
      else let c = Setsockopt fd SO_BROADCAST [1]
           in (if net_ret p (calls s) c \<noteq> 0 then OPRT_COM_ERROR else OPRT_OK, issue c s))"

definition tkl_net_gethostbyname ::
  "net_platform \<Rightarrow> string option \<Rightarrow> bool \<Rightarrow> net \<Rightarrow> (int \<times> uint32 option) \<times> net" where
  "tkl_net_gethostbyname p domain addr s =
     (case domain of
        None \<Rightarrow> ((OPRT_OS_ADAPTER_INVALID_PARM, None), s)
      | Some d \<Rightarrow>
          if \<not> addr then ((OPRT_OS_ADAPTER_INVALID_PARM, None), s)
          else (case host_addr p (calls s) d of
                  None \<Rightarrow> ((UNW_FAIL, None), issue (Gethostbyname d) s)
                | Some a \<Rightarrow> ((UNW_SUCCESS, Some (lwip_ntohl a)), issue (Gethostbyname d) s)))"

definition tkl_net_get_socket_ip ::
  "net_platform \<Rightarrow> int \<Rightarrow> net \<Rightarrow> (int \<times> uint32 option) \<times> net" where
  "tkl_net_get_socket_ip p fd s =
     (let c = Getsockname fd
      in if net_ret p (calls s) c \<noteq> 0 then ((OPRT_COM_ERROR, None), issue c s)
         else ((OPRT_OK, Some (lwip_ntohl (fst (peer p (calls s) c)))), issue c s))"

definition tkl_net_set_cloexec :: "int \<Rightarrow> net \<Rightarrow> int \<times> net" where
  "tkl_net_set_cloexec fd s = (OPRT_OK, s)"

definition tkl_net_setsockopt ::
  "net_platform \<Rightarrow> int \<Rightarrow> int \<Rightarrow> int \<Rightarrow> int list \<Rightarrow> net \<Rightarrow> int \<times> net" where
  "tkl_net_setsockopt p fd level optname optval =
     direct_call p (Setsockopt fd (Raw_opt level optname) optval)"

definition tkl_net_getsockopt ::
  "net_platform \<Rightarrow> int \<Rightarrow> int \<Rightarrow> int \<Rightarrow> net \<Rightarrow> (int \<times> byte list) \<times> net" where
  "tkl_net_getsockopt p fd level optname s =
     (let c = Getsockopt fd (Raw_opt level optname)
      in ((net_ret p (calls s) c, rx p (calls s) c), issue c s))"

section \<open>Descriptor sets are sets\<close>

locale fd_set_ops =
  fixes add clr :: "int \<Rightarrow> 's \<Rightarrow> 's"
    and has :: "int \<Rightarrow> 's \<Rightarrow> bool"
    and none :: 's
    and valid :: "'s \<Rightarrow> bool"
    and fd_ok :: "int \<Rightarrow> bool"
  assumes valid_none: "valid none"
    and valid_add: "valid f \<Longrightarrow> valid (add fd f)"
    and valid_clr: "valid f \<Longrightarrow> valid (clr fd f)"
    and has_none: "fd_ok fd \<Longrightarrow> \<not> has fd none"
    and has_add: "valid f \<Longrightarrow> fd_ok fd \<Longrightarrow> fd_ok g \<Longrightarrow> has g (add fd f) \<longleftrightarrow> g = fd \<or> has g f"
    and has_clr: "valid f \<Longrightarrow> fd_ok fd \<Longrightarrow> fd_ok g \<Longrightarrow> has g (clr fd f) \<longleftrightarrow> g \<noteq> fd \<and> has g f"
begin

lemma valid_fold: "valid f \<Longrightarrow> valid (fold add fds f)"
  by (induction fds arbitrary: f) (simp_all add: valid_add)

lemma has_fold:
  "valid f \<Longrightarrow> list_all fd_ok fds \<Longrightarrow> fd_ok g \<Longrightarrow> has g (fold add fds f) \<longleftrightarrow> g \<in> set fds \<or> has g f"
  by (induction fds arbitrary: f) (auto simp: valid_add has_add)

lemma has_built: "list_all fd_ok fds \<Longrightarrow> fd_ok g \<Longrightarrow> has g (fold add fds none) \<longleftrightarrow> g \<in> set fds"
  using has_fold [OF valid_none] has_none by simp

end

abbreviation fd_in_range :: "int \<Rightarrow> bool" where
  "fd_in_range fd \<equiv> 0 \<le> fd \<and> fd < 64"

lemma and_one_bit: "(w :: uint32) AND push_bit n 1 \<noteq> 0 \<longleftrightarrow> bit w n"
  by (simp add: push_bit_of_1 and_exp_eq_0_iff_not_bit)

lemma FD_ISSET_bit:
  "fd_in_range fd \<Longrightarrow> FD_ISSET fd f \<noteq> 0 \<longleftrightarrow> bit (f ! (nat fd div 32)) (nat fd mod 32)"
  by (auto simp: FD_ISSET_def Let_def and_one_bit [symmetric] signed_eq_0_iff nat_less_iff)

lemma same_slot:
  "fd_in_range fd \<Longrightarrow> fd_in_range g \<Longrightarrow>
   nat fd div 32 = nat g div 32 \<and> nat fd mod 32 = nat g mod 32 \<longleftrightarrow> fd = g"
  by (metis div_mult_mod_eq nat_0_le)

lemma FD_SET_bits:
  assumes "length f = 2" "fd_in_range fd" "fd_in_range g"
  shows "bit (FD_SET fd f ! (nat g div 32)) (nat g mod 32)
    \<longleftrightarrow> g = fd \<or> bit (f ! (nat g div 32)) (nat g mod 32)"
  using assms same_slot [of fd g]
  by (auto simp: FD_SET_def Let_def nth_list_update bit_or_iff push_bit_of_1 bit_exp_iff)

lemma FD_CLR_bits:
  assumes "length f = 2" "fd_in_range fd" "fd_in_range g"
  shows "bit (FD_CLR fd f ! (nat g div 32)) (nat g mod 32)
    \<longleftrightarrow> g \<noteq> fd \<and> bit (f ! (nat g div 32)) (nat g mod 32)"
  using assms same_slot [of fd g]
  by (auto simp: FD_CLR_def Let_def nth_list_update bit_and_iff bit_not_iff push_bit_of_1
      bit_exp_iff bit_imp_le_length)

interpretation fd_sets: fd_set_ops FD_SET FD_CLR "\<lambda>fd f. FD_ISSET fd f \<noteq> 0" FD_ZERO
  "\<lambda>f. length f = 2" fd_in_range
proof (unfold_locales, goal_cases)
  case 1
  then show ?case by (simp add: FD_ZERO_def)
next
  case (2 f fd)
  then show ?case by (simp add: FD_SET_def Let_def)
next
  case (3 f fd)
  then show ?case by (simp add: FD_CLR_def Let_def)
next
  case (4 fd)
  then have "nat fd div 32 < 2" by auto
  then have "FD_ZERO ! (nat fd div 32) = 0" by (cases "nat fd div 32") (auto simp: FD_ZERO_def)
  then show ?case by (simp add: FD_ISSET_def Let_def)
next
  case (5 f fd g)
  then show ?case using FD_SET_bits [of f fd g] FD_ISSET_bit by simp
next
  case (6 f fd g)
  then show ?case using FD_CLR_bits [of f fd g] FD_ISSET_bit by simp
qed

section \<open>Negative descriptors\<close>

locale fd_guard =
  fixes op :: "int \<Rightarrow> 'a \<Rightarrow> net \<Rightarrow> int \<times> net"
  assumes guard: "fd < 0 \<Longrightarrow> op fd a s = (- 3000 + fd, s)"
begin

lemma refused: "fd < 0 \<Longrightarrow> fst (op fd a s) < - 3000 \<and> snd (op fd a s) = s"
  by (simp add: guard)

end

interpretation close_op: fd_guard "\<lambda>fd (a :: unit). tkl_net_close p fd" for p
  by unfold_locales (simp add: tkl_net_close_def)

interpretation shutdown_op: fd_guard "tkl_net_shutdown p" for p
  by unfold_locales (simp add: tkl_net_shutdown_def)

interpretation connect_op: fd_guard "\<lambda>fd (a, port). tkl_net_connect p fd a port" for p
  by unfold_locales (simp add: tkl_net_connect_def split_beta)

interpretation bind_op: fd_guard "\<lambda>fd (a, port). tkl_net_bind p fd a port" for p
  by unfold_locales (simp add: tkl_net_bind_def split_beta)

interpretation listen_op: fd_guard "tkl_net_listen p" for p
  by unfold_locales (simp add: tkl_net_listen_def)

interpretation accept_op: fd_guard "\<lambda>fd (a, port) s.
    (fst (fst (tkl_net_accept p fd a port s)), snd (tkl_net_accept p fd a port s))" for p
  by unfold_locales (simp add: tkl_net_accept_def split_beta)

interpretation send_op: fd_guard "\<lambda>fd (buf, n). tkl_net_send p fd buf n" for p
  by unfold_locales (simp add: tkl_net_send_def split: prod.split option.split)

interpretation send_to_op: fd_guard "\<lambda>fd (buf, n, a, port). tkl_net_send_to p fd buf n a port" for p
  by unfold_locales (simp add: tkl_net_send_to_def split: prod.split option.split)

interpretation recv_op: fd_guard "\<lambda>fd (buf, n) s.
    (fst (fst (tkl_net_recv p fd buf n s)), snd (tkl_net_recv p fd buf n s))" for p
  by unfold_locales (simp add: tkl_net_recv_def split_beta)

interpretation recvfrom_op: fd_guard "\<lambda>fd (buf, n, a, port) s.
    (fst (fst (tkl_net_recvfrom p fd buf n a port s)), snd (tkl_net_recvfrom p fd buf n a port s))" for p
  by unfold_locales (simp add: tkl_net_recvfrom_def split_beta)

interpretation nonblock_op: fd_guard "\<lambda>fd (a :: unit). tkl_net_get_nonblock p sys fd" for p sys
  by unfold_locales (simp add: tkl_net_get_nonblock_def)

interpretation set_block_op: fd_guard "tkl_net_set_block p" for p
  by unfold_locales (simp add: tkl_net_set_block_def)

interpretation option_op: fd_guard "\<lambda>fd (opt, vals). set_option p fd opt vals" for p
  by unfold_locales (simp add: set_option_def split_beta)

interpretation keepalive_op: fd_guard
  "\<lambda>fd (alive, idle, intr, cnt). tkl_net_set_keepalive p fd alive idle intr cnt" for p
  by unfold_locales (simp add: tkl_net_set_keepalive_def split_beta)

section \<open>Receiving a fixed number of bytes\<close>

text \<open>The bytes a socket has delivered over a call list.\<close>

definition deliver_step :: "net_platform \<Rightarrow> int \<Rightarrow> net_call list \<Rightarrow> net_call \<Rightarrow> byte list \<Rightarrow> byte list" where
  "deliver_step p fd tr c acc =
     (case c of
        Recv fd' n \<Rightarrow> if fd' = fd \<and> net_ret p tr c > 0 then acc @ take (nat (net_ret p tr c)) (rx p tr c)
                     else acc
      | _ \<Rightarrow> acc)"

definition delivered :: "net_platform \<Rightarrow> int \<Rightarrow> net_call list \<Rightarrow> byte list" where
  "delivered p fd tr = hist (deliver_step p fd) [] tr"

lemma deliver_sleep [simp]: "deliver_step p fd tr (Sleep_ms n) acc = acc"
  by (simp add: deliver_step_def)

lemma delivered_append [simp]:
  "delivered p fd (xs @ ys) = hist_from (deliver_step p fd) xs (delivered p fd xs) ys"
  by (simp add: delivered_def)

lemma delivered_sleep: "delivered p fd (calls (issue (Sleep_ms n) s)) = delivered p fd (calls s)"
  by simp

text \<open>What \<^verbatim>\<open>recv\<close> promises: it stores as many bytes as it returns, at most the number asked for.\<close>

definition recv_contract :: "net_platform \<Rightarrow> bool" where
  "recv_contract p \<longleftrightarrow>
     (\<forall>tr fd n. net_ret p tr (Recv fd n) \<le> int n
        \<and> (net_ret p tr (Recv fd n) > 0 \<longrightarrow>
             length (rx p tr (Recv fd n)) = nat (net_ret p tr (Recv fd n))))"

lemma recv_nd_delivers:
  assumes "recv_contract p" "recv_nd_loop p sys fuel fd nd got s = Some (got', s')" "length got \<le> nd"
  shows "\<exists>new. got' = got @ new \<and> length got' \<le> nd
    \<and> delivered p fd (calls s') = delivered p fd (calls s) @ new"
  using assms(2,3)
proof (induction fuel arbitrary: got s)
  case 0
  then show ?case by simp
next
  case (Suc fuel)
  define c where "c = Recv fd (nd - length got)"
  define ret where "ret = net_ret p (calls s) c"
  have r: "ret \<le> int (nd - length got)" "ret > 0 \<Longrightarrow> length (rx p (calls s) c) = nat ret"
    using assms(1) by (auto simp: recv_contract_def ret_def c_def)
  consider (full) "nd \<le> length got"
    | (empty) "length got < nd" "ret \<le> 0"
    | (some) "length got < nd" "ret > 0" by linarith
  then show ?case
  proof cases
    case full
    with Suc.prems show ?thesis by simp
  next
    case empty
    then have kept: "delivered p fd (calls (issue c s)) = delivered p fd (calls s)"
      by (simp add: deliver_step_def c_def ret_def)
    have "recv_nd_loop p sys fuel fd nd got (issue (Sleep_ms 10) (issue c s)) = Some (got', s')
      \<or> got' = got \<and> s' = issue c s"
      using empty Suc.prems(1)
      by (auto simp: c_def [symmetric] ret_def [symmetric] Let_def split: if_splits)
    moreover have "delivered p fd (calls (issue (Sleep_ms 10) (issue c s))) = delivered p fd (calls s)"
      by (simp only: delivered_sleep kept)
    ultimately show ?thesis
      using Suc.prems(2) Suc.IH [of got "issue (Sleep_ms 10) (issue c s)"] kept by auto
  next
    case some
    let ?got = "got @ take (nat ret) (rx p (calls s) c)"
    have "recv_nd_loop p sys fuel fd nd ?got (issue c s) = Some (got', s')"
      using some Suc.prems(1) by (simp add: c_def [symmetric] ret_def [symmetric] Let_def)
    moreover have "length ?got \<le> nd" using some r by simp
    ultimately show ?thesis
      using Suc.IH [of ?got "issue c s"] some
      by (auto simp: deliver_step_def c_def ret_def)
  qed
qed

lemma recv_nd_returns:
  assumes "recv_contract p"
    and "\<And>tr. tkl_net_get_errno sys (net_errno p tr) \<notin> {UNW_EWOULDBLOCK, UNW_EINTR, UNW_EAGAIN}"
    and "nd - length got < fuel"
  shows "\<exists>r s'. recv_nd_loop p sys fuel fd nd got s = Some (r, s') \<and>
    (length r \<ge> nd \<or> (\<exists>c. net_ret p (butlast (calls s')) c \<le> 0))"
  using assms(3)
proof (induction fuel arbitrary: got s)
  case 0
  then show ?case by simp
next
  case (Suc fuel)
  define c where "c = Recv fd (nd - length got)"
  define ret where "ret = net_ret p (calls s) c"
  have r: "ret > 0 \<Longrightarrow> length (rx p (calls s) c) = nat ret"
    using assms(1) by (auto simp: recv_contract_def ret_def c_def)
  consider (full) "nd \<le> length got" | (empty) "length got < nd" "ret \<le> 0"
    | (some) "length got < nd" "ret > 0" by linarith
  then show ?case
  proof cases
    case full
    then show ?thesis by simp
  next
    case empty
    then show ?thesis using assms(2) [of "calls (issue c s)"]
      by (auto simp: c_def [symmetric] ret_def [symmetric] Let_def intro: exI [of _ c])
  next
    case some
    let ?got = "got @ take (nat ret) (rx p (calls s) c)"
    have "nd - length ?got < fuel" using some r Suc.prems by simp
    then show ?thesis
      using Suc.IH [of ?got "issue c s"] some
      by (simp add: c_def [symmetric] ret_def [symmetric] Let_def)
  qed
qed

section \<open>Properties\<close>

text \<open>
  A descriptor set built from nothing holds exactly the descriptors put into it. After
  \<^verbatim>\<open>tkl_net_fd_zero\<close> and any sequence of \<^verbatim>\<open>tkl_net_fd_set\<close> calls with descriptors from 0 to 63,
  \<^verbatim>\<open>tkl_net_fd_isset\<close> answers non-zero for those descriptors and zero for every other one in that
  range.
\<close>

lemma fd_set_membership:
  assumes "list_all (\<lambda>fd. 0 \<le> fd \<and> fd < 64) fds" "0 \<le> g" "g < 64"
  shows "tkl_net_fd_isset g
      (fold (\<lambda>fd f. snd (tkl_net_fd_set fd f)) fds (snd (tkl_net_fd_zero (Some f0)))) \<noteq> 0
    \<longleftrightarrow> g \<in> set fds"
proof -
  have "fold (\<lambda>fd f. snd (tkl_net_fd_set fd f)) fds (Some f) = Some (fold FD_SET fds f)" for f
    using assms(1) by (induction fds arbitrary: f) (auto simp: tkl_net_fd_set_def)
  then show ?thesis
    using fd_sets.has_built [of fds g] assms by (simp add: tkl_net_fd_isset_def tkl_net_fd_zero_def)
qed


definition example_net :: net_platform where
  "example_net = \<lparr>net_ret = \<lambda>tr c. case c of Recv _ n \<Rightarrow> min 2 (int n) | _ \<Rightarrow> 0,
     net_errno = \<lambda>_. 104, peer = \<lambda>_ _. (0, 0),
     rx = \<lambda>tr c. case c of Recv _ n \<Rightarrow> take n [1, 2] | _ \<Rightarrow> [],
     ready = \<lambda>_ _. (FD_ZERO, FD_ZERO, FD_ZERO), host_addr = \<lambda>_ _. None\<rparr>"

definition example_errno :: errno_numbers where
  "example_errno e = (if e = ECONNRESET then 104 else if e = EAGAIN \<or> e = EWOULDBLOCK then 11 else 1)"


text \<open>
  The error translation is faithful. On a C library where \<^verbatim>\<open>EWOULDBLOCK\<close> is \<^verbatim>\<open>EAGAIN\<close> and the other
  names have different numbers, every name of the table is translated to its own code, the code for
  \<^verbatim>\<open>EWOULDBLOCK\<close> never appears for a non-negative error number, and a number outside the table is kept as -100 minus it.
\<close>

lemma errno_translation:
  assumes "sys EWOULDBLOCK = sys EAGAIN" "inj_on sys (- {EWOULDBLOCK})"
  shows "((e, priv) \<in> set unw_errno_trans \<and> e \<noteq> EWOULDBLOCK \<longrightarrow> tkl_net_get_errno sys (sys e) = priv)
    \<and> (0 \<le> n \<longrightarrow> tkl_net_get_errno sys n \<noteq> UNW_EWOULDBLOCK)
    \<and> (n \<notin> range sys \<longrightarrow> tkl_net_get_errno sys n = - 100 - n)"
proof -
  have sys: "sys a = sys b \<longleftrightarrow> a = b" if "a \<noteq> EWOULDBLOCK" "b \<noteq> EWOULDBLOCK" for a b
    using assms(2) that by (auto simp: inj_on_def)
  have 1: "tkl_net_get_errno sys (sys e) = priv" if "(e, priv) \<in> set unw_errno_trans" "e \<noteq> EWOULDBLOCK"
    using that by (auto simp: unw_errno_trans_def tkl_net_get_errno_def sys assms(1))
  have 2: "tkl_net_get_errno sys n \<noteq> UNW_EWOULDBLOCK" if "0 \<le> n"
    using that assms(1) by (auto simp: unw_errno_trans_def tkl_net_get_errno_def)
  have "find (\<lambda>(e, priv). sys e = n) xs = None" if "n \<notin> range sys" for xs :: "(errno \<times> int) list"
    using that by (induction xs) auto
  then show ?thesis using 1 2 by (auto simp: tkl_net_get_errno_def)
qed

end
