(* ===== verification/Net_Sockets.thy ===== *)
theory Net_Sockets
  imports Network
begin

text \<open>
  The socket layer under TLS, \<^verbatim>\<open>tuya/tuyaos_adapter/src/custom/net_sockets.c\<close> (mbed TLS adapted to
  lwIP). A context is its descriptor; the state is the list of socket calls. The lemmas follow the
  descriptors: which are open after a call list is read off the calls (\<open>open_fds\<close>), connecting and
  binding leak none on any path, and freeing a context closes it once. The interface
  \<open>opens_one\<close> is the contract connecting and binding share.
\<close>

section \<open>Data\<close>

type_synonym addrinfo = "sock_kind \<times> sock_proto \<times> sockaddr_in"

record tls_platform = net_platform +
  addrinfos :: "net_call list \<Rightarrow> net_call \<Rightarrow> addrinfo list"
  so_type :: "net_call list \<Rightarrow> int \<Rightarrow> sock_kind option"

datatype net_proto = MBEDTLS_NET_PROTO_TCP | MBEDTLS_NET_PROTO_UDP

definition MBEDTLS_ERR_NET_SOCKET_FAILED :: int where [simp]: "MBEDTLS_ERR_NET_SOCKET_FAILED = - 0x42"
definition MBEDTLS_ERR_NET_CONNECT_FAILED :: int where [simp]: "MBEDTLS_ERR_NET_CONNECT_FAILED = - 0x44"
definition MBEDTLS_ERR_NET_BIND_FAILED :: int where [simp]: "MBEDTLS_ERR_NET_BIND_FAILED = - 0x46"
definition MBEDTLS_ERR_NET_LISTEN_FAILED :: int where [simp]: "MBEDTLS_ERR_NET_LISTEN_FAILED = - 0x48"
definition MBEDTLS_ERR_NET_ACCEPT_FAILED :: int where [simp]: "MBEDTLS_ERR_NET_ACCEPT_FAILED = - 0x4A"
definition MBEDTLS_ERR_NET_RECV_FAILED :: int where [simp]: "MBEDTLS_ERR_NET_RECV_FAILED = - 0x4C"
definition MBEDTLS_ERR_NET_SEND_FAILED :: int where [simp]: "MBEDTLS_ERR_NET_SEND_FAILED = - 0x4E"
definition MBEDTLS_ERR_NET_CONN_RESET :: int where [simp]: "MBEDTLS_ERR_NET_CONN_RESET = - 0x50"
definition MBEDTLS_ERR_NET_UNKNOWN_HOST :: int where [simp]: "MBEDTLS_ERR_NET_UNKNOWN_HOST = - 0x52"
definition MBEDTLS_ERR_NET_BUFFER_TOO_SMALL :: int where [simp]: "MBEDTLS_ERR_NET_BUFFER_TOO_SMALL = - 0x43"
definition MBEDTLS_ERR_NET_INVALID_CONTEXT :: int where [simp]: "MBEDTLS_ERR_NET_INVALID_CONTEXT = - 0x45"
definition MBEDTLS_ERR_SSL_WANT_READ :: int where [simp]: "MBEDTLS_ERR_SSL_WANT_READ = - 0x6900"
definition MBEDTLS_ERR_SSL_WANT_WRITE :: int where [simp]: "MBEDTLS_ERR_SSL_WANT_WRITE = - 0x6880"
definition MBEDTLS_ERR_SSL_TIMEOUT :: int where [simp]: "MBEDTLS_ERR_SSL_TIMEOUT = - 0x6800"
definition MBEDTLS_ERR_SSL_BAD_INPUT_DATA :: int where [simp]: "MBEDTLS_ERR_SSL_BAD_INPUT_DATA = - 0x7100"
definition MBEDTLS_NET_LISTEN_BACKLOG :: int where [simp]: "MBEDTLS_NET_LISTEN_BACKLOG = 10"

section \<open>Operations\<close>

definition net_prepare :: int where [simp]: "net_prepare = 0"

definition mbedtls_net_init :: int where
  "mbedtls_net_init = - 1"

fun proto_kind :: "net_proto \<Rightarrow> sock_kind \<times> sock_proto" where
  "proto_kind MBEDTLS_NET_PROTO_UDP = (SOCK_DGRAM, IPPROTO_UDP)"
| "proto_kind MBEDTLS_NET_PROTO_TCP = (SOCK_STREAM, IPPROTO_TCP)"

text \<open>Name resolution, the walk over the addresses, and the release of the list. The walk gets the
  code to return when nothing was tried and the descriptor of the context.\<close>

definition with_addrinfo ::
  "tls_platform \<Rightarrow> string \<Rightarrow> string \<Rightarrow> net_proto \<Rightarrow> int
   \<Rightarrow> (addrinfo list \<Rightarrow> int \<Rightarrow> int \<Rightarrow> net \<Rightarrow> int \<times> int \<times> net) \<Rightarrow> net \<Rightarrow> int \<times> int \<times> net" where
  "with_addrinfo p host port proto ctx walk s =
     (if net_prepare \<noteq> 0 then (net_prepare, ctx, s)
      else
        let (k, pr) = proto_kind proto; c = Getaddrinfo host port k pr; s1 = issue c s
        in if net_ret p (calls s) c \<noteq> 0 then (MBEDTLS_ERR_NET_UNKNOWN_HOST, ctx, s1)
           else let (ret, ctx', s2) =
                  walk (addrinfos p (calls s) c) MBEDTLS_ERR_NET_UNKNOWN_HOST ctx s1
                in (ret, ctx', issue Freeaddrinfo s2))"

fun connect_walk ::
  "tls_platform \<Rightarrow> addrinfo list \<Rightarrow> int \<Rightarrow> int \<Rightarrow> net \<Rightarrow> int \<times> int \<times> net" where
  "connect_walk p [] ret ctx s = (ret, ctx, s)"
| "connect_walk p ((k, pr, sa) # cur) ret ctx s =
     (let c = Socket k pr; fd = net_ret p (calls s) c; s1 = issue c s
      in if fd < 0 then connect_walk p cur MBEDTLS_ERR_NET_SOCKET_FAILED ctx s1
         else let d = Connect fd sa; s2 = issue d s1
              in if net_ret p (calls s1) d = 0 then (0, fd, s2)
                 else connect_walk p cur MBEDTLS_ERR_NET_CONNECT_FAILED ctx (issue (Close fd) s2))"

definition mbedtls_net_connect ::
  "tls_platform \<Rightarrow> int \<Rightarrow> string \<Rightarrow> string \<Rightarrow> net_proto \<Rightarrow> net \<Rightarrow> int \<times> int \<times> net" where
  "mbedtls_net_connect p ctx host port proto s =
     with_addrinfo p host port proto ctx (connect_walk p) s"

fun bind_walk ::
  "tls_platform \<Rightarrow> net_proto \<Rightarrow> addrinfo list \<Rightarrow> int \<Rightarrow> int \<Rightarrow> net \<Rightarrow> int \<times> int \<times> net" where
  "bind_walk p proto [] ret ctx s = (ret, ctx, s)"
| "bind_walk p proto ((k, pr, sa) # cur) ret ctx s =
     (let c = Socket k pr; fd = net_ret p (calls s) c; s1 = issue c s
      in if fd < 0 then bind_walk p proto cur MBEDTLS_ERR_NET_SOCKET_FAILED ctx s1
         else let o1 = Setsockopt fd SO_REUSEADDR [1]; s2 = issue o1 s1
         in if net_ret p (calls s1) o1 \<noteq> 0
            then bind_walk p proto cur MBEDTLS_ERR_NET_SOCKET_FAILED ctx (issue (Close fd) s2)
            else let b = Bind fd (lwip_htonl 0, snd sa); s3 = issue b s2
            in if net_ret p (calls s2) b \<noteq> 0
               then bind_walk p proto cur MBEDTLS_ERR_NET_BIND_FAILED ctx (issue (Close fd) s3)
               else if proto = MBEDTLS_NET_PROTO_TCP
               then let l = Listen fd MBEDTLS_NET_LISTEN_BACKLOG; s4 = issue l s3
                    in if net_ret p (calls s3) l \<noteq> 0
                       then bind_walk p proto cur MBEDTLS_ERR_NET_LISTEN_FAILED ctx (issue (Close fd) s4)
                       else (0, fd, s4)
               else (0, fd, s3))"

definition mbedtls_net_bind ::
  "tls_platform \<Rightarrow> int \<Rightarrow> string \<Rightarrow> string \<Rightarrow> net_proto \<Rightarrow> net \<Rightarrow> int \<times> int \<times> net" where
  "mbedtls_net_bind p ctx bind_ip port proto s =
     with_addrinfo p bind_ip port proto ctx (bind_walk p proto) s"

definition net_would_block :: "tls_platform \<Rightarrow> errno_numbers \<Rightarrow> net \<Rightarrow> bool" where
  "net_would_block p sys s \<longleftrightarrow>
     net_errno p (calls s) = sys EAGAIN \<or> net_errno p (calls s) = sys EWOULDBLOCK"

text \<open>
  The descriptors of both contexts after the call come back beside the result; the last component of
  the result is the client address and the length stored for the caller, \<open>None\<close> when nothing is.
\<close>

definition accept_peer ::
  "tls_platform \<Rightarrow> net_call \<Rightarrow> nat option \<Rightarrow> net_call list \<Rightarrow> int \<times> uint32 option \<times> nat option" where
  "accept_peer p c client_ip tr =
     (case client_ip of
        None \<Rightarrow> (0, None, None)
      | Some buf_size \<Rightarrow>
          if buf_size < 4 then (MBEDTLS_ERR_NET_BUFFER_TOO_SMALL, None, Some 4)
          else (0, Some (fst (peer p tr c)), Some 4))"

definition mbedtls_net_accept ::
  "tls_platform \<Rightarrow> errno_numbers \<Rightarrow> int \<Rightarrow> int \<Rightarrow> nat option \<Rightarrow> net
   \<Rightarrow> (int \<times> uint32 option \<times> nat option) \<times> (int \<times> int) \<times> net" where
  "mbedtls_net_accept p sys bind_ctx client_ctx client_ip s =
     (let g = Getsockopt bind_ctx SO_TYPE; s1 = issue g s;
          refused = (\<lambda>s'. if net_would_block p sys s' then (MBEDTLS_ERR_SSL_WANT_READ, None, None)
                          else (MBEDTLS_ERR_NET_ACCEPT_FAILED, None, None))
      in if net_ret p (calls s) g \<noteq> 0 \<or> so_type p (calls s) bind_ctx \<notin> {Some SOCK_STREAM, Some SOCK_DGRAM}
         then ((MBEDTLS_ERR_NET_ACCEPT_FAILED, None, None), (bind_ctx, client_ctx), s1)
         else if so_type p (calls s) bind_ctx = Some SOCK_STREAM
         then let a = Accept bind_ctx; ret = net_ret p (calls s1) a; s2 = issue a s1
              in if ret < 0 then (refused s2, (bind_ctx, ret), s2)
                 else (accept_peer p a client_ip (calls s1), (bind_ctx, ret), s2)
         else
           let a = Recvfrom_peek bind_ctx; ret = net_ret p (calls s1) a; s2 = issue a s1
           in if ret < 0 then (refused s2, (bind_ctx, client_ctx), s2)
              else let d = Connect bind_ctx (peer p (calls s1) a); s3 = issue d s2
              in if net_ret p (calls s2) d \<noteq> 0
                 then ((MBEDTLS_ERR_NET_ACCEPT_FAILED, None, None), (bind_ctx, client_ctx), s3)
                 else let e = Getsockname bind_ctx; s4 = issue e s3; local_addr = peer p (calls s3) e
                 in if net_ret p (calls s3) e \<noteq> 0
                    then ((MBEDTLS_ERR_NET_SOCKET_FAILED, None, None), (- 1, bind_ctx), s4)
                    else let f = Socket SOCK_DGRAM IPPROTO_UDP; nfd = net_ret p (calls s4) f; s5 = issue f s4
                    in if nfd < 0 then ((MBEDTLS_ERR_NET_SOCKET_FAILED, None, None), (nfd, bind_ctx), s5)
                       else let h = Setsockopt nfd SO_REUSEADDR [1]; s6 = issue h s5
                       in if net_ret p (calls s5) h \<noteq> 0
                          then ((MBEDTLS_ERR_NET_SOCKET_FAILED, None, None), (nfd, bind_ctx), s6)
                          else let b = Bind nfd local_addr; s7 = issue b s6
                          in if net_ret p (calls s6) b \<noteq> 0
                             then ((MBEDTLS_ERR_NET_BIND_FAILED, None, None), (nfd, bind_ctx), s7)
                             else (accept_peer p a client_ip (calls s1), (nfd, bind_ctx), s7))"

definition set_flags :: "tls_platform \<Rightarrow> int \<Rightarrow> (int32 \<Rightarrow> int32) \<Rightarrow> net \<Rightarrow> int \<times> net" where
  "set_flags p ctx change s =
     (let g = Fcntl_getfl ctx; s1 = issue g s;
          d = Fcntl_setfl ctx (change (word_of_int (net_ret p (calls s) g)))
      in (net_ret p (calls s1) d, issue d s1))"

definition mbedtls_net_set_block :: "tls_platform \<Rightarrow> int \<Rightarrow> net \<Rightarrow> int \<times> net" where
  "mbedtls_net_set_block p ctx = set_flags p ctx (\<lambda>f. f AND NOT O_NONBLOCK)"

definition mbedtls_net_set_nonblock :: "tls_platform \<Rightarrow> int \<Rightarrow> net \<Rightarrow> int \<times> net" where
  "mbedtls_net_set_nonblock p ctx = set_flags p ctx (\<lambda>f. f OR O_NONBLOCK)"

definition mbedtls_net_usleep :: "uint32 \<Rightarrow> net \<Rightarrow> net" where
  "mbedtls_net_usleep usec s =
     issue (Select 0 None None None (Some (uint (usec div 1000000), uint (usec mod 1000000)))) s"

text \<open>The bytes read are the second component.\<close>

definition mbedtls_net_recv ::
  "tls_platform \<Rightarrow> errno_numbers \<Rightarrow> int \<Rightarrow> nat \<Rightarrow> net \<Rightarrow> (int \<times> byte list) \<times> net" where
  "mbedtls_net_recv p sys fd len s =
     (if fd < 0 then ((MBEDTLS_ERR_NET_INVALID_CONTEXT, []), s)
      else
        let c = Sock_read fd len; ret = net_ret p (calls s) c; s1 = issue c s; e = net_errno p (calls s1)
        in if ret < 0
           then ((if net_would_block p sys s1 then MBEDTLS_ERR_SSL_WANT_READ
                  else if e = sys EPIPE \<or> e = sys ECONNRESET then MBEDTLS_ERR_NET_CONN_RESET
                  else if e = sys EINTR then MBEDTLS_ERR_SSL_WANT_READ
                  else MBEDTLS_ERR_NET_RECV_FAILED, []), s1)
           else ((ret, rx p (calls s) c), s1))"

definition mbedtls_net_recv_timeout ::
  "tls_platform \<Rightarrow> errno_numbers \<Rightarrow> int \<Rightarrow> nat \<Rightarrow> uint32 \<Rightarrow> net \<Rightarrow> (int \<times> byte list) \<times> net" where
  "mbedtls_net_recv_timeout p sys fd len timeout s =
     (if fd < 0 then ((MBEDTLS_ERR_NET_INVALID_CONTEXT, []), s)
      else
        let tv = (uint (timeout div 1000), uint ((timeout mod 1000) * 1000));
            c = Select (fd + 1) (Some (FD_SET fd FD_ZERO)) None None
                  (if timeout = 0 then None else Some tv);
            ret = net_ret p (calls s) c; s1 = issue c s
        in if ret = 0 then ((MBEDTLS_ERR_SSL_TIMEOUT, []), s1)
           else if ret < 0
           then ((if net_errno p (calls s1) = sys EINTR then MBEDTLS_ERR_SSL_WANT_READ
                  else MBEDTLS_ERR_NET_RECV_FAILED, []), s1)
           else mbedtls_net_recv p sys fd len s1)"

definition mbedtls_net_send ::
  "tls_platform \<Rightarrow> errno_numbers \<Rightarrow> int \<Rightarrow> byte list \<Rightarrow> nat \<Rightarrow> net \<Rightarrow> int \<times> net" where
  "mbedtls_net_send p sys fd buf len s =
     (if fd < 0 then (MBEDTLS_ERR_NET_INVALID_CONTEXT, s)
      else
        let c = Sock_write fd (take len buf); ret = net_ret p (calls s) c; s1 = issue c s;
            e = net_errno p (calls s1)
        in if ret < 0
           then (if net_would_block p sys s1 then MBEDTLS_ERR_SSL_WANT_WRITE
                 else if e = sys EPIPE \<or> e = sys ECONNRESET then MBEDTLS_ERR_NET_CONN_RESET
                 else if e = sys EINTR then MBEDTLS_ERR_SSL_WANT_WRITE
                 else MBEDTLS_ERR_NET_SEND_FAILED, s1)
           else (ret, s1))"

definition mbedtls_net_free :: "int \<Rightarrow> net \<Rightarrow> int \<times> net" where
  "mbedtls_net_free ctx s =
     (if ctx = - 1 then (ctx, s) else (- 1, issue (Close ctx) (issue (Shutdown ctx 2) s)))"

text \<open>The check of the protocol names; \<open>tot_len\<close> is a 32-bit \<^verbatim>\<open>size_t\<close>. The result is 0 with the new
  list, or the error with the old one.\<close>

fun alpn_check :: "uint32 \<Rightarrow> string list \<Rightarrow> bool" where
  "alpn_check tot_len [] = True"
| "alpn_check tot_len (q # qs) =
     (let cur_len = of_nat (length q) :: uint32; tot = tot_len + cur_len
      in \<not> (cur_len = 0 \<or> cur_len > 255 \<or> tot > 65535) \<and> alpn_check tot qs)"

definition mbedtls_ssl_conf_alpn_protocols :: "string list \<Rightarrow> string list \<Rightarrow> int \<times> string list" where
  "mbedtls_ssl_conf_alpn_protocols protos alpn_list =
     (if alpn_check 0 protos then (0, protos) else (MBEDTLS_ERR_SSL_BAD_INPUT_DATA, alpn_list))"

section \<open>Open descriptors\<close>

fun open_step :: "tls_platform \<Rightarrow> net_call list \<Rightarrow> net_call \<Rightarrow> int set \<Rightarrow> int set" where
  "open_step p tr (Socket k pr) A =
     (if net_ret p tr (Socket k pr) \<ge> 0 then insert (net_ret p tr (Socket k pr)) A else A)"
| "open_step p tr (Accept fd) A =
     (if net_ret p tr (Accept fd) \<ge> 0 then insert (net_ret p tr (Accept fd)) A else A)"
| "open_step p tr (Close fd) A = A - {fd}"
| "open_step p tr c A = A"

definition open_fds :: "tls_platform \<Rightarrow> net_call list \<Rightarrow> int set" where
  "open_fds p tr = hist (open_step p) {} tr"

lemma open_fds_append [simp]:
  "open_fds p (xs @ ys) = hist_from (open_step p) xs (open_fds p xs) ys"
  by (simp add: open_fds_def)

text \<open>What \<^verbatim>\<open>socket\<close> promises: a new descriptor is not one that is open.\<close>

definition fresh_sockets :: "tls_platform \<Rightarrow> bool" where
  "fresh_sockets p \<longleftrightarrow> (\<forall>tr k pr. net_ret p tr (Socket k pr) \<notin> open_fds p tr)"

text \<open>Either one descriptor has been opened and is the context's, or nothing has changed.\<close>

definition one_opened ::
  "tls_platform \<Rightarrow> int \<Rightarrow> net_call list \<Rightarrow> int \<Rightarrow> int \<Rightarrow> net_call list \<Rightarrow> bool" where
  "one_opened p ctx tr ret ctx' tr' \<longleftrightarrow>
     (if ret = 0 then ctx' \<ge> 0 \<and> ctx' \<notin> open_fds p tr \<and> open_fds p tr' = insert ctx' (open_fds p tr)
      else ctx' = ctx \<and> open_fds p tr' = open_fds p tr)"

locale opens_one =
  fixes op :: "tls_platform \<Rightarrow> int \<Rightarrow> net \<Rightarrow> int \<times> int \<times> net"
  assumes accounts: "fresh_sockets p \<Longrightarrow> op p ctx s = (ret, ctx', s') \<Longrightarrow>
    one_opened p ctx (calls s) ret ctx' (calls s')"
begin

lemma open_then_free:
  assumes "fresh_sockets p" "op p (- 1) s = (ret, ctx', s')"
  shows "open_fds p (calls (snd (mbedtls_net_free ctx' s'))) = open_fds p (calls s)
    \<and> fst (mbedtls_net_free ctx' s') = - 1"
  using accounts [OF assms] by (auto simp: one_opened_def mbedtls_net_free_def split: if_splits)

end

text \<open>The walks go on with another address only after the descriptor just opened, if any, has been
  closed again.\<close>

lemma socket_closed:
  assumes "net_ret p (calls s) (Socket k pr) = fd" "fd \<notin> open_fds p (calls s)"
  shows "fd < 0 \<Longrightarrow> open_fds p (calls s @ [Socket k pr]) = open_fds p (calls s)"
    and "open_fds p (calls s @ [Socket k pr, Connect fd sa, Close fd]) = open_fds p (calls s)"
  using assms by auto

lemma connect_walk_accounts:
  assumes "fresh_sockets p" "ret0 \<noteq> 0" "connect_walk p as ret0 ctx s = (ret, ctx', s')"
  shows "one_opened p ctx (calls s) ret ctx' (calls s')"
  using assms(2,3)
proof (induction "as" arbitrary: ret0 s)
  case Nil
  then show ?case by (simp add: one_opened_def)
next
  case (Cons a cur)
  obtain k pr sa where a: "a = (k, pr, sa)" by (cases a)
  define fd where "fd = net_ret p (calls s) (Socket k pr)"
  have fresh: "fd \<notin> open_fds p (calls s)" using assms(1) by (simp add: fresh_sockets_def fd_def)
  note closed = socket_closed [OF fd_def [symmetric] fresh]
  define s1 where "s1 = issue (Socket k pr) s"
  define s2 where "s2 = issue (Connect fd sa) s1"
  consider (no_fd) "fd < 0" | (connected) "\<not> fd < 0" "net_ret p (calls s1) (Connect fd sa) = 0"
    | (refused) "\<not> fd < 0" "net_ret p (calls s1) (Connect fd sa) \<noteq> 0" by blast
  then show ?case
  proof cases
    case no_fd
    with Cons.prems a have "connect_walk p cur MBEDTLS_ERR_NET_SOCKET_FAILED ctx s1 = (ret, ctx', s')"
      by (simp add: fd_def s1_def Let_def)
    from Cons.IH [OF _ this] have "one_opened p ctx (calls s1) ret ctx' (calls s')" by simp
    moreover have "open_fds p (calls s1) = open_fds p (calls s)"
      using closed(1) [OF no_fd] by (simp only: s1_def calls_issue)
    ultimately show ?thesis by (simp only: one_opened_def)
  next
    case connected
    with Cons.prems a have "ret = 0" "ctx' = fd" "s' = s2"
      by (auto simp: fd_def [symmetric] s1_def [symmetric] s2_def Let_def)
    with connected fresh show ?thesis by (simp add: one_opened_def s1_def s2_def fd_def)
  next
    case refused
    with Cons.prems a have
      "connect_walk p cur MBEDTLS_ERR_NET_CONNECT_FAILED ctx (issue (Close fd) s2) = (ret, ctx', s')"
      by (simp add: fd_def [symmetric] s1_def [symmetric] s2_def Let_def)
    from Cons.IH [OF _ this] have "one_opened p ctx (calls (issue (Close fd) s2)) ret ctx' (calls s')"
      by simp
    moreover have "open_fds p (calls (issue (Close fd) s2)) = open_fds p (calls s)"
      using closed(2) [of sa] by (simp only: s1_def s2_def calls_issue append_assoc append.simps)
    ultimately show ?thesis by (simp only: one_opened_def)
  qed
qed

lemma bind_walk_cases:
  fixes p k pr sa s proto
  defines "fd \<equiv> net_ret p (calls s) (Socket k pr)"
  assumes "bind_walk p proto ((k, pr, sa) # cur) ret0 ctx s = (ret, ctx', s')"
  obtains (again) tr e where "open_fds p tr = open_fds p (calls s) \<or> fd \<in> open_fds p (calls s)"
      "e \<noteq> 0" "bind_walk p proto cur e ctx (s\<lparr>calls := tr\<rparr>) = (ret, ctx', s')"
    | (bound) "fd \<ge> 0" "ret = 0" "ctx' = fd" "open_fds p (calls s') = insert fd (open_fds p (calls s))"
proof -
  define o1 where "o1 = Setsockopt fd SO_REUSEADDR [1]"
  define b where "b = Bind fd (lwip_htonl 0, snd sa)"
  define l where "l = Listen fd 10"
  have skip: "open_step p t o1 A = A" "open_step p t b A = A" "open_step p t l A = A" for t A
    by (simp_all add: o1_def b_def l_def)
  note defs = o1_def [symmetric] b_def [symmetric] l_def [symmetric] fd_def [symmetric]
  consider (no_fd) "fd < 0" | (no_opt) "\<not> fd < 0" "net_ret p (calls s @ [Socket k pr]) o1 \<noteq> 0"
    | (no_bind) "\<not> fd < 0" "net_ret p (calls s @ [Socket k pr]) o1 = 0"
        "net_ret p (calls s @ [Socket k pr, o1]) b \<noteq> 0"
    | (no_listen) "\<not> fd < 0" "net_ret p (calls s @ [Socket k pr]) o1 = 0"
        "net_ret p (calls s @ [Socket k pr, o1]) b = 0" "proto = MBEDTLS_NET_PROTO_TCP"
        "net_ret p (calls s @ [Socket k pr, o1, b]) l \<noteq> 0"
    | (ok) "\<not> fd < 0" "net_ret p (calls s @ [Socket k pr]) o1 = 0"
        "net_ret p (calls s @ [Socket k pr, o1]) b = 0"
        "proto = MBEDTLS_NET_PROTO_TCP \<longrightarrow> net_ret p (calls s @ [Socket k pr, o1, b]) l = 0"
    by blast
  then show ?thesis
  proof cases
    case no_fd
    show ?thesis
      by (rule again [of "calls s @ [Socket k pr]" MBEDTLS_ERR_NET_SOCKET_FAILED])
        (use no_fd assms(2) in \<open>simp_all add: fd_def Let_def issue_def\<close>)
  next
    case no_opt
    show ?thesis
      by (rule again [of "calls s @ [Socket k pr, o1, Close fd]" MBEDTLS_ERR_NET_SOCKET_FAILED])
        (use no_opt assms(2) in \<open>auto simp: skip defs Let_def issue_def\<close>)
  next
    case no_bind
    show ?thesis
      by (rule again [of "calls s @ [Socket k pr, o1, b, Close fd]" MBEDTLS_ERR_NET_BIND_FAILED])
        (use no_bind assms(2) in \<open>auto simp: skip defs Let_def issue_def\<close>)
  next
    case no_listen
    show ?thesis
      by (rule again [of "calls s @ [Socket k pr, o1, b, l, Close fd]" MBEDTLS_ERR_NET_LISTEN_FAILED])
        (use no_listen assms(2) in \<open>auto simp: skip defs Let_def issue_def\<close>)
  next
    case ok
    then show ?thesis
      by (intro bound) (use assms(2) in \<open>auto simp: skip defs Let_def issue_def split: if_splits\<close>)
  qed
qed

lemma bind_walk_accounts:
  assumes "fresh_sockets p" "ret0 \<noteq> 0" "bind_walk p proto as ret0 ctx s = (ret, ctx', s')"
  shows "one_opened p ctx (calls s) ret ctx' (calls s')"
  using assms(2,3)
proof (induction "as" arbitrary: ret0 s)
  case Nil
  then show ?case by (simp add: one_opened_def)
next
  case (Cons a cur)
  obtain k pr sa where a: "a = (k, pr, sa)" by (cases a)
  have fresh: "net_ret p (calls s) (Socket k pr) \<notin> open_fds p (calls s)"
    using assms(1) by (simp add: fresh_sockets_def)
  from Cons.prems(2) [unfolded a] show ?case
  proof (cases rule: bind_walk_cases)
    case (again tr e)
    with fresh Cons.IH [OF again(2,3)] show ?thesis
      by (auto simp: one_opened_def split: if_splits)
  next
    case bound
    with fresh show ?thesis by (simp add: one_opened_def)
  qed
qed

lemma with_addrinfo_accounts:
  assumes "with_addrinfo p host port proto ctx walk s = (ret, ctx', s')"
    and "\<And>as s r c s'. walk as MBEDTLS_ERR_NET_UNKNOWN_HOST ctx s = (r, c, s') \<Longrightarrow>
      one_opened p ctx (calls s) r c (calls s')"
  shows "one_opened p ctx (calls s) ret ctx' (calls s')"
proof -
  obtain k pr where pr: "proto_kind proto = (k, pr)" by (cases "proto_kind proto")
  define c where "c = Getaddrinfo host port k pr"
  obtain r ctx2 s2 where w:
    "walk (addrinfos p (calls s) c) MBEDTLS_ERR_NET_UNKNOWN_HOST ctx (issue c s) = (r, ctx2, s2)"
    by (cases "walk (addrinfos p (calls s) c) MBEDTLS_ERR_NET_UNKNOWN_HOST ctx (issue c s)")
  have "one_opened p ctx (calls s) r ctx2 (calls s2)"
    using assms(2) [OF w] by (auto simp: one_opened_def c_def split: if_splits)
  moreover have "ret = r \<and> ctx' = ctx2 \<and> s' = issue Freeaddrinfo s2
      \<or> ret \<noteq> 0 \<and> ctx' = ctx \<and> s' = issue c s"
    using assms(1) pr w by (auto simp: with_addrinfo_def c_def [symmetric] Let_def split: if_splits)
  ultimately show ?thesis by (auto simp: one_opened_def c_def)
qed

interpretation connect_opens: opens_one "\<lambda>p ctx. mbedtls_net_connect p ctx host port proto"
  for host port proto
proof unfold_locales
  fix p ctx s ret ctx' s'
  assume fresh: "fresh_sockets p" and "mbedtls_net_connect p ctx host port proto s = (ret, ctx', s')"
  then show "one_opened p ctx (calls s) ret ctx' (calls s')"
    using with_addrinfo_accounts connect_walk_accounts [OF fresh, of MBEDTLS_ERR_NET_UNKNOWN_HOST]
    by (fastforce simp: mbedtls_net_connect_def)
qed

interpretation bind_opens: opens_one "\<lambda>p ctx. mbedtls_net_bind p ctx host port proto"
  for host port proto
proof unfold_locales
  fix p ctx s ret ctx' s'
  assume fresh: "fresh_sockets p" and "mbedtls_net_bind p ctx host port proto s = (ret, ctx', s')"
  then show "one_opened p ctx (calls s) ret ctx' (calls s')"
    using with_addrinfo_accounts bind_walk_accounts [OF fresh, of MBEDTLS_ERR_NET_UNKNOWN_HOST]
    by (fastforce simp: mbedtls_net_bind_def)
qed

section \<open>Properties\<close>

text \<open>
  C22: connecting leaks no descriptor. Whatever the name resolves to and however the attempts end,
  \<^verbatim>\<open>mbedtls_net_connect\<close> either returns 0 with exactly one more open descriptor, which is the
  context's, or returns an error with the context and the set of open descriptors unchanged;
  freeing the context afterwards always restores the set of open descriptors.
\<close>

theorem net_connect_no_leak:
  assumes "fresh_sockets p" "mbedtls_net_connect p (- 1) host port proto s = (ret, ctx', s')"
  shows "(ret = 0 \<longrightarrow> ctx' \<ge> 0 \<and> ctx' \<notin> open_fds p (calls s)
            \<and> open_fds p (calls s') = insert ctx' (open_fds p (calls s)))
    \<and> (ret \<noteq> 0 \<longrightarrow> ctx' = - 1 \<and> open_fds p (calls s') = open_fds p (calls s))
    \<and> open_fds p (calls (snd (mbedtls_net_free ctx' s'))) = open_fds p (calls s)"
  using connect_opens.accounts [OF assms] connect_opens.open_then_free [OF assms]
  by (auto simp: one_opened_def)

definition example_tls :: tls_platform where
  "example_tls = \<lparr>net_ret = \<lambda>tr c. case c of
       Socket _ _ \<Rightarrow> if tr = [Getaddrinfo ''h'' ''443'' SOCK_STREAM IPPROTO_TCP] then 54 else - 1
     | _ \<Rightarrow> 0,
     net_errno = \<lambda>_. 0, peer = \<lambda>_ _. (0, 0), rx = \<lambda>_ _. [],
     ready = \<lambda>_ _. (FD_ZERO, FD_ZERO, FD_ZERO), host_addr = \<lambda>_ _. None,
     addrinfos = \<lambda>_ _. [(SOCK_STREAM, IPPROTO_TCP, (1, 2))], so_type = \<lambda>_ _. Some SOCK_STREAM\<rparr>"

lemma example_tls_socket:
  "net_ret example_tls tr (Socket k pr)
     = (if tr = [Getaddrinfo ''h'' ''443'' SOCK_STREAM IPPROTO_TCP] then 54 else - 1)"
  by (simp add: example_tls_def)

lemma example_tls_accept: "net_ret example_tls tr (Accept fd) = 0"
  by (simp add: example_tls_def)

lemma fresh_example_tls: "fresh_sockets example_tls"
proof -
  have neg: "- 1 \<notin> hist_from (open_step example_tls) tr A cs" if "- 1 \<notin> A" for tr A cs
    using that
  proof (induction cs arbitrary: tr A)
    case (Cons c cs)
    have "- 1 \<notin> open_step example_tls tr c A"
      using Cons.prems by (cases c) (auto simp: example_tls_socket example_tls_accept)
    with Cons.IH show ?case by simp
  qed simp
  have "- 1 \<notin> open_fds example_tls tr" for tr
    unfolding open_fds_def hist_def by (rule neg) simp
  then show ?thesis
    by (auto simp: fresh_sockets_def example_tls_socket open_fds_def hist_def)
qed

theorem net_connect_no_leak_witness:
  "mbedtls_net_connect example_tls (- 1) ''h'' ''443'' MBEDTLS_NET_PROTO_TCP \<lparr>calls = []\<rparr>
     = (0, 54, \<lparr>calls = [Getaddrinfo ''h'' ''443'' SOCK_STREAM IPPROTO_TCP,
          Socket SOCK_STREAM IPPROTO_TCP, Connect 54 (1, 2), Freeaddrinfo]\<rparr>)
   \<and> open_fds example_tls [Getaddrinfo ''h'' ''443'' SOCK_STREAM IPPROTO_TCP,
          Socket SOCK_STREAM IPPROTO_TCP, Connect 54 (1, 2), Freeaddrinfo] = {54}"
proof -
  have run: "mbedtls_net_connect example_tls (- 1) ''h'' ''443'' MBEDTLS_NET_PROTO_TCP \<lparr>calls = []\<rparr>
     = (0, 54, \<lparr>calls = [Getaddrinfo ''h'' ''443'' SOCK_STREAM IPPROTO_TCP,
          Socket SOCK_STREAM IPPROTO_TCP, Connect 54 (1, 2), Freeaddrinfo]\<rparr>)"
    by (simp add: mbedtls_net_connect_def with_addrinfo_def example_tls_def issue_def)
  show ?thesis
    using net_connect_no_leak [OF fresh_example_tls run] run by (simp add: open_fds_def)
qed

text \<open>
  Opening a listening socket leaks no descriptor either: \<^verbatim>\<open>mbedtls_net_bind\<close> returns 0 with exactly
  one more open descriptor, which is the context's, or an error with nothing changed, whichever of
  its four steps failed for whichever address.
\<close>

lemma net_bind_no_leak:
  assumes "fresh_sockets p" "mbedtls_net_bind p ctx bind_ip port proto s = (ret, ctx', s')"
  shows "(ret = 0 \<longrightarrow> ctx' \<ge> 0 \<and> ctx' \<notin> open_fds p (calls s)
            \<and> open_fds p (calls s') = insert ctx' (open_fds p (calls s)))
    \<and> (ret \<noteq> 0 \<longrightarrow> ctx' = ctx \<and> open_fds p (calls s') = open_fds p (calls s))"
  using bind_opens.accounts [OF assms] by (auto simp: one_opened_def)

lemma alpn_check_iff:
  "unat tot + sum_list (map length protos) < 2 ^ 32 \<Longrightarrow>
   alpn_check tot protos \<longleftrightarrow> (\<forall>q \<in> set protos. 1 \<le> length q \<and> length q \<le> 255)
     \<and> (protos = [] \<or> unat tot + sum_list (map length protos) \<le> 65535)"
proof (induction protos arbitrary: tot)
  case (Cons q qs)
  have len: "unat (of_nat (length q) :: uint32) = length q"
    using Cons.prems by (intro unat_of_nat_32) simp
  have tot: "unat (tot + of_nat (length q)) = unat tot + length q"
    using Cons.prems len by (subst unat_plus_exact) simp_all
  have "(of_nat (length q) :: uint32) = 0 \<longleftrightarrow> length q = 0"
    using len unat_eq_0 [of "of_nat (length q) :: uint32"] by simp
  moreover have "(of_nat (length q) :: uint32) > 255 \<longleftrightarrow> length q > 255"
    using len by (simp add: word_less_nat_alt)
  moreover have "tot + of_nat (length q) > 65535 \<longleftrightarrow> unat tot + length q > 65535"
    using tot by (simp add: word_less_nat_alt)
  ultimately have step: "alpn_check tot (q # qs) \<longleftrightarrow> 1 \<le> length q \<and> length q \<le> 255
      \<and> unat tot + length q \<le> 65535 \<and> alpn_check (tot + of_nat (length q)) qs"
    by (simp only: alpn_check.simps Let_def) linarith
  have "alpn_check (tot + of_nat (length q)) qs \<longleftrightarrow>
      (\<forall>q \<in> set qs. 1 \<le> length q \<and> length q \<le> 255)
      \<and> (qs = [] \<or> unat tot + length q + sum_list (map length qs) \<le> 65535)"
    using Cons.IH [of "tot + of_nat (length q)"] Cons.prems tot by (simp add: add.assoc)
  with step show ?case by (cases "qs = []") (simp_all only: list.map sum_list.Cons set_simps ball_simps, auto)
qed simp

text \<open>
  Protocol names for TLS are accepted exactly when they are valid: for lists whose total length
  fits 32 bits, \<^verbatim>\<open>mbedtls_ssl_conf_alpn_protocols\<close> installs the list and returns 0 if and only if
  every name has 1 to 255 characters and together they have at most 65535; otherwise it reports bad
  input and keeps the list installed before.
\<close>

lemma alpn_protocols_checked:
  assumes "sum_list (map length protos) < 2 ^ 32"
  shows "mbedtls_ssl_conf_alpn_protocols protos old =
    (if (\<forall>q \<in> set protos. 1 \<le> length q \<and> length q \<le> 255) \<and> sum_list (map length protos) \<le> 65535
     then (0, protos) else (MBEDTLS_ERR_SSL_BAD_INPUT_DATA, old))"
  using alpn_check_iff [of 0 protos] assms
  by (auto simp: mbedtls_ssl_conf_alpn_protocols_def)

end
