(* ===== verification/Iot.thy ===== *)
theory Iot
  imports Prelude
begin

text \<open>
  The cloud side of the application: the data points (DPs) the Tuya cloud reads and writes,
  \<^verbatim>\<open>app/IOT.cpp\<close>, with the enumerations of \<^verbatim>\<open>app/device_interface.h\<close> and the
  data-point callback of \<^verbatim>\<open>app/device_interface.cpp\<close>.

  The property store (\<^verbatim>\<open>Prop\<close>), the sensors, the user interface, the credential files and
  the Tuya SDK are outside the sources. What they answer is the parameter \<open>iot_platform\<close>, and what
  is asked of them is the call list. A property is the name of its enumerator. The lemmas show that
  a data point written by the cloud is reported back under the same number with the same value, that
  a report of everything holds each ready property once, and that the identity of the device is the
  same in both credential stores once it has been read.
\<close>

section \<open>Data\<close>

type_synonym prop_t = string

datatype (plugins only: code) Dp =
  brightness | has_pot | ambient_light | temperature | humidity
  | watering_status | ip | water_level | charging | touch_enable
  | touching | color | ear_sensitivity | pot_sensitivity | evolve_status
  | sys_cmd | plant_type | battery_percent | soil_moisture | plant_auto_detect
  | water_manual_calib | ear_enable | pomodoro | left_touch_switch | right_touch_switch
  | plant_touch_switch | use_fahrenheit | enable_night_sleep | enable_sleep | night_sleep_start
  | night_sleep_period | auto_brightness | use_12h_mode | custom_anim_last_t | light_status
  | temperature_status | humidity_status | enable_location_weather | longitude | latitude
  | language | ambient_light_history | battery_percent_history | soil_moisture_history | humidity_history
  | temperature_history | water_level_history | soil_status | tu_over

primrec dp_id :: "Dp \<Rightarrow> int" where
  "dp_id brightness = 101"
| "dp_id has_pot = 102"
| "dp_id ambient_light = 103"
| "dp_id temperature = 104"
| "dp_id humidity = 105"
| "dp_id watering_status = 106"
| "dp_id ip = 107"
| "dp_id water_level = 108"
| "dp_id charging = 109"
| "dp_id touch_enable = 110"
| "dp_id touching = 111"
| "dp_id color = 113"
| "dp_id ear_sensitivity = 115"
| "dp_id pot_sensitivity = 116"
| "dp_id evolve_status = 117"
| "dp_id sys_cmd = 118"
| "dp_id plant_type = 119"
| "dp_id battery_percent = 121"
| "dp_id soil_moisture = 122"
| "dp_id plant_auto_detect = 123"
| "dp_id water_manual_calib = 124"
| "dp_id ear_enable = 125"
| "dp_id pomodoro = 126"
| "dp_id left_touch_switch = 127"
| "dp_id right_touch_switch = 128"
| "dp_id plant_touch_switch = 129"
| "dp_id use_fahrenheit = 130"
| "dp_id enable_night_sleep = 131"
| "dp_id enable_sleep = 132"
| "dp_id night_sleep_start = 133"
| "dp_id night_sleep_period = 134"
| "dp_id auto_brightness = 135"
| "dp_id use_12h_mode = 136"
| "dp_id custom_anim_last_t = 137"
| "dp_id light_status = 138"
| "dp_id temperature_status = 139"
| "dp_id humidity_status = 140"
| "dp_id enable_location_weather = 141"
| "dp_id longitude = 142"
| "dp_id latitude = 143"
| "dp_id language = 144"
| "dp_id ambient_light_history = 145"
| "dp_id battery_percent_history = 146"
| "dp_id soil_moisture_history = 147"
| "dp_id humidity_history = 148"
| "dp_id temperature_history = 149"
| "dp_id water_level_history = 150"
| "dp_id soil_status = 151"
| "dp_id tu_over = 152"

definition Dps :: "Dp list" where
  "Dps =
     [brightness, has_pot, ambient_light, temperature, humidity,
      watering_status, ip, water_level, charging, touch_enable,
      touching, color, ear_sensitivity, pot_sensitivity, evolve_status,
      sys_cmd, plant_type, battery_percent, soil_moisture, plant_auto_detect,
      water_manual_calib, ear_enable, pomodoro, left_touch_switch, right_touch_switch,
      plant_touch_switch, use_fahrenheit, enable_night_sleep, enable_sleep, night_sleep_start,
      night_sleep_period, auto_brightness, use_12h_mode, custom_anim_last_t, light_status,
      temperature_status, humidity_status, enable_location_weather, longitude, latitude,
      language, ambient_light_history, battery_percent_history, soil_moisture_history, humidity_history,
      temperature_history, water_level_history, soil_status, tu_over]"

text \<open>The conversion \<^verbatim>\<open>(Dp) dpid\<close>; a number that is no enumerator is \<open>None\<close>.\<close>

definition Dp_of :: "int \<Rightarrow> Dp option" where
  "Dp_of n = map_of (map (\<lambda>d. (dp_id d, d)) Dps) n"

datatype DP_PROP_TP_E = PROP_BOOL | PROP_VALUE | PROP_STR | PROP_ENUM | PROP_BITMAP

text \<open>The type of a data point and the factor its property is multiplied with.\<close>

type_synonym dp_type_t = "Dp \<times> DP_PROP_TP_E \<times> int"

datatype TY_OBJ_DP_VALUE_U = Dp_bool bool | Dp_value int | Dp_enum uint32 | Dp_str string

record TY_OBJ_DP_S =
  dpid :: int
  dp_tp :: DP_PROP_TP_E
  dp_val :: TY_OBJ_DP_VALUE_U
  time_stamp :: uint32

datatype anim_mode = Anim_single | Anim_rotate | Anim_random

datatype touch_pad = TP_INDEX_FRONT | TP_INDEX_LEFT | TP_INDEX_RIGHT

text \<open>The calls that leave the file. The flags of \<^verbatim>\<open>Prop::set\<close> are those written at the call.\<close>

datatype (plugins only: code) iot_call =
    Prop_set prop_t int "bool list"
  | Show_temp_text string
  | Set_level_calibration int bool
  | Check_change int bool
  | Report_json_async "TY_OBJ_DP_S list"
  | Report_json_async_force "TY_OBJ_DP_S list"
  | Set_condition_DATA_REPORTED
  | Check_evolve_update
  | Reset_water_level_calib
  | Calibrate_water_level
  | Calibrate_all nat
  | Ui_set_action bool
  | Reset_soil_sensor_calib_info
  | Dispatch_tap touch_pad
  | Upload_log
  | Anim_play_keep
  | Anim_stop
  | Anim_next
  | Anim_set_mode anim_mode
  | Restore_to_factory
  | Api_get string
  | Sd_store_credentials string string
  | Nvs_store_credentials string string
  | Iot_delay nat
  | Update_desc string
  | Wifi_persistent bool
  | Enable_sta bool
  | Create_iot_task
  | Delete_iot_task
  | Tuya_iot_init_params
  | Set_log_level_notice
  | Kv_flash_init "string option"
  | Ws_db_init_mf
  | Set_prod_info string string
  | Subscribe_dev_init
  | Dev_init_param
  | Reg_nw_stat_cb
  | Gw_wsm_read
  | Bt_mem_release
  | Load_ui string
  | Set_in_provision bool
  | Unregister_button_tap

record iot_platform =
  prop_get :: "iot_call list \<Rightarrow> prop_t \<Rightarrow> int"
  prop_ready :: "iot_call list \<Rightarrow> prop_t \<Rightarrow> bool"
  iot_ret :: "iot_call list \<Rightarrow> iot_call \<Rightarrow> int"
  millis :: "iot_call list \<Rightarrow> uint32"
  local_ip :: "iot_call list \<Rightarrow> string"
  ip_json :: "string \<Rightarrow> uint32 \<Rightarrow> uint32 \<Rightarrow> string"
  dp_map_order :: "(prop_t \<times> dp_type_t) list \<Rightarrow> (prop_t \<times> dp_type_t) list"
  factory_register :: "iot_call list \<Rightarrow> (string \<times> string \<times> int) option"
  nvs_credentials :: "iot_call list \<Rightarrow> string \<times> string"
  sd_credentials :: "iot_call list \<Rightarrow> string \<times> string"
  has_credentials :: "string \<Rightarrow> string \<Rightarrow> bool"
  current_ui_loading :: "iot_call list \<Rightarrow> bool"
  gw_wsm :: "iot_call list \<Rightarrow> string \<times> int \<times> int"
  ota_success :: int
  no_ota :: int

record iot = "iot_call machine" +
  m_uuid :: string
  m_authkey :: string
  m_connected :: bool
  pass_provision :: bool
  sync_timestamp :: uint32
  sync_sys_time :: uint32

definition iot_init :: iot where
  "iot_init =
     \<lparr>calls = [], m_uuid = [], m_authkey = [], m_connected = False, pass_provision = False,
      sync_timestamp = 0, sync_sys_time = 0\<rparr>"

text \<open>\<^verbatim>\<open>IOT::init_dp_data\<close>: the table from properties to data points.\<close>

definition tuya_dp_map :: "(prop_t \<times> dp_type_t) list" where
  "tuya_dp_map =
     [(''brightness'', (brightness, PROP_VALUE, 1)),
      (''has_pot'', (has_pot, PROP_BOOL, 1)),
      (''ambient_light'', (ambient_light, PROP_VALUE, 1)),
      (''temperature'', (temperature, PROP_VALUE, 10)),
      (''humidity'', (humidity, PROP_VALUE, 1)),
      (''charging'', (charging, PROP_BOOL, 1)),
      (''water_level'', (water_level, PROP_VALUE, 1)),
      (''touch_enable'', (touch_enable, PROP_BOOL, 1)),
      (''ear_sensitivity'', (ear_sensitivity, PROP_VALUE, 1)),
      (''pot_sensitivity'', (pot_sensitivity, PROP_VALUE, 1)),
      (''evolve_status'', (evolve_status, PROP_VALUE, 1)),
      (''battery_percent'', (battery_percent, PROP_VALUE, 1)),
      (''soil_moisture'', (soil_moisture, PROP_VALUE, 1)),
      (''plant_auto_detect'', (plant_auto_detect, PROP_BOOL, 1)),
      (''water_manual_calib'', (water_manual_calib, PROP_BOOL, 1)),
      (''ear_enable'', (ear_enable, PROP_BOOL, 1)),
      (''plant_type'', (plant_type, PROP_VALUE, 1)),
      (''color'', (color, PROP_VALUE, 1)),
      (''pomodoro'', (pomodoro, PROP_VALUE, 1)),
      (''watering_status'', (watering_status, PROP_VALUE, 1)),
      (''use_fahrenheit'', (use_fahrenheit, PROP_BOOL, 1)),
      (''enable_night_sleep'', (enable_night_sleep, PROP_BOOL, 1)),
      (''enable_sleep'', (enable_sleep, PROP_BOOL, 1)),
      (''night_sleep_start'', (night_sleep_start, PROP_VALUE, 1)),
      (''night_sleep_period'', (night_sleep_period, PROP_VALUE, 1)),
      (''auto_brightness'', (auto_brightness, PROP_BOOL, 1)),
      (''use_12h_mode'', (use_12h_mode, PROP_BOOL, 1)),
      (''custom_anim_last_t'', (custom_anim_last_t, PROP_VALUE, 1)),
      (''light_status'', (light_status, PROP_VALUE, 1)),
      (''temperature_status'', (temperature_status, PROP_VALUE, 1)),
      (''humidity_status'', (humidity_status, PROP_VALUE, 1)),
      (''soil_status'', (soil_status, PROP_VALUE, 1)),
      (''enable_location_weather'', (enable_location_weather, PROP_BOOL, 1)),
      (''longitude'', (longitude, PROP_VALUE, 1)),
      (''latitude'', (latitude, PROP_VALUE, 1)),
      (''language'', (language, PROP_VALUE, 1)),
      (''ambient_light_history'', (ambient_light_history, PROP_VALUE, 1)),
      (''battery_percent_history'', (battery_percent_history, PROP_VALUE, 1)),
      (''soil_moisture_history'', (soil_moisture_history, PROP_VALUE, 1)),
      (''humidity_history'', (humidity_history, PROP_VALUE, 1)),
      (''temperature_history'', (temperature_history, PROP_VALUE, 10)),
      (''water_level_history'', (water_level_history, PROP_VALUE, 1)),
      (''tutorial_complete'', (tu_over, PROP_VALUE, 1))]"

text \<open>The data points \<^verbatim>\<open>IOT::dp_handler\<close> stores as they come, and the property each one sets.\<close>

definition dp_setters :: "(Dp \<times> prop_t) list" where
  "dp_setters =
     [(brightness, ''brightness''),
      (has_pot, ''manual_has_pot''),
      (touch_enable, ''touch_enable''),
      (ear_sensitivity, ''ear_sensitivity''),
      (pot_sensitivity, ''pot_sensitivity''),
      (plant_auto_detect, ''plant_auto_detect''),
      (ear_enable, ''ear_enable''),
      (plant_type, ''plant_type''),
      (enable_sleep, ''enable_sleep''),
      (auto_brightness, ''auto_brightness''),
      (enable_night_sleep, ''enable_night_sleep''),
      (use_fahrenheit, ''use_fahrenheit''),
      (use_12h_mode, ''use_12h_mode''),
      (night_sleep_start, ''night_sleep_start''),
      (night_sleep_period, ''night_sleep_period''),
      (custom_anim_last_t, ''custom_anim_last_t''),
      (enable_location_weather, ''enable_location_weather''),
      (longitude, ''longitude''),
      (latitude, ''latitude''),
      (color, ''color'')]"

section \<open>Operations\<close>

definition iot_begin :: "iot \<Rightarrow> iot" where
  "iot_begin s = issue Create_iot_task (issue (Enable_sta True) (issue (Wifi_persistent False) s))"

text \<open>\<^verbatim>\<open>process_sys_cmd\<close>: the command numbers that do something, and what they do. Numbers 1, 3,
  4 and 11 have a case whose body is commented out; every other number falls to the default.\<close>

definition sys_cmds :: "(int \<times> iot_call) list" where
  "sys_cmds =
     [(5, Reset_water_level_calib),
      (6, Calibrate_water_level),
      (7, Calibrate_all 100),
      (8, Check_evolve_update),
      (9, Ui_set_action True),
      (10, Ui_set_action False),
      (12, Reset_soil_sensor_calib_info),
      (13, Dispatch_tap TP_INDEX_FRONT),
      (14, Dispatch_tap TP_INDEX_LEFT),
      (15, Dispatch_tap TP_INDEX_RIGHT),
      (16, Upload_log),
      (17, Anim_play_keep),
      (18, Anim_stop),
      (19, Anim_next),
      (20, Anim_set_mode Anim_single),
      (21, Anim_set_mode Anim_rotate),
      (22, Anim_set_mode Anim_random),
      (99, Restore_to_factory)]"

definition process_sys_cmd :: "int \<Rightarrow> iot \<Rightarrow> iot" where
  "process_sys_cmd cmd s = (case map_of sys_cmds cmd of None \<Rightarrow> s | Some c \<Rightarrow> issue c s)"

definition dp_handler :: "iot_platform \<Rightarrow> Dp \<Rightarrow> int \<Rightarrow> iot \<Rightarrow> bool \<times> iot" where
  "dp_handler p dp value s =
     (if dp = evolve_status then (False, s)
      else if dp = sys_cmd then (False, process_sys_cmd value s)
      else if dp = water_manual_calib then
        (if value \<noteq> 0 \<and> prop_get p (calls s) ''has_pot'' \<noteq> 0
         then (False, issue (Show_temp_text ''ui_manual_calib_remove_pot'')
                        (issue (Prop_set ''water_manual_calib'' 0 [True, False]) s))
         else (True, issue (Set_level_calibration value True) s))
      else if dp = language then
        (if prop_get p (calls s) ''language_changed'' = 0
         then (True, issue (Check_change value True)
                       (issue (Prop_set ''language_changed'' 1 [False, False, True]) s))
         else (True, issue (Check_change value False) s))
      else case map_of dp_setters dp of
             Some prop \<Rightarrow> (True, issue (Prop_set prop value [True, False, True]) s)
           | None \<Rightarrow> (False, s))"

definition report_dp ::
  "Dp \<Rightarrow> DP_PROP_TP_E \<Rightarrow> TY_OBJ_DP_VALUE_U \<Rightarrow> iot \<Rightarrow> bool \<times> iot" where
  "report_dp dp tp v s =
     (if m_connected s
      then (True, issue (Report_json_async
                    [\<lparr>dpid = dp_id dp, dp_tp = tp, dp_val = v, time_stamp = 0\<rparr>]) s)
      else (False, s))"

text \<open>The body the two reports of properties share: the data point of a table entry, read from the
  property store.\<close>

definition prop_dp :: "iot_platform \<Rightarrow> iot_call list \<Rightarrow> prop_t \<times> dp_type_t \<Rightarrow> TY_OBJ_DP_S" where
  "prop_dp p tr e =
     (case e of (prop, dp, tp, factor) \<Rightarrow>
        \<lparr>dpid = dp_id dp, dp_tp = tp,
         dp_val = (if tp = PROP_BOOL then Dp_bool (prop_get p tr prop \<noteq> 0)
                   else Dp_value (prop_get p tr prop * factor)),
         time_stamp = 0\<rparr>)"

definition report_prop :: "iot_platform \<Rightarrow> prop_t \<Rightarrow> iot \<Rightarrow> bool \<times> iot" where
  "report_prop p prop s =
     (if m_connected s
      then case map_of tuya_dp_map prop of
             None \<Rightarrow> (False, s)
           | Some t \<Rightarrow> (True, issue (Report_json_async [prop_dp p (calls s) (prop, t)]) s)
      else (False, s))"

text \<open>The loop of \<^verbatim>\<open>report_all_prop\<close>, over the table in the order the hash map yields it.\<close>

fun all_prop_payload ::
  "iot_platform \<Rightarrow> iot_call list \<Rightarrow> (prop_t \<times> dp_type_t) list \<Rightarrow> TY_OBJ_DP_S list" where
  "all_prop_payload p tr [] = []"
| "all_prop_payload p tr (itr # rest) =
     (if \<not> prop_ready p tr (fst itr) then all_prop_payload p tr rest
      else if fst itr = ''pomodoro'' then all_prop_payload p tr rest
      else prop_dp p tr itr # all_prop_payload p tr rest)"

definition report_all_prop :: "iot_platform \<Rightarrow> iot \<Rightarrow> bool \<times> iot" where
  "report_all_prop p s =
     (if m_connected s
      then
        let c = Report_json_async_force
                  (all_prop_payload p (calls s) (dp_map_order p tuya_dp_map))
        in (True, if iot_ret p (calls s) c = OPRT_OK
                  then issue Set_condition_DATA_REPORTED (issue c s) else issue c s)
      else (False, s))"

definition report_ip :: "iot_platform \<Rightarrow> iot \<Rightarrow> iot" where
  "report_ip p s =
     (if m_connected s
      then snd (report_dp ip PROP_STR
             (Dp_str (ip_json p (local_ip p (calls s))
                        (word_of_int (prop_get p (calls s) ''last_evolve_time''))
                        (word_of_int (prop_get p (calls s) ''hardware_version'')))) s)
      else s)"

definition report_touch_status :: "uint32 \<Rightarrow> iot \<Rightarrow> iot" where
  "report_touch_status status s = snd (report_dp touching PROP_ENUM (Dp_enum status) s)"

definition report_pomodoro :: "iot_platform \<Rightarrow> iot \<Rightarrow> iot" where
  "report_pomodoro p s =
     (let v = prop_get p (calls s) ''pomodoro''
      in if v = 0 \<or> pass_provision s
         then (snd (report_dp pomodoro PROP_VALUE (Dp_value v) s))\<lparr>pass_provision := False\<rparr>
         else s)"

definition touch_switch_upload :: "Dp \<Rightarrow> bool \<Rightarrow> iot \<Rightarrow> iot" where
  "touch_switch_upload dp v s = snd (report_dp dp PROP_BOOL (Dp_bool v) s)"

definition set_time_sync :: "uint32 \<Rightarrow> uint32 \<Rightarrow> iot \<Rightarrow> iot" where
  "set_time_sync t sys s = s\<lparr>sync_timestamp := t, sync_sys_time := sys\<rparr>"

definition get_synced_timestamp :: "iot_platform \<Rightarrow> iot \<Rightarrow> uint32" where
  "get_synced_timestamp p s =
     (millis p (calls s) div 1000 - sync_sys_time s) + sync_timestamp s"

definition set_connection_status :: "bool \<Rightarrow> iot \<Rightarrow> iot" where
  "set_connection_status v s = s\<lparr>m_connected := v\<rparr>"

definition ensure_pass_provision :: "bool \<Rightarrow> iot \<Rightarrow> iot" where
  "ensure_pass_provision en s = s\<lparr>pass_provision := en\<rparr>"

definition connect_cb :: "iot_platform \<Rightarrow> iot \<Rightarrow> iot" where
  "connect_cb p s =
     (let s1 = snd (report_all_prop p s);
          s2 = report_ip p s1;
          s3 = report_pomodoro p s2;
          s4 = (if prop_get p (calls s3) ''ota_status'' = ota_success p
                then issue Check_evolve_update
                       (issue (Prop_set ''force_evolve'' 1 [True, False]) s3)
                else s3)
      in issue (Prop_set ''ota_status'' (no_ota p) [True, False, True, True]) s4)"

definition register_in_cloud :: "iot_platform \<Rightarrow> iot \<Rightarrow> bool \<times> iot" where
  "register_in_cloud p s =
     (let s1 = issue (Api_get ''/ivy/factory-register'') s
      in case factory_register p (calls s) of
           None \<Rightarrow> (False, s1)
         | Some (uuid, key, col) \<Rightarrow>
             (True, issue (Prop_set ''color'' col [True, False, True])
                      (issue (Sd_store_credentials key uuid) s1)))"

fun register_tries :: "iot_platform \<Rightarrow> nat \<Rightarrow> iot \<Rightarrow> iot" where
  "register_tries p 0 s = s"
| "register_tries p (Suc n) s =
     (let (ok, s1) = register_in_cloud p s
      in if ok then s1 else register_tries p n (issue (Iot_delay 1000) s1))"

definition get_uid_authkey :: "iot_platform \<Rightarrow> iot \<Rightarrow> iot" where
  "get_uid_authkey p s = (if m_uuid s = [] \<or> m_authkey s = [] then register_tries p 3 s else s)"

definition get_credentials :: "iot_platform \<Rightarrow> iot \<Rightarrow> bool \<times> iot" where
  "get_credentials p s =
     (let (nvs_uuid, nvs_authkey) = nvs_credentials p (calls s);
          (sd_uuid, sd_authkey) = sd_credentials p (calls s);
          in_nvs = has_credentials p nvs_uuid nvs_authkey;
          in_sd = has_credentials p sd_uuid sd_authkey;
          use_nvs = s\<lparr>m_uuid := nvs_uuid, m_authkey := nvs_authkey\<rparr>
      in if \<not> in_nvs \<and> \<not> in_sd then (False, s)
         else if in_nvs \<and> in_sd then
           (True, if nvs_uuid \<noteq> sd_uuid \<or> nvs_authkey \<noteq> sd_authkey
                  then issue (Sd_store_credentials nvs_uuid nvs_authkey) use_nvs else use_nvs)
         else if in_nvs then (True, issue (Sd_store_credentials nvs_uuid nvs_authkey) use_nvs)
         else (True, issue (Nvs_store_credentials sd_uuid sd_authkey)
                       (s\<lparr>m_uuid := sd_uuid, m_authkey := sd_authkey\<rparr>)))"

text \<open>\<^verbatim>\<open>pre_device_init\<close> prints versions and sets the log level.\<close>

definition pre_device_init :: "iot \<Rightarrow> iot" where
  "pre_device_init s = issue Set_log_level_notice s"

text \<open>\<^verbatim>\<open>device_init\<close> and the event that ends the start-up, \<^verbatim>\<open>tuya_dev_init_event_cb\<close>. A failed
  \<^verbatim>\<open>ESP_ERROR_CHECK\<close> aborts, which is the result \<open>None\<close>.\<close>

definition device_init :: "iot_platform \<Rightarrow> iot \<Rightarrow> int \<times> iot" where
  "device_init p s =
     (let s1 = issue Dev_init_param s; r = iot_ret p (calls s) Dev_init_param
      in if r \<noteq> OPRT_OK then (r, s1)
         else (iot_ret p (calls s1) Reg_nw_stat_cb, issue Reg_nw_stat_cb s1))"

definition GWNS_UNCFG_AP :: int where [simp]: "GWNS_UNCFG_AP = 2"
definition GWM_NORMAL :: int where [simp]: "GWM_NORMAL = 0"

definition tuya_dev_init_event_cb :: "iot_platform \<Rightarrow> iot \<Rightarrow> int option \<times> iot" where
  "tuya_dev_init_event_cb p s =
     (let s1 = issue Gw_wsm_read s; r = iot_ret p (calls s) Gw_wsm_read;
          (ssid, nc_tp, md) = gw_wsm p (calls s)
      in if r \<noteq> OPRT_OK then (Some r, s1)
         else if prop_get p (calls s1) ''tutorial_complete'' \<noteq> 0 \<and> length ssid > 0
                 \<and> nc_tp > GWNS_UNCFG_AP \<and> md = GWM_NORMAL then
           let s2 = issue Bt_mem_release s1
           in if iot_ret p (calls s1) Bt_mem_release \<noteq> ESP_OK then (None, s2)
              else (Some OPRT_OK, issue (Load_ui ''UI_BOOT'') s2)
         else (Some OPRT_OK,
               issue (Load_ui ''UI_PROV_TIP'')
                 (ensure_pass_provision True
                    (issue Unregister_button_tap (issue (Set_in_provision True) s1)))))"

definition main_routine :: "iot_platform \<Rightarrow> iot \<Rightarrow> iot" where
  "main_routine p s =
     (let (ok, s1) = get_credentials p s
      in if \<not> ok then
           (if current_ui_loading p (calls s1)
            then issue (Update_desc ''Fail to get tuya credentials,cannot init tuya sdk'') s1
            else s1)
         else
           let s2 = issue Subscribe_dev_init
                      (issue (Set_prod_info (m_uuid s1) (m_authkey s1))
                        (issue Ws_db_init_mf
                          (issue (Kv_flash_init (Some ''/tuya''))
                            (issue (Kv_flash_init None)
                              (pre_device_init (issue Tuya_iot_init_params s1))))))
           in snd (device_init p s2))"

definition main_routine_wrapper :: "iot_platform \<Rightarrow> iot \<Rightarrow> iot" where
  "main_routine_wrapper p s = issue Delete_iot_task (main_routine p s)"

text \<open>
  \<^verbatim>\<open>dev_obj_dp_cb\<close>: the loop over the received data points. Its index is a byte while the count is
  a 32-bit integer, so the loop need not end; a run that does not end is \<open>None\<close>. The result tells
  whether the loop ran to its end (\<open>True\<close>) or the callback returned from inside it. The SDK fills
  the member of the union that the type names.
\<close>

definition handle_id :: "iot_platform \<Rightarrow> int \<Rightarrow> int \<Rightarrow> iot \<Rightarrow> bool \<times> iot" where
  "handle_id p n v s = (case Dp_of n of None \<Rightarrow> (False, s) | Some d \<Rightarrow> dp_handler p d v s)"

definition handle_obj :: "iot_platform \<Rightarrow> TY_OBJ_DP_S \<Rightarrow> iot \<Rightarrow> bool \<times> iot" where
  "handle_obj p d s =
     (case (dp_tp d, dp_val d) of
        (PROP_VALUE, Dp_value v) \<Rightarrow> handle_id p (dpid d) v s
      | (PROP_BOOL, Dp_bool b) \<Rightarrow> handle_id p (dpid d) (of_bool b) s
      | _ \<Rightarrow> (True, s))"

partial_function (option) dp_loop ::
  "iot_platform \<Rightarrow> TY_OBJ_DP_S list \<Rightarrow> byte \<Rightarrow> iot \<Rightarrow> (bool \<times> iot) option" where
  "dp_loop p dps i s =
     (if unat i < length dps
      then let (ret, s1) = handle_obj p (dps ! unat i) s
           in if ret then dp_loop p dps (i + 1) s1 else Some (False, s1)
      else Some (True, s))"

definition dev_obj_dp_cb :: "iot_platform \<Rightarrow> TY_OBJ_DP_S list \<Rightarrow> iot \<Rightarrow> iot option" where
  "dev_obj_dp_cb p dps s =
     (case dp_loop p dps 0 s of
        None \<Rightarrow> None
      | Some (done_all, s1) \<Rightarrow> Some (if done_all then issue (Report_json_async dps) s1 else s1))"

section \<open>The tables\<close>

lemma Dp_of_dp_id [simp]: "Dp_of (dp_id d) = Some d"
  by (cases d) (simp_all add: Dp_of_def Dps_def)

lemma dp_id_inject [simp]: "dp_id d = dp_id e \<longleftrightarrow> d = e"
  by (metis Dp_of_dp_id option.inject)

lemma Dp_of_SomeD: "Dp_of n = Some d \<Longrightarrow> dp_id d = n"
  by (auto simp: Dp_of_def dest!: map_of_SomeD)

text \<open>Every setter but the one for the pot writes the property that is reported under the same data
  point, unscaled.\<close>

definition setter_echoes :: "Dp \<times> prop_t \<Rightarrow> bool" where
  "setter_echoes e =
     (case e of (d, q) \<Rightarrow>
        d = has_pot \<or>
        (case map_of tuya_dp_map q of Some (d', tp, f) \<Rightarrow> d' = d \<and> f = 1 | None \<Rightarrow> False))"

lemma setters_echo: "list_all setter_echoes dp_setters"
  by code_simp

lemma setter_in_map:
  assumes "map_of dp_setters d = Some q" "d \<noteq> has_pot"
  obtains tp where "map_of tuya_dp_map q = Some (d, tp, 1)"
proof -
  from assms(1) have "(d, q) \<in> set dp_setters" by (rule map_of_SomeD)
  with setters_echo have "setter_echoes (d, q)" by (auto simp: list_all_iff)
  with assms(2) show ?thesis by (auto simp: setter_echoes_def split: option.splits intro: that)
qed

lemma special_not_setter [simp]:
  "map_of dp_setters evolve_status = None"
  "map_of dp_setters sys_cmd = None"
  "map_of dp_setters water_manual_calib = None"
  "map_of dp_setters language = None"
  by code_simp+

lemma dp_handler_setter:
  "map_of dp_setters d = Some q \<Longrightarrow>
   dp_handler p d v s = (True, issue (Prop_set q v [True, False, True]) s)"
  by (auto simp: dp_handler_def)

lemma table_dps_distinct: "distinct (map (\<lambda>(_, d, _). dp_id d) tuya_dp_map)"
  by code_simp

lemma table_props_distinct: "distinct (map fst tuya_dp_map)"
  by code_simp

lemma m_connected_issue [simp]: "m_connected (issue c s) = m_connected s"
  by (simp add: issue_def)

section \<open>What the cloud writes is what it reads back\<close>

text \<open>The property store returns what was last written to it.\<close>

definition prop_store :: "iot_platform \<Rightarrow> bool" where
  "prop_store p \<longleftrightarrow> (\<forall>tr q v fl. prop_get p (tr @ [Prop_set q v fl]) q = v)"


definition example_store :: "iot_call list \<Rightarrow> prop_t \<Rightarrow> int" where
  "example_store tr q =
     hist (\<lambda>_ c a. case c of Prop_set q' v _ \<Rightarrow> if q' = q then v else a | _ \<Rightarrow> a) 0 tr"

definition last_nvs :: "string \<times> string \<Rightarrow> iot_call list \<Rightarrow> string \<times> string" where
  "last_nvs a tr = hist (\<lambda>_ c a. case c of Nvs_store_credentials u k \<Rightarrow> (u, k) | _ \<Rightarrow> a) a tr"

definition last_sd :: "string \<times> string \<Rightarrow> iot_call list \<Rightarrow> string \<times> string" where
  "last_sd a tr = hist (\<lambda>_ c a. case c of Sd_store_credentials u k \<Rightarrow> (u, k) | _ \<Rightarrow> a) a tr"

text \<open>A platform for the examples: the property store and the credential stores return what was
  written last, the SDK accepts every call, and a fresh device is registered.\<close>

definition example_iot :: iot_platform where
  "example_iot =
     \<lparr>prop_get = example_store, prop_ready = (\<lambda>_ _. True), iot_ret = (\<lambda>_ _. 0),
      millis = (\<lambda>_. 90000), local_ip = (\<lambda>_. ''192.168.4.1''), ip_json = (\<lambda>a _ _. a),
      dp_map_order = rev, factory_register = (\<lambda>_. Some (''id'', ''secret'', 3)),
      nvs_credentials = last_nvs ([], []), sd_credentials = last_sd (''u'', ''k''),
      has_credentials = (\<lambda>u k. u \<noteq> [] \<and> k \<noteq> []), current_ui_loading = (\<lambda>_. False),
      gw_wsm = (\<lambda>_. (''home'', 4, 0)), ota_success = 2, no_ota = 0\<rparr>"

lemma example_prop_store: "prop_store example_iot"
  by (simp add: prop_store_def example_iot_def example_store_def)


section \<open>The report of everything\<close>

lemma all_prop_payload_filter:
  "all_prop_payload p tr es =
   map (prop_dp p tr) (filter (\<lambda>e. prop_ready p tr (fst e) \<and> fst e \<noteq> ''pomodoro'') es)"
  by (induction es) auto

lemma dpid_prop_dp: "dpid (prop_dp p tr e) = (case e of (_, d, _) \<Rightarrow> dp_id d)"
  by (simp add: prop_dp_def split: prod.split)

lemma payload_dpids_distinct:
  assumes "set es = set tuya_dp_map" "distinct es"
  shows "distinct (map dpid (all_prop_payload p tr es))"
proof -
  have "inj_on (\<lambda>(_, d, _). dp_id d) (set tuya_dp_map)"
    using table_dps_distinct by (simp only: distinct_map)
  then have "inj_on (\<lambda>(_, d, _). dp_id d) (set (filter P es))" for P
    using assms(1) by (auto intro: inj_on_subset)
  then show ?thesis
    using assms(2)
    by (simp add: all_prop_payload_filter comp_def dpid_prop_dp distinct_map)
qed


lemma table_distinct: "distinct tuya_dp_map"
  using table_props_distinct by (simp add: distinct_map)

lemma example_order [simp]: "dp_map_order example_iot = rev"
  by (simp add: example_iot_def)


section \<open>A batch of data points\<close>

text \<open>The property call a data point amounts to when it is one of those stored as they come.\<close>

definition setter_call :: "TY_OBJ_DP_S \<Rightarrow> iot_call option" where
  "setter_call d =
     (case Dp_of (dpid d) of None \<Rightarrow> None
      | Some dp \<Rightarrow> (case map_of dp_setters dp of None \<Rightarrow> None
         | Some q \<Rightarrow> (case (dp_tp d, dp_val d) of
              (PROP_VALUE, Dp_value v) \<Rightarrow> Some (Prop_set q v [True, False, True])
            | (PROP_BOOL, Dp_bool b) \<Rightarrow> Some (Prop_set q (of_bool b) [True, False, True])
            | _ \<Rightarrow> None)))"

fun handle_all :: "iot_platform \<Rightarrow> TY_OBJ_DP_S list \<Rightarrow> iot \<Rightarrow> bool \<times> iot" where
  "handle_all p [] s = (True, s)"
| "handle_all p (d # ds) s =
     (let (ret, s1) = handle_obj p d s in if ret then handle_all p ds s1 else (False, s1))"

lemma handle_obj_setter:
  "setter_call d = Some c \<Longrightarrow> handle_obj p d s = (True, issue c s)"
  by (auto simp: setter_call_def handle_obj_def handle_id_def dp_handler_setter
      split: option.splits DP_PROP_TP_E.splits TY_OBJ_DP_VALUE_U.splits)

lemma handle_all_setters:
  "list_all (\<lambda>d. setter_call d \<noteq> None) ds \<Longrightarrow>
   handle_all p (ds @ es) s = handle_all p es (s\<lparr>calls := calls s @ map (the \<circ> setter_call) ds\<rparr>)"
  by (induction ds arbitrary: s) (auto simp: handle_obj_setter issue_def)

lemma unat_byte_Suc: "unat (i :: byte) < 255 \<Longrightarrow> unat (i + 1) = Suc (unat i)"
  by (subst unat_add_lem [THEN iffD1]) simp_all

lemma dp_loop_is_handle_all:
  assumes "length dps \<le> 255" "unat i \<le> length dps"
  shows "dp_loop p dps i s = Some (handle_all p (drop (unat i) dps) s)"
  using assms(2)
proof (induction "length dps - unat i" arbitrary: i s)
  case 0
  then show ?case by (subst dp_loop.simps) simp
next
  case (Suc n)
  then have lt: "unat i < length dps" by simp
  with assms(1) have next_i: "unat (i + 1) = Suc (unat i)" by (simp add: unat_byte_Suc)
  have IH: "dp_loop p dps (i + 1) t = Some (handle_all p (drop (Suc (unat i)) dps) t)" for t
    using Suc.hyps(1) [of "i + 1" t] Suc.hyps(2) lt next_i by simp
  have "drop (unat i) dps = dps ! unat i # drop (Suc (unat i)) dps"
    using lt by (simp add: Cons_nth_drop_Suc)
  with lt IH show ?case
    by (subst dp_loop.simps) (simp split: prod.split)
qed

lemma dp_loop_setters_wrap:
  assumes "dp_loop p dps i s = Some y"
  shows "256 \<le> length dps \<longrightarrow> list_all (\<lambda>d. setter_call d \<noteq> None) dps \<longrightarrow> False"
proof (rule dp_loop.raw_induct [OF _ assms], goal_cases)
  case (1 f p dps i s y)
  show ?case
  proof (intro impI)
    assume long: "256 \<le> length dps" and sett: "list_all (\<lambda>d. setter_call d \<noteq> None) dps"
    have "unat i < 2 ^ 8" using unsigned_less [of i] by simp
    with long have lt: "unat i < length dps" by simp
    with sett obtain c where "setter_call (dps ! unat i) = Some c"
      by (auto simp: list_all_length)
    with lt 1(2) have "f p dps (i + 1) (issue c s) = Some y"
      by (simp add: handle_obj_setter)
    from 1(1) [OF this] long sett show False by blast
  qed
qed

text \<open>A data point that is refused whatever the state: one of type value or bool whose number is no
  enumerator or has no case of its own.\<close>

definition refused_dp :: "TY_OBJ_DP_S \<Rightarrow> bool" where
  "refused_dp d =
     ((case (dp_tp d, dp_val d) of
         (PROP_VALUE, Dp_value v) \<Rightarrow> True | (PROP_BOOL, Dp_bool b) \<Rightarrow> True | _ \<Rightarrow> False) \<and>
      (case Dp_of (dpid d) of None \<Rightarrow> True
       | Some dp \<Rightarrow> dp \<notin> {sys_cmd, water_manual_calib, language} \<and> map_of dp_setters dp = None))"

lemma handle_obj_refused: "refused_dp d \<Longrightarrow> handle_obj p d s = (False, s)"
  by (auto simp: refused_dp_def handle_obj_def handle_id_def dp_handler_def
      split: option.splits DP_PROP_TP_E.splits TY_OBJ_DP_VALUE_U.splits)



text \<open>
  C38: A batch of 256 or more data points that are all stored as they come is never left: the index
  is a byte and wraps to zero before it reaches the count.\<close>

theorem dp_batch_overlong_never_ends:
  assumes "256 \<le> length dps" "list_all (\<lambda>d. setter_call d \<noteq> None) dps"
  shows "dev_obj_dp_cb p dps s = None"
proof (cases "dp_loop p dps 0 s")
  case (Some y)
  from dp_loop_setters_wrap [OF this] assms show ?thesis by blast
qed (simp add: dev_obj_dp_cb_def)

theorem dp_batch_overlong_never_ends_witness:
  "dev_obj_dp_cb example_iot
     (replicate 256 \<lparr>dpid = 101, dp_tp = PROP_VALUE, dp_val = Dp_value 40, time_stamp = 0\<rparr>)
     iot_init = None"
proof (rule dp_batch_overlong_never_ends)
  have "setter_call \<lparr>dpid = 101, dp_tp = PROP_VALUE, dp_val = Dp_value 40, time_stamp = 0\<rparr> \<noteq> None"
    by code_simp
  then show "list_all (\<lambda>d. setter_call d \<noteq> None)
     (replicate 256 \<lparr>dpid = 101, dp_tp = PROP_VALUE, dp_val = Dp_value 40, time_stamp = 0\<rparr>)"
    by (simp add: list_all_iff)
qed simp

section \<open>The identity of the device\<close>

text \<open>Both credential stores return what was stored in them last.\<close>

definition cred_stores :: "iot_platform \<Rightarrow> string \<times> string \<Rightarrow> string \<times> string \<Rightarrow> bool" where
  "cred_stores p n0 d0 \<longleftrightarrow>
     (\<forall>tr. nvs_credentials p tr = last_nvs n0 tr \<and> sd_credentials p tr = last_sd d0 tr)"

lemma last_nvs_snoc:
  "last_nvs a (tr @ [c]) = (case c of Nvs_store_credentials u k \<Rightarrow> (u, k) | _ \<Rightarrow> last_nvs a tr)"
  by (simp add: last_nvs_def split: iot_call.split)

lemma last_sd_snoc:
  "last_sd a (tr @ [c]) = (case c of Sd_store_credentials u k \<Rightarrow> (u, k) | _ \<Rightarrow> last_sd a tr)"
  by (simp add: last_sd_def split: iot_call.split)

lemmas last_cred_snoc = last_nvs_snoc last_sd_snoc



text \<open>The registration stores the pair the other way round than \<^verbatim>\<open>get_credentials\<close> does: a device
  that registers and then reads its identity uses the key as its identifier.\<close>

lemma register_swaps_credentials:
  assumes "cred_stores p n0 d0" "factory_register p (calls s) = Some (uuid, key, col)"
    and "register_in_cloud p s = (True, s1)" "get_credentials p s1 = (True, s2)"
    and "\<not> has_credentials p (fst (nvs_credentials p (calls s1))) (snd (nvs_credentials p (calls s1)))"
  shows "m_uuid s2 = key \<and> m_authkey s2 = uuid"
  using assms
  by (auto simp: register_in_cloud_def get_credentials_def cred_stores_def Let_def issue_def
      last_nvs_def last_sd_def split: if_splits prod.splits)

lemma register_tries_bound:
  "\<exists>tr. calls (register_tries p n s) = calls s @ tr \<and>
        length (filter (\<lambda>c. c = Api_get ''/ivy/factory-register'') tr) \<le> n"
proof (induction n arbitrary: s)
  case (Suc n)
  show ?case
  proof (cases "factory_register p (calls s)")
    case None
    let ?s1 = "issue (Iot_delay 1000) (issue (Api_get ''/ivy/factory-register'') s)"
    from Suc [of ?s1] obtain tr where "calls (register_tries p n ?s1) = calls ?s1 @ tr"
      "length (filter (\<lambda>c. c = Api_get ''/ivy/factory-register'') tr) \<le> n" by blast
    with None show ?thesis by (auto simp: register_in_cloud_def)
  qed (auto simp: register_in_cloud_def)
qed simp

section \<open>Synchronised time\<close>

lemma unat_div_1000: "unat ((m :: uint32) div 1000) = unat m div 1000"
  by (simp add: unat_div)

text \<open>
  Time synchronisation is exact until the millisecond counter wraps. After the clock is set to
  \<open>t\<close> at counter value \<open>m0\<close>, a reading at a later value \<open>m1\<close> of the same counter period is \<open>t\<close> plus
  the whole seconds counted in between, whatever \<open>t\<close>, in 32-bit arithmetic.\<close>

lemma synced_timestamp_exact:
  assumes "millis p (calls s) = m1" "unat m0 \<le> unat m1"
  shows "get_synced_timestamp p (set_time_sync t (m0 div 1000) s) =
    t + of_nat (unat m1 div 1000 - unat m0 div 1000)"
proof -
  have le: "unat m0 div 1000 \<le> unat m1 div 1000" using assms(2) by (rule div_le_mono)
  have "m1 div 1000 - m0 div 1000 = of_nat (unat (m1 div 1000)) - of_nat (unat (m0 div 1000))"
    by simp
  also have "\<dots> = of_nat (unat m1 div 1000 - unat m0 div 1000)"
    using le by (simp only: unat_div_1000 of_nat_diff)
  finally show ?thesis
    using assms(1) by (simp add: get_synced_timestamp_def set_time_sync_def add.commute)
qed

end
