(* ===== verification/Uart.thy ===== *)
theory Uart
  imports Prelude
begin

text \<open>
  The serial port adapter, \<^verbatim>\<open>tuya/tuyaos_adapter/src/driver/tkl_uart.c\<close>. The state holds the three
  global variables of the file: the receiving task, the event queue and the callback of each port.
  A port number out of range trips an \<^verbatim>\<open>assert\<close>, which is the result \<open>None\<close>. The lemmas follow the
  receiving task through the calls: at most one is alive, and a task is only deleted while it is.
\<close>

section \<open>Data\<close>

definition MAX_UART_NUM :: nat where [simp]: "MAX_UART_NUM = 2"
definition UART_PIN_NO_CHANGE :: int where [simp]: "UART_PIN_NO_CHANGE = - 1"

text \<open>The pins of a port: transmit, receive, request to send, clear to send.\<close>

definition uart_pins :: "nat \<Rightarrow> int \<times> int \<times> int \<times> int" where
  "uart_pins uart_num =
     (if uart_num = 1 then (17, 18, UART_PIN_NO_CHANGE, UART_PIN_NO_CHANGE)
      else (43, 44, UART_PIN_NO_CHANGE, UART_PIN_NO_CHANGE))"

datatype uart_word_length_t = UART_DATA_5_BITS | UART_DATA_6_BITS | UART_DATA_7_BITS | UART_DATA_8_BITS

datatype uart_stop_bits_t = UART_STOP_BITS_1 | UART_STOP_BITS_1_5 | UART_STOP_BITS_2

datatype uart_parity_t = UART_PARITY_DISABLE | UART_PARITY_EVEN | UART_PARITY_ODD

datatype uart_event_type_t =
    UART_DATA | UART_BREAK | UART_BUFFER_FULL | UART_FIFO_OVF | UART_FRAME_ERR | UART_PARITY_ERR
  | UART_DATA_BREAK | UART_PATTERN_DET | UART_EVENT_MAX

record TUYA_UART_BASE_CFG_T =
  baudrate :: uint32
  parity :: int
  databits :: int
  stopbits :: int

record uart_config_t =
  data_bits :: uart_word_length_t
  stop_bits :: uart_stop_bits_t
  uart_parity :: uart_parity_t
  baud_rate :: uint32
  rx_flow_ctrl_thresh :: nat

datatype uart_call =
    Uart_param_config nat uart_config_t
  | Uart_set_pin nat "int \<times> int \<times> int \<times> int"
  | Uart_driver_install nat nat nat nat
  | Uart_disable_rx_intr nat
  | Uart_enable_rx_intr nat
  | Uart_driver_delete nat
  | Uart_task_create nat
  | Uart_task_delete nat
  | Uart_task_exit
  | Uart_write_bytes nat "byte list"
  | Uart_read_bytes nat nat
  | Uart_enable_tx_intr nat nat nat
  | Uart_disable_tx_intr nat
  | Uart_rx_callback nat nat

record uart_platform =
  uart_ret :: "uart_call list \<Rightarrow> uart_call \<Rightarrow> int"
  uart_new_task :: "uart_call list \<Rightarrow> nat option"
  uart_new_queue :: "uart_call list \<Rightarrow> nat"

text \<open>A callback is a number; 0 is \<^verbatim>\<open>NULL\<close>.\<close>

record uart = "uart_call machine" +
  tkl_uart_thread :: "nat option"
  uart_rx_cb :: "nat list"
  tkl_uart_rx_queue :: "nat option"

definition uart_init_state :: uart where
  "uart_init_state =
     \<lparr>calls = [], tkl_uart_thread = None, uart_rx_cb = [0, 0], tkl_uart_rx_queue = None\<rparr>"

section \<open>Operations\<close>

definition uart_data_bits :: "int \<Rightarrow> uart_word_length_t option" where
  "uart_data_bits d =
     (if d = 5 then Some UART_DATA_5_BITS else if d = 6 then Some UART_DATA_6_BITS
      else if d = 7 then Some UART_DATA_7_BITS else if d = 8 then Some UART_DATA_8_BITS else None)"

definition uart_stop_bits :: "int \<Rightarrow> uart_stop_bits_t option" where
  "uart_stop_bits d =
     (if d = 1 then Some UART_STOP_BITS_1 else if d = 3 then Some UART_STOP_BITS_2
      else if d = 2 then Some UART_STOP_BITS_1_5 else None)"

definition uart_parity_of :: "int \<Rightarrow> uart_parity_t option" where
  "uart_parity_of d =
     (if d = 0 then Some UART_PARITY_DISABLE else if d = 2 then Some UART_PARITY_EVEN
      else if d = 1 then Some UART_PARITY_ODD else None)"

definition tkl_uart_init ::
  "uart_platform \<Rightarrow> nat \<Rightarrow> TUYA_UART_BASE_CFG_T option \<Rightarrow> uart \<Rightarrow> int \<times> uart" where
  "tkl_uart_init p uart_num cfg s =
     (case cfg of None \<Rightarrow> (OPRT_INVALID_PARM, s)
      | Some c \<Rightarrow>
        if MAX_UART_NUM \<le> uart_num then (OPRT_INVALID_PARM, s)
        else (case (uart_data_bits (databits c), uart_stop_bits (stopbits c), uart_parity_of (parity c)) of
            (Some db, Some sb, Some pa) \<Rightarrow>
              let conf = \<lparr>data_bits = db, stop_bits = sb, uart_parity = pa, baud_rate = baudrate c,
                          rx_flow_ctrl_thresh = 122\<rparr>
              in try_calls (uart_ret p)
                   [Uart_param_config uart_num conf, Uart_set_pin uart_num (uart_pins uart_num)]
                   OPRT_COM_ERROR
                   (\<lambda>s1. try_call (uart_ret p) (Uart_driver_install uart_num 256 0 10) OPRT_COM_ERROR
                      (\<lambda>s2. (OPRT_OK, s2\<lparr>tkl_uart_rx_queue := Some (uart_new_queue p (calls s1))\<rparr>))
                      s1)
                   s
          | _ \<Rightarrow> (OPRT_INVALID_PARM, s)))"

definition uart_stop_thread :: "uart \<Rightarrow> uart" where
  "uart_stop_thread s =
     (case tkl_uart_thread s of None \<Rightarrow> s
      | Some t \<Rightarrow> (issue (Uart_task_delete t) s)\<lparr>tkl_uart_thread := None\<rparr>)"

definition tkl_uart_deinit :: "uart_platform \<Rightarrow> nat \<Rightarrow> uart \<Rightarrow> int option \<times> uart" where
  "tkl_uart_deinit p uart_num s =
     (if \<not> uart_num < MAX_UART_NUM then (None, s)
      else
        let s1 = issue (Uart_disable_rx_intr uart_num) s
        in try_call (uart_ret p) (Uart_driver_delete uart_num) (Some OPRT_COM_ERROR)
             (\<lambda>s2. (Some OPRT_OK, (uart_stop_thread s2)\<lparr>tkl_uart_rx_queue := None\<rparr>)) s1)"

definition tkl_uart_write ::
  "uart_platform \<Rightarrow> nat \<Rightarrow> byte list option \<Rightarrow> uint16 \<Rightarrow> uart \<Rightarrow> int option \<times> uart" where
  "tkl_uart_write p uart_num buff len s =
     (if \<not> uart_num < MAX_UART_NUM then (None, s)
      else case buff of None \<Rightarrow> (Some OPRT_INVALID_PARM, s)
        | Some b \<Rightarrow>
          if len = 0 then (Some OPRT_INVALID_PARM, s)
          else let c = Uart_write_bytes uart_num (take (unat len) b)
               in (Some (uart_ret p (calls s) c), issue c s))"

definition tkl_uart_read ::
  "uart_platform \<Rightarrow> nat \<Rightarrow> byte list option \<Rightarrow> uint16 \<Rightarrow> uart \<Rightarrow> int option \<times> uart" where
  "tkl_uart_read p uart_num buff len s =
     (if \<not> uart_num < MAX_UART_NUM then (None, s)
      else if buff = None \<or> len = 0 then (Some OPRT_INVALID_PARM, s)
      else let c = Uart_read_bytes uart_num 1 in (Some (uart_ret p (calls s) c), issue c s))"

definition tkl_uart_rx_irq_cb_reg :: "uart_platform \<Rightarrow> nat \<Rightarrow> nat \<Rightarrow> uart \<Rightarrow> unit option \<times> uart" where
  "tkl_uart_rx_irq_cb_reg p uart_num rx_cb s =
     (if \<not> uart_num < MAX_UART_NUM then (None, s)
      else if tkl_uart_rx_queue s = None then (Some (), s)
      else
        let s1 = uart_stop_thread s; s2 = issue (Uart_task_create uart_num) s1
        in case uart_new_task p (calls s1) of
             None \<Rightarrow> (Some (), s2)
           | Some t \<Rightarrow>
               (Some (), (issue (Uart_enable_rx_intr uart_num) (s2\<lparr>tkl_uart_thread := Some t\<rparr>))
                  \<lparr>uart_rx_cb := (uart_rx_cb s)[uart_num := rx_cb]\<rparr>))"

definition tkl_uart_set_tx_int :: "uart_platform \<Rightarrow> nat \<Rightarrow> bool \<Rightarrow> uart \<Rightarrow> int option \<times> uart" where
  "tkl_uart_set_tx_int p uart_num enable s =
     (if \<not> uart_num < MAX_UART_NUM then (None, s)
      else
        let c = (if enable then Uart_enable_tx_intr uart_num 1 10 else Uart_disable_tx_intr uart_num)
        in (Some (if uart_ret p (calls s) c = ESP_OK then OPRT_OK else OPRT_COM_ERROR), issue c s))"

definition tkl_uart_tx_irq_cb_reg :: "nat \<Rightarrow> nat \<Rightarrow> uart \<Rightarrow> uart" where
  "tkl_uart_tx_irq_cb_reg port tx_cb s = s"

text \<open>The receiving task, on the events it takes from the queue until a receive fails.\<close>

fun tkl_uart_rx_process :: "nat \<Rightarrow> uart_event_type_t list \<Rightarrow> uart \<Rightarrow> uart" where
  "tkl_uart_rx_process uart_num [] s = issue Uart_task_exit s"
| "tkl_uart_rx_process uart_num (ev # evs) s =
     (if tkl_uart_rx_queue s = None then issue Uart_task_exit s
      else if ev = UART_DATA \<and> uart_rx_cb s ! uart_num \<noteq> 0
      then tkl_uart_rx_process uart_num evs
             (issue (Uart_rx_callback (uart_rx_cb s ! uart_num) uart_num) s)
      else tkl_uart_rx_process uart_num evs s)"

datatype uart_op =
    Init_op nat "TUYA_UART_BASE_CFG_T option"
  | Deinit_op nat
  | Write_op nat "byte list option" uint16
  | Read_op nat "byte list option" uint16
  | Rx_reg_op nat nat
  | Tx_int_op nat bool

primrec uart_step :: "uart_platform \<Rightarrow> uart_op \<Rightarrow> uart \<Rightarrow> uart" where
  "uart_step p (Init_op n cfg) s = snd (tkl_uart_init p n cfg s)"
| "uart_step p (Deinit_op n) s = snd (tkl_uart_deinit p n s)"
| "uart_step p (Write_op n b len) s = snd (tkl_uart_write p n b len s)"
| "uart_step p (Read_op n b len) s = snd (tkl_uart_read p n b len s)"
| "uart_step p (Rx_reg_op n cb) s = snd (tkl_uart_rx_irq_cb_reg p n cb s)"
| "uart_step p (Tx_int_op n en) s = snd (tkl_uart_set_tx_int p n en s)"

section \<open>The receiving task\<close>

text \<open>The tasks alive after a list of calls.\<close>

definition live_tasks :: "uart_platform \<Rightarrow> uart_call list \<Rightarrow> nat set" where
  "live_tasks p tr =
     hist (\<lambda>h c a. case c of
         Uart_task_create _ \<Rightarrow> (case uart_new_task p h of None \<Rightarrow> a | Some t \<Rightarrow> insert t a)
       | Uart_task_delete t \<Rightarrow> a - {t}
       | _ \<Rightarrow> a) {} tr"

definition delete_live :: "uart_platform \<Rightarrow> uart_call list \<Rightarrow> uart_call \<Rightarrow> bool" where
  "delete_live p h c = (case c of Uart_task_delete t \<Rightarrow> live_tasks p h = {t} | _ \<Rightarrow> True)"

definition uart_inv :: "uart_platform \<Rightarrow> uart \<Rightarrow> bool" where
  "uart_inv p s \<longleftrightarrow>
     live_tasks p (calls s) = set_option (tkl_uart_thread s) \<and>
     (tkl_uart_rx_queue s = None \<longrightarrow> tkl_uart_thread s = None) \<and>
     length (uart_rx_cb s) = MAX_UART_NUM \<and>
     every_call (delete_live p) (calls s)"

lemma live_tasks_append:
  "live_tasks p (tr @ [c]) =
     (case c of
         Uart_task_create _ \<Rightarrow>
           (case uart_new_task p tr of None \<Rightarrow> live_tasks p tr | Some t \<Rightarrow> insert t (live_tasks p tr))
       | Uart_task_delete t \<Rightarrow> live_tasks p tr - {t}
       | _ \<Rightarrow> live_tasks p tr)"
  by (cases c) (simp_all add: live_tasks_def split: option.split)

lemma live_tasks_enable [simp]:
  "live_tasks p (tr @ [c, Uart_enable_rx_intr n]) = live_tasks p (tr @ [c])"
  using live_tasks_append [of p "tr @ [c]" "Uart_enable_rx_intr n"] by simp

text \<open>A call that is not about tasks.\<close>

definition quiet :: "uart_call \<Rightarrow> bool" where
  "quiet c = (case c of Uart_task_create _ \<Rightarrow> False | Uart_task_delete _ \<Rightarrow> False | _ \<Rightarrow> True)"

lemma uart_inv_quiet: "uart_inv p s \<Longrightarrow> quiet c \<Longrightarrow> uart_inv p (issue c s)"
  by (cases c) (auto simp: uart_inv_def quiet_def live_tasks_append delete_live_def issue_def)

lemma uart_inv_stop:
  assumes "uart_inv p s"
  shows "uart_inv p (uart_stop_thread s)"
    and "tkl_uart_thread (uart_stop_thread s) = None"
    and "tkl_uart_rx_queue (uart_stop_thread s) = tkl_uart_rx_queue s"
    and "uart_rx_cb (uart_stop_thread s) = uart_rx_cb s"
  using assms
  by (cases "tkl_uart_thread s";
      auto simp: uart_stop_thread_def uart_inv_def live_tasks_append delete_live_def issue_def)+

lemma uart_inv_rx_reg: "uart_inv p s \<Longrightarrow> uart_inv p (snd (tkl_uart_rx_irq_cb_reg p n cb s))"
proof -
  assume inv: "uart_inv p s"
  note stop = uart_inv_stop [OF inv]
  show ?thesis
    using inv stop
    by (auto simp: tkl_uart_rx_irq_cb_reg_def Let_def uart_inv_def live_tasks_append
        delete_live_def issue_def every_call_from_append split: option.splits)
qed

lemma uart_inv_queue: "uart_inv p s \<Longrightarrow> uart_inv p (s\<lparr>tkl_uart_rx_queue := Some q\<rparr>)"
  by (simp add: uart_inv_def)

lemma uart_inv_init: "uart_inv p s \<Longrightarrow> uart_inv p (snd (tkl_uart_init p n cfg s))"
  by (auto simp: tkl_uart_init_def Let_def try_call_def uart_inv_queue uart_inv_quiet quiet_def
      split: option.splits)

lemma uart_inv_deinit: "uart_inv p s \<Longrightarrow> uart_inv p (snd (tkl_uart_deinit p n s))"
proof -
  assume inv: "uart_inv p s"
  let ?s2 = "issue (Uart_driver_delete n) (issue (Uart_disable_rx_intr n) s)"
  have "uart_inv p ?s2" using inv by (simp add: uart_inv_quiet quiet_def)
  from this uart_inv_stop [OF this] inv show ?thesis
    by (auto simp: tkl_uart_deinit_def Let_def try_call_def uart_inv_quiet quiet_def)
      (simp add: uart_inv_def)
qed

lemma uart_inv_step: "uart_inv p s \<Longrightarrow> uart_inv p (uart_step p i s)"
  by (cases i)
    (auto simp: uart_inv_init uart_inv_deinit uart_inv_rx_reg tkl_uart_write_def tkl_uart_read_def
      tkl_uart_set_tx_int_def Let_def uart_inv_quiet quiet_def split: option.splits)

interpretation uart_run: invariant_system uart_init_state "uart_step p" "uart_inv p" for p
  by unfold_locales (simp add: uart_inv_def uart_init_state_def live_tasks_def, rule uart_inv_step)

text \<open>
  C35: Through any sequence of operations on the serial ports at most one receiving task is alive, it
  is the one the adapter remembers, and it only lives while there is an event queue to receive from.
  Every deletion of a task names a task that is alive at that moment, so none is deleted twice.\<close>

theorem uart_single_receiver:
  "let s = fold (uart_step p) is uart_init_state
   in live_tasks p (calls s) = set_option (tkl_uart_thread s) \<and>
      (tkl_uart_rx_queue s = None \<longrightarrow> live_tasks p (calls s) = {}) \<and>
      (\<forall>pre t post. calls s = pre @ Uart_task_delete t # post \<longrightarrow> live_tasks p pre = {t})"
proof -
  define s where "s = fold (uart_step p) is uart_init_state"
  have inv: "uart_inv p s" unfolding s_def by (rule uart_run.invar_run)
  then show ?thesis
    using every_call_at unfolding s_def [symmetric] Let_def
    by (auto simp: uart_inv_def delete_live_def)
qed

text \<open>A platform for the examples: every call succeeds and a task is numbered by the calls before it.\<close>

definition example_uart :: uart_platform where
  "example_uart =
     \<lparr>uart_ret = (\<lambda>_ _. 0), uart_new_task = (\<lambda>tr. Some (length tr)), uart_new_queue = length\<rparr>"

definition example_cfg :: TUYA_UART_BASE_CFG_T where
  "example_cfg = \<lparr>baudrate = 9600, parity = 0, databits = 8, stopbits = 1\<rparr>"

theorem uart_single_receiver_witness:
  "\<exists>s. s = fold (uart_step example_uart)
         [Init_op 0 (Some example_cfg), Rx_reg_op 0 7, Rx_reg_op 0 8] uart_init_state \<and>
       live_tasks example_uart (calls s) = {6} \<and> tkl_uart_thread s = Some 6 \<and>
       calls s = take 5 (calls s) @ Uart_task_delete 3 # drop 6 (calls s) \<and>
       live_tasks example_uart (take 5 (calls s)) = {3}"
proof -
  let ?is = "[Init_op 0 (Some example_cfg), Rx_reg_op 0 7, Rx_reg_op 0 8]"
  let ?s = "fold (uart_step example_uart) ?is uart_init_state"
  have st: "tkl_uart_thread ?s = Some 6"
    "calls ?s = take 5 (calls ?s) @ Uart_task_delete 3 # drop 6 (calls ?s)"
    by code_simp+
  with uart_single_receiver [of example_uart ?is] show ?thesis
    by (metis (no_types, lifting) option.simps(15) Let_def)
qed

end
