(* ===== verification/Ble_Hci.thy ===== *)
theory Ble_Hci
  imports Prelude
begin

text \<open>
  The Bluetooth host-controller interface, \<^verbatim>\<open>tuya/tuyaos_adapter/src/driver/tkl_bt.c\<close>. Packets to the
  controller are the type byte followed by the payload, built in a buffer from the heap; packets
  from the controller are taken apart the same way. A write or read outside a buffer, which C
  leaves undefined, is the result \<open>None\<close>. The contract the two sending functions share is the locale
  \<open>packet_sender\<close>.
\<close>

section \<open>Data\<close>

definition BLE_HCI_CMD_MSG_TYPE :: byte where [simp]: "BLE_HCI_CMD_MSG_TYPE = 0x01"
definition BLE_HCI_ACL_MSG_TYPE :: byte where [simp]: "BLE_HCI_ACL_MSG_TYPE = 0x02"
definition BLE_HCI_EVT_MSG_TYPE :: byte where [simp]: "BLE_HCI_EVT_MSG_TYPE = 0x04"
definition BLE_HCI_CMD_MSG_TYPE_LEN :: uint16 where [simp]: "BLE_HCI_CMD_MSG_TYPE_LEN = 1"
definition BLE_HCI_ACL_MSG_TYPE_LEN :: uint16 where [simp]: "BLE_HCI_ACL_MSG_TYPE_LEN = 1"

text \<open>Callbacks are numbers, 0 is \<^verbatim>\<open>NULL\<close>. A buffer of the heap is named by the call that got it.\<close>

datatype hci_call =
    Hci_malloc uint16
  | Hci_free
  | Vhci_host_send_packet "byte list"
  | Hci_callback nat "byte list"
  | Bt_controller_mem_release_classic
  | Bt_controller_init
  | Bt_controller_enable_ble
  | Vhci_host_register_callback
  | Bt_controller_disable
  | Bt_controller_deinit

record hci_platform =
  hci_ret :: "hci_call list \<Rightarrow> hci_call \<Rightarrow> int"
  host_check_send_available :: "hci_call list \<Rightarrow> bool"
  hci_malloc_ok :: "hci_call list \<Rightarrow> hci_call \<Rightarrow> bool"

record hci = "hci_call machine" +
  tuya_ble_hci_rx_cmd_hs_cb :: nat
  tuya_ble_hci_rx_acl_hs_cb :: nat

definition hci_init_state :: hci where
  "hci_init_state = \<lparr>calls = [], tuya_ble_hci_rx_cmd_hs_cb = 0, tuya_ble_hci_rx_acl_hs_cb = 0\<rparr>"

text \<open>\<^verbatim>\<open>memcpy(dst + off, src, n)\<close> into a buffer; \<open>None\<close> when either side is too short.\<close>

definition memcpy_at :: "byte list \<Rightarrow> nat \<Rightarrow> byte list \<Rightarrow> nat \<Rightarrow> byte list option" where
  "memcpy_at dst off src n =
     (if n \<le> length src \<and> off + n \<le> length dst
      then Some (take off dst @ take n src @ drop (off + n) dst) else None)"

section \<open>Operations\<close>

text \<open>A packet from the controller. The subtraction of the type byte is in 16 bits.\<close>

definition tuya_ble_hci_ll_tx :: "byte list option \<Rightarrow> uint16 \<Rightarrow> hci \<Rightarrow> int \<times> hci" where
  "tuya_ble_hci_ll_tx data len s =
     (case data of None \<Rightarrow> (- 1, s)
      | Some d \<Rightarrow>
        if len = 0 then (- 1, s)
        else if d ! 0 = BLE_HCI_EVT_MSG_TYPE then
          (0, if tuya_ble_hci_rx_cmd_hs_cb s \<noteq> 0
              then issue (Hci_callback (tuya_ble_hci_rx_cmd_hs_cb s)
                     (take (unat (len - BLE_HCI_CMD_MSG_TYPE_LEN)) (drop 1 d))) s
              else s)
        else if d ! 0 = BLE_HCI_ACL_MSG_TYPE then
          (0, if tuya_ble_hci_rx_acl_hs_cb s \<noteq> 0
              then issue (Hci_callback (tuya_ble_hci_rx_acl_hs_cb s)
                     (take (unat (len - BLE_HCI_ACL_MSG_TYPE_LEN)) (drop 1 d))) s
              else s)
        else (0, s))"

text \<open>Writing the type byte and the payload into a fresh buffer of \<open>n\<close> bytes.\<close>

definition fill_packet :: "uint16 \<Rightarrow> byte \<Rightarrow> byte list \<Rightarrow> uint16 \<Rightarrow> byte list option" where
  "fill_packet n tag p_buf buf_len =
     (if unat n = 0 then None
      else memcpy_at ((replicate (unat n) 0)[0 := tag]) 1 p_buf (unat buf_len))"

definition tkl_hci_cmd_packet_send ::
  "hci_platform \<Rightarrow> byte list option \<Rightarrow> uint16 \<Rightarrow> hci \<Rightarrow> (int \<times> hci) option" where
  "tkl_hci_cmd_packet_send p p_buf buf_len s =
     (case p_buf of None \<Rightarrow> Some (OPRT_INVALID_PARM, s)
      | Some src \<Rightarrow>
        if buf_len = 0 then Some (OPRT_INVALID_PARM, s)
        else if \<not> host_check_send_available p (calls s) then Some (OPRT_COM_ERROR, s)
        else
          let cmd_buf_len = buf_len + BLE_HCI_CMD_MSG_TYPE_LEN;
              c = Hci_malloc cmd_buf_len; s1 = issue c s
          in if \<not> hci_malloc_ok p (calls s) c then Some (OPRT_MALLOC_FAILED, s1)
             else case fill_packet cmd_buf_len BLE_HCI_CMD_MSG_TYPE src buf_len of
                    None \<Rightarrow> None
                  | Some cmd_buf \<Rightarrow>
                      Some (OPRT_OK, issue Hci_free (issue (Vhci_host_send_packet cmd_buf) s1)))"

definition tkl_hci_acl_packet_send ::
  "hci_platform \<Rightarrow> byte list option \<Rightarrow> uint16 \<Rightarrow> hci \<Rightarrow> (int \<times> hci) option" where
  "tkl_hci_acl_packet_send p p_buf buf_len s =
     (case p_buf of None \<Rightarrow> Some (OPRT_INVALID_PARM, s)
      | Some src \<Rightarrow>
        if buf_len = 0 then Some (OPRT_INVALID_PARM, s)
        else if \<not> host_check_send_available p (calls s) then Some (OPRT_COM_ERROR, s)
        else
          let acl_buf_len = buf_len + BLE_HCI_ACL_MSG_TYPE_LEN;
              c = Hci_malloc acl_buf_len; s1 = issue c s
          in if \<not> hci_malloc_ok p (calls s) c then Some (OPRT_MALLOC_FAILED, s1)
             else case fill_packet acl_buf_len BLE_HCI_ACL_MSG_TYPE src buf_len of
                    None \<Rightarrow> None
                  | Some acl_buf \<Rightarrow>
                      Some (OPRT_OK, issue Hci_free (issue (Vhci_host_send_packet acl_buf) s1)))"

definition tkl_hci_callback_register :: "nat \<Rightarrow> nat \<Rightarrow> hci \<Rightarrow> int \<times> hci" where
  "tkl_hci_callback_register hci_evt_cb acl_pkt_cb s =
     (OPRT_OK, s\<lparr>tuya_ble_hci_rx_cmd_hs_cb := hci_evt_cb, tuya_ble_hci_rx_acl_hs_cb := acl_pkt_cb\<rparr>)"

definition tkl_hci_reset :: "hci_platform \<Rightarrow> hci \<Rightarrow> int \<times> hci" where
  "tkl_hci_reset p s =
     (if \<not> host_check_send_available p (calls s) then (OPRT_COM_ERROR, s) else (OPRT_OK, s))"

definition tkl_hci_init :: "hci_platform \<Rightarrow> hci \<Rightarrow> int \<times> hci" where
  "tkl_hci_init p s =
     try_calls (hci_ret p)
       [Bt_controller_mem_release_classic, Bt_controller_init, Bt_controller_enable_ble]
       OPRT_COM_ERROR (\<lambda>s1. (OPRT_OK, issue Vhci_host_register_callback s1)) s"

definition tkl_hci_deinit :: "hci_platform \<Rightarrow> hci \<Rightarrow> int \<times> hci" where
  "tkl_hci_deinit p s =
     try_calls (hci_ret p) [Bt_controller_disable, Bt_controller_deinit]
       OPRT_COM_ERROR (\<lambda>s1. (OPRT_OK, s1)) s"

section \<open>Framing\<close>

text \<open>What a sending function promises: a packet shorter than 65535 bytes is sent as the type byte
  and the payload, from a buffer that is freed; nothing is sent otherwise.\<close>

locale packet_sender =
  fixes send :: "hci_platform \<Rightarrow> byte list option \<Rightarrow> uint16 \<Rightarrow> hci \<Rightarrow> (int \<times> hci) option"
    and tag :: byte
  assumes frames: "0 < length buf \<Longrightarrow> length buf < 65535 \<Longrightarrow>
      send p (Some buf) (of_nat (length buf)) s =
        Some (if \<not> host_check_send_available p (calls s) then (OPRT_COM_ERROR, s)
              else let c = Hci_malloc (of_nat (length buf) + 1)
                   in if hci_malloc_ok p (calls s) c
                      then (OPRT_OK,
                        s\<lparr>calls := calls s @ [c, Vhci_host_send_packet (tag # buf), Hci_free]\<rparr>)
                      else (OPRT_MALLOC_FAILED, issue c s))"
    and overlong: "length buf = 65535 \<Longrightarrow> host_check_send_available p (calls s) \<Longrightarrow>
      hci_malloc_ok p (calls s) (Hci_malloc 0) \<Longrightarrow> send p (Some buf) (of_nat (length buf)) s = None"
begin

lemma sent_when_ok:
  assumes "0 < length buf" "length buf < 65535"
    and "send p (Some buf) (of_nat (length buf)) s = Some (OPRT_OK, s')"
  shows "\<exists>c. calls s' = calls s @ [c, Vhci_host_send_packet (tag # buf), Hci_free]"
  using assms frames [OF assms(1,2), of p s] by (auto simp: Let_def split: if_splits)

lemma never_out_of_bounds:
  "0 < length buf \<Longrightarrow> length buf < 65535 \<Longrightarrow> send p (Some buf) (of_nat (length buf)) s \<noteq> None"
  by (simp add: frames)

end

lemma unat_of_nat_16: "n < 65536 \<Longrightarrow> unat (of_nat n :: uint16) = n"
  by (simp add: unsigned_of_nat take_bit_nat_eq_self)

lemma unat_Suc_16: "n < 65535 \<Longrightarrow> unat ((of_nat n :: uint16) + 1) = Suc n"
  using unat_of_nat_16 [of "Suc n"] by (simp add: add.commute)

lemma fill_packet_exact:
  assumes "length buf < 65535"
  shows "fill_packet (of_nat (length buf) + 1) tag buf (of_nat (length buf)) = Some (tag # buf)"
  using assms
  by (simp add: fill_packet_def memcpy_at_def unat_Suc_16 unat_of_nat_16 del: of_nat_Suc)

lemma wrap_16: "(65536 :: uint16) = 0"
proof -
  have "(65536 :: uint16) = of_nat 65535 + 1" by simp
  also have "\<dots> = 0" by (rule unsigned_word_eqI) (simp add: unat_of_nat_16)
  finally show ?thesis .
qed

lemma fill_packet_overlong: "fill_packet 0 tag buf n = None"
  by (simp add: fill_packet_def)

lemma of_nat_nonzero_16: "0 < n \<Longrightarrow> n < 65536 \<Longrightarrow> (of_nat n :: uint16) \<noteq> 0"
  using unat_of_nat_16 [of n] by (metis less_numeral_extra(3) unsigned_0)

interpretation cmd_sender: packet_sender tkl_hci_cmd_packet_send BLE_HCI_CMD_MSG_TYPE
  by unfold_locales
    (simp_all add: tkl_hci_cmd_packet_send_def fill_packet_exact of_nat_nonzero_16 Let_def
      issue_def fill_packet_overlong wrap_16)

interpretation acl_sender: packet_sender tkl_hci_acl_packet_send BLE_HCI_ACL_MSG_TYPE
  by unfold_locales
    (simp_all add: tkl_hci_acl_packet_send_def fill_packet_exact of_nat_nonzero_16 Let_def
      issue_def fill_packet_overlong wrap_16)

lemma ll_tx_acl:
  assumes "length buf < 65535" "tuya_ble_hci_rx_acl_hs_cb r \<noteq> 0"
  shows "tuya_ble_hci_ll_tx (Some (BLE_HCI_ACL_MSG_TYPE # buf)) (of_nat (Suc (length buf))) r =
    (0, issue (Hci_callback (tuya_ble_hci_rx_acl_hs_cb r) buf) r)"
proof -
  have "(of_nat (Suc (length buf)) :: uint16) \<noteq> 0"
    using assms(1) by (intro of_nat_nonzero_16) simp_all
  moreover have "(of_nat (Suc (length buf)) :: uint16) - BLE_HCI_ACL_MSG_TYPE_LEN = of_nat (length buf)"
    by simp
  ultimately show ?thesis
    using assms unat_of_nat_16 [of "length buf"]
    by (simp add: tuya_ble_hci_ll_tx_def del: of_nat_Suc BLE_HCI_ACL_MSG_TYPE_LEN_def)
qed

text \<open>
  C36: Framing of data packets is a round trip. A successful send of a payload of at most 65534
  bytes hands the controller one packet, one byte longer than the payload, from a buffer that is
  freed afterwards; the receiving side, given that packet, delivers exactly the payload to the data
  callback.\<close>

theorem hci_framing_round_trip:
  assumes "0 < length buf" "length buf < 65535" "tuya_ble_hci_rx_acl_hs_cb r \<noteq> 0"
    and "tkl_hci_acl_packet_send p (Some buf) (of_nat (length buf)) s = Some (OPRT_OK, s')"
  shows "\<exists>c pkt. calls s' = calls s @ [c, Vhci_host_send_packet pkt, Hci_free] \<and>
    length pkt = length buf + 1 \<and>
    tuya_ble_hci_ll_tx (Some pkt) (of_nat (length pkt)) r =
      (0, issue (Hci_callback (tuya_ble_hci_rx_acl_hs_cb r) buf) r)"
proof -
  obtain c where
    "calls s' = calls s @ [c, Vhci_host_send_packet (BLE_HCI_ACL_MSG_TYPE # buf), Hci_free]"
    using acl_sender.sent_when_ok [OF assms(1,2,4)] by blast
  with ll_tx_acl [OF assms(2,3)] show ?thesis
    by (intro exI [of _ c] exI [of _ "BLE_HCI_ACL_MSG_TYPE # buf"]) simp
qed

definition example_hci :: hci_platform where
  "example_hci =
     \<lparr>hci_ret = (\<lambda>_ _. 0), host_check_send_available = (\<lambda>_. True), hci_malloc_ok = (\<lambda>_ _. True)\<rparr>"

theorem hci_framing_round_trip_witness:
  "\<exists>c pkt. calls (snd (the (tkl_hci_acl_packet_send example_hci (Some [7, 8]) 2 hci_init_state))) =
      [c, Vhci_host_send_packet pkt, Hci_free] \<and> length pkt = 3 \<and>
    tuya_ble_hci_ll_tx (Some pkt) (of_nat (length pkt)) (snd (tkl_hci_callback_register 5 6 hci_init_state)) =
      (0, issue (Hci_callback 6 [7, 8]) (snd (tkl_hci_callback_register 5 6 hci_init_state)))"
proof -
  obtain s' where s': "tkl_hci_acl_packet_send example_hci (Some [7, 8]) 2 hci_init_state = Some (OPRT_OK, s')"
    using acl_sender.frames [of "[7, 8]" example_hci hci_init_state]
    by (simp add: example_hci_def Let_def)
  then show ?thesis
    using hci_framing_round_trip [of "[7, 8]" "snd (tkl_hci_callback_register 5 6 hci_init_state)"
        example_hci hci_init_state s']
    by (simp add: hci_init_state_def tkl_hci_callback_register_def numeral_3_eq_3)
qed

text \<open>
  A payload of 65535 bytes is written outside its buffer: the length of the packet is computed
  in 16 bits and wraps to zero, for commands and for data alike.\<close>

lemma hci_length_wraps:
  assumes "length buf = 65535" "host_check_send_available p (calls s)"
    and "hci_malloc_ok p (calls s) (Hci_malloc 0)"
  shows "tkl_hci_cmd_packet_send p (Some buf) (of_nat (length buf)) s = None \<and>
    tkl_hci_acl_packet_send p (Some buf) (of_nat (length buf)) s = None"
  using cmd_sender.overlong [OF assms] acl_sender.overlong [OF assms] by simp

end
