(* ===== verification/Wifi.thy ===== *)
theory Wifi
  imports Net_Addr
begin

text \<open>
  The Wi-Fi adapter, \<^verbatim>\<open>tuya/tuyaos_adapter/src/driver/tkl_wifi.c\<close>. The state holds the global
  variables of the file; the driver underneath (\<^verbatim>\<open>esp_wifi\<close>, \<^verbatim>\<open>esp_netif\<close>, \<^verbatim>\<open>nvs\<close>) is the parameter.
  A failed \<^verbatim>\<open>assert\<close> and a write past a field are the result \<open>None\<close>. The event handler is shown to
  refine a three-line description of a link that is up with an address or down, from which follows
  that an address handed out is the one of the last \<^verbatim>\<open>IP_EVENT_STA_GOT_IP\<close>, and that its text reads back
  as that address. The scan is shown to return every access point the driver found.
\<close>

section \<open>Data\<close>

datatype (plugins only: code) WF_STATION_STAT_E =
    WSS_IDLE | WSS_CONNECTING | WSS_PASSWD_WRONG | WSS_NO_AP_FOUND | WSS_CONN_FAIL
  | WSS_CONN_SUCCESS | WSS_GOT_IP | WSS_DHCP_FAIL

datatype WF_EVENT_E = WFE_CONNECTED | WFE_CONNECT_FAILED | WFE_DISCONNECTED

datatype WF_WK_MD_E =
    WWM_POWERDOWN | WWM_SNIFFER | WWM_STATION | WWM_SOFTAP | WWM_STATIONAP | WWM_UNKNOWN

datatype WF_IF_E = WF_STATION | WF_AP

datatype COUNTRY_CODE_E =
    COUNTRY_CODE_CN | COUNTRY_CODE_US | COUNTRY_CODE_JP | COUNTRY_CODE_EU | COUNTRY_CODE_other

datatype WF_AP_AUTH_MODE_E =
    WAAM_OPEN | WAAM_WEP | WAAM_WPA_PSK | WAAM_WPA2_PSK | WAAM_WPA_WPA2_PSK | WAAM_WPA_WPA3_SAE
  | WAAM_UNKNOWN

datatype wifi_auth_mode_t =
    WIFI_AUTH_OPEN | WIFI_AUTH_WEP | WIFI_AUTH_WPA_PSK | WIFI_AUTH_WPA2_PSK
  | WIFI_AUTH_WPA_WPA2_PSK | WIFI_AUTH_WPA2_WPA3_PSK | WIFI_AUTH_other nat

datatype wifi_mode_t = WIFI_MODE_NULL | WIFI_MODE_STA | WIFI_MODE_AP | WIFI_MODE_APSTA | WIFI_MODE_MAX

record NW_IP_S =
  nw_ip :: string
  nw_mask :: string
  nw_gw :: string

record wifi_country_t =
  cc :: string
  schan :: nat
  nchan :: nat

text \<open>The fields of \<^verbatim>\<open>wifi_config_t\<close> the code fills for a station and for an access point.\<close>

record wifi_sta_config =
  sta_ssid :: string
  sta_password :: string
  listen_interval :: nat
  threshold_authmode :: wifi_auth_mode_t

record wifi_ap_config =
  ap_ssid :: string
  ap_password :: string
  ap_channel :: byte
  beacon_interval :: uint16
  max_connection :: byte
  ap_ssid_hidden :: byte
  ap_authmode :: wifi_auth_mode_t

record WF_AP_CFG_IF_S =
  cfg_ssid :: string
  s_len :: byte
  passwd :: string
  p_len :: byte
  chan :: byte
  md :: WF_AP_AUTH_MODE_E
  ssid_hidden :: byte
  max_conn :: byte
  ms_interval :: uint16
  cfg_ip :: NW_IP_S

record wifi_ap_record_t =
  rec_ssid :: string
  rec_bssid :: "byte list"
  primary :: byte
  rec_rssi :: int
  authmode :: wifi_auth_mode_t

record AP_IF_S =
  channel :: byte
  rssi :: int
  bssid :: "byte list"
  if_ssid :: string
  security :: wifi_auth_mode_t

datatype (plugins only: code) wifi_event =
    WIFI_EVENT_STA_START
  | WIFI_EVENT_STA_STOP
  | WIFI_EVENT_STA_CONNECTED
  | WIFI_EVENT_STA_DISCONNECTED nat
  | WIFI_EVENT_SCAN_DONE
  | WIFI_EVENT_STA_AUTHMODE_CHANGE
  | WIFI_EVENT_STA_BSS_RSSI_LOW
  | WIFI_EVENT_ACTION_TX_STATUS
  | WIFI_EVENT_ROC_DONE
  | WIFI_EVENT_STA_BEACON_TIMEOUT
  | IP_EVENT_STA_GOT_IP uint32 uint32 uint32
  | WIFI_EVENT_AP_STACONNECTED
  | WIFI_EVENT_AP_STADISCONNECTED

text \<open>The calls that leave the file. A handler is registered for the name of its event.\<close>

datatype (plugins only: code) wifi_call =
    Set_promiscuous_filter
  | Set_promiscuous_rx_cb bool
  | Set_promiscuous bool
  | Sniffer_callback nat "byte list" int
  | Wifi_connect
  | Wifi_disconnect
  | Notify nat WF_EVENT_E
  | Scan_get_ap_num
  | Scan_start
  | Scan_get_ap_records
  | Wifi_malloc nat
  | Wifi_free
  | Set_channel byte
  | Get_channel
  | Get_mac WF_IF_E
  | Set_mac WF_IF_E "byte list"
  | Nvs_open string
  | Nvs_set_blob string "byte list"
  | Nvs_get_blob string
  | Nvs_commit
  | Nvs_close
  | Efuse_mac_get_default
  | Base_mac_addr_set "byte list"
  | Set_mode wifi_mode_t
  | Get_mode
  | Set_country wifi_country_t
  | Tx_80211 WF_IF_E "byte list"
  | Netif_init
  | Wifi_init_driver
  | Wifi_restore
  | Set_storage_ram
  | Netif_new WF_IF_E
  | Netif_attach WF_IF_E nat
  | Event_loop_create
  | Event_handler_register string
  | Wifi_start
  | Wifi_stop
  | Set_default_handlers WF_IF_E
  | Set_sta_config wifi_sta_config
  | Set_ap_config wifi_ap_config
  | Set_ps_min_modem
  | Netif_get_ip_info nat
  | Netif_set_ip_info "nat option" uint32 uint32 uint32
  | Sta_get_ap_info

record wifi_platform =
  wifi_ret :: "wifi_call list \<Rightarrow> wifi_call \<Rightarrow> int"
  scan_ap_num :: "wifi_call list \<Rightarrow> nat"
  scan_records :: "wifi_call list \<Rightarrow> wifi_ap_record_t list"
  wifi_malloc_ok :: "wifi_call list \<Rightarrow> wifi_call \<Rightarrow> bool"
  cur_channel :: "wifi_call list \<Rightarrow> byte"
  mac_of :: "wifi_call list \<Rightarrow> wifi_call \<Rightarrow> byte list"
  driver_mode :: "wifi_call list \<Rightarrow> wifi_mode_t"
  new_netif :: "wifi_call list \<Rightarrow> wifi_call \<Rightarrow> nat option"
  netif_ip_info :: "wifi_call list \<Rightarrow> nat \<Rightarrow> uint32 \<times> uint32 \<times> uint32"
  ap_info_rssi :: "wifi_call list \<Rightarrow> int"

text \<open>Callbacks are numbers, 0 is \<^verbatim>\<open>NULL\<close>; the initial 0xFF of the last event sent is \<open>None\<close>.\<close>

record wifi = "wifi_call machine" +
  wifi_sta_ip_addrs :: NW_IP_S
  wifi_sta_conn_status :: WF_STATION_STAT_E
  tkl_event_cb :: nat
  g_wifi_work_mode :: WF_WK_MD_E
  tuya_sniffer_cb :: nat
  mgnt_recv_cb :: nat
  netif_sta :: "nat option"
  netif_ap :: "nat option"
  s_wifi_sta_conne_evt_state :: "WF_EVENT_E option"

definition no_addrs :: NW_IP_S where
  "no_addrs = \<lparr>nw_ip = [], nw_mask = [], nw_gw = []\<rparr>"

definition wifi_init_state :: wifi where
  "wifi_init_state =
     \<lparr>calls = [], wifi_sta_ip_addrs = no_addrs, wifi_sta_conn_status = WSS_IDLE, tkl_event_cb = 0,
      g_wifi_work_mode = WWM_UNKNOWN, tuya_sniffer_cb = 0, mgnt_recv_cb = 0, netif_sta = None,
      netif_ap = None, s_wifi_sta_conne_evt_state = None\<rparr>"

definition cc_tbls :: "wifi_country_t list" where
  "cc_tbls =
     [\<lparr>cc = ''CN'', schan = 1, nchan = 13\<rparr>, \<lparr>cc = ''US'', schan = 1, nchan = 11\<rparr>,
      \<lparr>cc = ''JP'', schan = 1, nchan = 14\<rparr>, \<lparr>cc = ''EU'', schan = 1, nchan = 11\<rparr>]"

definition WIFI_REASON_NO_AP_FOUND :: nat where [simp]: "WIFI_REASON_NO_AP_FOUND = 201"
definition WIFI_REASON_HANDSHAKE_TIMEOUT :: nat where [simp]: "WIFI_REASON_HANDSHAKE_TIMEOUT = 204"

section \<open>Sniffing\<close>

definition wifi_sniffer_start :: "wifi \<Rightarrow> wifi" where
  "wifi_sniffer_start s =
     issue (Set_promiscuous True) (issue (Set_promiscuous_rx_cb True) (issue Set_promiscuous_filter s))"

definition wifi_sniffer_stop :: "wifi \<Rightarrow> wifi" where
  "wifi_sniffer_stop s = issue (Set_promiscuous_rx_cb False) (issue (Set_promiscuous False) s)"

definition sniffer_local_cb :: "byte list \<Rightarrow> int \<Rightarrow> wifi \<Rightarrow> wifi" where
  "sniffer_local_cb frame r s =
     (if tuya_sniffer_cb s \<noteq> 0 then issue (Sniffer_callback (tuya_sniffer_cb s) frame r) s else s)"

definition tkl_wifi_set_sniffer :: "bool \<Rightarrow> nat \<Rightarrow> wifi \<Rightarrow> int \<times> wifi" where
  "tkl_wifi_set_sniffer en cb s =
     (if en \<and> cb = 0 then (OPRT_INVALID_PARM, s)
      else if en then (OPRT_OK, wifi_sniffer_start (s\<lparr>tuya_sniffer_cb := cb\<rparr>))
      else (OPRT_OK, (wifi_sniffer_stop s)\<lparr>tuya_sniffer_cb := 0\<rparr>))"

definition tkl_wifi_register_recv_mgnt_callback :: "bool \<Rightarrow> nat \<Rightarrow> wifi \<Rightarrow> int \<times> wifi" where
  "tkl_wifi_register_recv_mgnt_callback enable recv_cb s =
     (OPRT_OK,
      if enable then wifi_sniffer_start (s\<lparr>mgnt_recv_cb := recv_cb\<rparr>)
      else (if tuya_sniffer_cb s \<noteq> 0 then wifi_sniffer_stop s else s)\<lparr>mgnt_recv_cb := 0\<rparr>)"

section \<open>Events of the driver\<close>

text \<open>\<^verbatim>\<open>if (tkl_event_cb) tkl_event_cb(e, NULL);\<close>\<close>

definition notify :: "WF_EVENT_E \<Rightarrow> wifi \<Rightarrow> wifi" where
  "notify e s = (if tkl_event_cb s \<noteq> 0 then issue (Notify (tkl_event_cb s) e) s else s)"

definition esp_ip4addr_ntoa :: "uint32 \<Rightarrow> string option" where
  "esp_ip4addr_ntoa a = ip4addr_ntoa_r a 16"

definition esp_ip4addr_aton :: "string \<Rightarrow> uint32" where
  "esp_ip4addr_aton cp = ipaddr_addr cp"

text \<open>A failed conversion leaves the field; C leaves what a part of it then holds open.\<close>

definition store_text :: "string \<Rightarrow> uint32 \<Rightarrow> string" where
  "store_text old a = (case esp_ip4addr_ntoa a of None \<Rightarrow> old | Some t \<Rightarrow> t)"

definition link_lost :: "wifi \<Rightarrow> wifi" where
  "link_lost s =
     (if tkl_event_cb s \<noteq> 0 \<and> s_wifi_sta_conne_evt_state s \<noteq> Some WFE_DISCONNECTED
      then (notify WFE_DISCONNECTED s)
        \<lparr>s_wifi_sta_conne_evt_state := Some WFE_DISCONNECTED, wifi_sta_conn_status := WSS_CONN_FAIL,
         wifi_sta_ip_addrs := no_addrs\<rparr>
      else s)"

fun tkl_wifi_event_handler :: "wifi_platform \<Rightarrow> wifi_event \<Rightarrow> wifi \<Rightarrow> wifi" where
  "tkl_wifi_event_handler p WIFI_EVENT_STA_START s =
     (let s1 = issue Wifi_connect s
      in if wifi_ret p (calls s) Wifi_connect \<noteq> ESP_OK then s1
         else s1\<lparr>wifi_sta_conn_status := WSS_CONNECTING\<rparr>)"
| "tkl_wifi_event_handler p WIFI_EVENT_STA_CONNECTED s =
     s\<lparr>wifi_sta_conn_status := WSS_CONN_SUCCESS\<rparr>"
| "tkl_wifi_event_handler p (WIFI_EVENT_STA_DISCONNECTED reason) s =
     (let s1 = s\<lparr>wifi_sta_conn_status :=
                   (if reason = WIFI_REASON_NO_AP_FOUND then WSS_NO_AP_FOUND
                    else if reason = WIFI_REASON_HANDSHAKE_TIMEOUT then WSS_PASSWD_WRONG
                    else WSS_CONN_FAIL),
                 wifi_sta_ip_addrs := no_addrs\<rparr>
      in if s_wifi_sta_conne_evt_state s1 = Some WFE_CONNECTED
         then (notify WFE_DISCONNECTED s1)\<lparr>s_wifi_sta_conne_evt_state := Some WFE_DISCONNECTED\<rparr>
         else (notify WFE_CONNECT_FAILED s1)\<lparr>s_wifi_sta_conne_evt_state := Some WFE_CONNECT_FAILED\<rparr>)"
| "tkl_wifi_event_handler p WIFI_EVENT_SCAN_DONE s =
     (let s1 = issue Scan_get_ap_num s;
          ssid_num = (if wifi_ret p (calls s) Scan_get_ap_num = ESP_OK then scan_ap_num p (calls s) else 0)
      in if ssid_num = 0 then
           let s2 = s1\<lparr>wifi_sta_conn_status := WSS_NO_AP_FOUND, wifi_sta_ip_addrs := no_addrs\<rparr>
           in if s_wifi_sta_conne_evt_state s2 \<noteq> Some WFE_CONNECT_FAILED
              then notify WFE_CONNECT_FAILED s2 else s2
         else s1)"
| "tkl_wifi_event_handler p WIFI_EVENT_STA_AUTHMODE_CHANGE s = link_lost s"
| "tkl_wifi_event_handler p WIFI_EVENT_STA_BEACON_TIMEOUT s = link_lost s"
| "tkl_wifi_event_handler p (IP_EVENT_STA_GOT_IP a m g) s =
     (let old = wifi_sta_ip_addrs s;
          s1 = s\<lparr>wifi_sta_ip_addrs := \<lparr>nw_ip = store_text (nw_ip old) a,
                   nw_mask = store_text (nw_mask old) m, nw_gw = store_text (nw_gw old) g\<rparr>\<rparr>
      in if esp_ip4addr_ntoa a \<noteq> None \<and> esp_ip4addr_ntoa m \<noteq> None \<and> esp_ip4addr_ntoa g \<noteq> None
            \<and> tkl_event_cb s1 \<noteq> 0
         then (notify WFE_CONNECTED (s1\<lparr>wifi_sta_conn_status := WSS_GOT_IP\<rparr>))
           \<lparr>s_wifi_sta_conne_evt_state := Some WFE_CONNECTED\<rparr>
         else s1)"
| "tkl_wifi_event_handler p WIFI_EVENT_STA_STOP s = s"
| "tkl_wifi_event_handler p WIFI_EVENT_STA_BSS_RSSI_LOW s = s"
| "tkl_wifi_event_handler p WIFI_EVENT_ACTION_TX_STATUS s = s"
| "tkl_wifi_event_handler p WIFI_EVENT_ROC_DONE s = s"
| "tkl_wifi_event_handler p WIFI_EVENT_AP_STACONNECTED s = s"
| "tkl_wifi_event_handler p WIFI_EVENT_AP_STADISCONNECTED s = s"

section \<open>Scanning\<close>

text \<open>\<^verbatim>\<open>strncmp(ssid, name, strlen(ssid)) == 0\<close>: \<open>ssid\<close> begins \<open>name\<close>.\<close>

definition ap_item :: "wifi_ap_record_t \<Rightarrow> AP_IF_S" where
  "ap_item r = \<lparr>channel = primary r, rssi = rec_rssi r, bssid = rec_bssid r, if_ssid = rec_ssid r,
     security = authmode r\<rparr>"

definition zero_item :: AP_IF_S where
  "zero_item = \<lparr>channel = 0, rssi = 0, bssid = replicate 6 0, if_ssid = [], security = WIFI_AUTH_OPEN\<rparr>"

fun scan_fill :: "string option \<Rightarrow> wifi_ap_record_t list \<Rightarrow> nat \<Rightarrow> AP_IF_S list \<times> nat" where
  "scan_fill ssid [] tot = ([], tot)"
| "scan_fill ssid (r # rs) tot =
     (if (case ssid of None \<Rightarrow> False | Some n \<Rightarrow> take (length n) (rec_ssid r) = n)
      then let (items, t) = scan_fill ssid rs tot in (zero_item # items, t)
      else let (items, t) = scan_fill ssid rs (tot + 1) in (ap_item r # items, t))"

text \<open>The array handed out and the count beside it; both are \<open>None\<close> and 0 unless the scan succeeds.
  The sizes asked of the heap are counted in records.\<close>

definition all_ap_scan ::
  "wifi_platform \<Rightarrow> string option \<Rightarrow> wifi \<Rightarrow> (int \<times> AP_IF_S list option \<times> nat) \<times> wifi" where
  "all_ap_scan p ssid s =
     (let err = (OPRT_COM_ERROR, None, 0)
      in try_calls (wifi_ret p) [Scan_start, Scan_get_ap_num] err
           (\<lambda>s1.
              let numbers = scan_ap_num p (butlast (calls s1)); c = Wifi_malloc numbers; s2 = issue c s1
              in if \<not> wifi_malloc_ok p (calls s1) c then (err, s2)
                 else if wifi_ret p (calls s2) Scan_get_ap_records \<noteq> ESP_OK
                 then (err, issue Wifi_free (issue Scan_get_ap_records s2))
                 else
                   let recs = take numbers (scan_records p (calls s2));
                       s3 = issue Scan_get_ap_records s2;
                       d = Wifi_malloc (length recs); s4 = issue d s3
                   in if \<not> wifi_malloc_ok p (calls s3) d then (err, issue Wifi_free s4)
                      else let (items, tot) = scan_fill ssid recs 0
                           in ((OPRT_OK, Some items, tot), issue Wifi_free s4)) s)"

definition tkl_wifi_all_ap_scan where
  "tkl_wifi_all_ap_scan p s = all_ap_scan p None s"

definition tkl_wifi_scan_ap where
  "tkl_wifi_scan_ap p ssid s = all_ap_scan p ssid s"

definition tkl_wifi_release_ap :: "bool \<Rightarrow> wifi \<Rightarrow> int option \<times> wifi" where
  "tkl_wifi_release_ap ap_not_null s =
     (if ap_not_null then (Some OPRT_OK, issue Wifi_free s) else (None, s))"

section \<open>Channel, address, mode and country\<close>

definition tkl_wifi_set_cur_channel :: "wifi_platform \<Rightarrow> byte \<Rightarrow> wifi \<Rightarrow> int \<times> wifi" where
  "tkl_wifi_set_cur_channel p ch s =
     try_call (wifi_ret p) (Set_channel ch) OPRT_COM_ERROR (\<lambda>s1. (OPRT_OK, s1)) s"

definition tkl_wifi_get_cur_channel :: "wifi_platform \<Rightarrow> wifi \<Rightarrow> (int \<times> byte option) \<times> wifi" where
  "tkl_wifi_get_cur_channel p s =
     try_call (wifi_ret p) Get_channel (OPRT_COM_ERROR, None)
       (\<lambda>s1. ((OPRT_OK, Some (cur_channel p (calls s))), s1)) s"

definition tkl_wifi_get_mac :: "wifi_platform \<Rightarrow> WF_IF_E \<Rightarrow> wifi \<Rightarrow> (int \<times> byte list option) \<times> wifi" where
  "tkl_wifi_get_mac p itf s =
     try_call (wifi_ret p) (Get_mac itf) (OPRT_COM_ERROR, None)
       (\<lambda>s1. ((OPRT_OK, Some (mac_of p (calls s) (Get_mac itf))), s1)) s"

definition tkl_wifi_set_mac :: "wifi_platform \<Rightarrow> WF_IF_E \<Rightarrow> byte list \<Rightarrow> wifi \<Rightarrow> int \<times> wifi" where
  "tkl_wifi_set_mac p itf mac s =
     try_calls (wifi_ret p) [Nvs_open ''tuya.storage'', Nvs_set_blob ''sta.mac'' mac, Nvs_commit]
       OPRT_COM_ERROR
       (\<lambda>s1. try_calls (wifi_ret p)
          [Set_mode (if itf = WF_AP then WIFI_MODE_AP else WIFI_MODE_STA), Base_mac_addr_set mac, Set_mac itf mac]
          OPRT_COM_ERROR (\<lambda>s2. (OPRT_OK, s2)) (issue Nvs_close s1)) s"

fun esp_mode :: "WF_WK_MD_E \<Rightarrow> wifi_mode_t option" where
  "esp_mode WWM_POWERDOWN = Some WIFI_MODE_NULL"
| "esp_mode WWM_SNIFFER = Some WIFI_MODE_APSTA"
| "esp_mode WWM_STATION = Some WIFI_MODE_STA"
| "esp_mode WWM_SOFTAP = Some WIFI_MODE_AP"
| "esp_mode WWM_STATIONAP = Some WIFI_MODE_APSTA"
| "esp_mode WWM_UNKNOWN = None"

definition tkl_wifi_set_work_mode :: "wifi_platform \<Rightarrow> WF_WK_MD_E \<Rightarrow> wifi \<Rightarrow> int option \<times> wifi" where
  "tkl_wifi_set_work_mode p mode s =
     (case esp_mode mode of None \<Rightarrow> (None, s)
      | Some m \<Rightarrow>
        if mode = g_wifi_work_mode s then (Some OPRT_OK, s)
        else if mode \<noteq> WWM_SNIFFER
        then try_call (wifi_ret p) (Set_mode m) (Some OPRT_COM_ERROR)
               (\<lambda>s1. (Some OPRT_OK, s1\<lparr>g_wifi_work_mode := mode\<rparr>)) s
        else (Some OPRT_OK, s\<lparr>g_wifi_work_mode := mode\<rparr>))"

definition tkl_wifi_get_work_mode :: "wifi_platform \<Rightarrow> wifi \<Rightarrow> (int \<times> WF_WK_MD_E option) \<times> wifi" where
  "tkl_wifi_get_work_mode p s =
     try_call (wifi_ret p) Get_mode (OPRT_COM_ERROR, None)
       (\<lambda>s1. ((OPRT_OK, Some (g_wifi_work_mode s1)), s1)) s"

fun country_text :: "COUNTRY_CODE_E \<Rightarrow> string option" where
  "country_text COUNTRY_CODE_CN = Some ''CN''"
| "country_text COUNTRY_CODE_US = Some ''US''"
| "country_text COUNTRY_CODE_JP = Some ''JP''"
| "country_text COUNTRY_CODE_EU = Some ''AL''"
| "country_text COUNTRY_CODE_other = None"

definition tkl_wifi_set_country_code :: "wifi_platform \<Rightarrow> COUNTRY_CODE_E \<Rightarrow> wifi \<Rightarrow> int \<times> wifi" where
  "tkl_wifi_set_country_code p ccode s =
     (case country_text ccode of None \<Rightarrow> (OPRT_NOT_SUPPORTED, s)
      | Some country \<Rightarrow>
        (case find (\<lambda>t. take (length (cc t)) country = cc t) cc_tbls of
           None \<Rightarrow> (OPRT_NOT_SUPPORTED, s)
         | Some t \<Rightarrow> try_call (wifi_ret p) (Set_country t) OPRT_COM_ERROR (\<lambda>s1. (OPRT_OK, s1)) s))"

definition tkl_wifi_send_mgnt :: "wifi_platform \<Rightarrow> byte list \<Rightarrow> wifi \<Rightarrow> int option \<times> wifi" where
  "tkl_wifi_send_mgnt p buf s =
     (if buf = [] then (None, s)
      else try_call (wifi_ret p) Get_mode (Some OPRT_COM_ERROR)
        (\<lambda>s1. case driver_mode p (calls s) of
            WIFI_MODE_AP \<Rightarrow>
              try_call (wifi_ret p) (Tx_80211 WF_AP buf) (Some OPRT_COM_ERROR) (\<lambda>s2. (Some OPRT_OK, s2)) s1
          | WIFI_MODE_STA \<Rightarrow>
              try_call (wifi_ret p) (Tx_80211 WF_STATION buf) (Some OPRT_COM_ERROR) (\<lambda>s2. (Some OPRT_OK, s2)) s1
          | WIFI_MODE_APSTA \<Rightarrow>
              try_call (wifi_ret p) (Tx_80211 WF_STATION buf) (Some OPRT_COM_ERROR) (\<lambda>s2. (Some OPRT_OK, s2)) s1
          | _ \<Rightarrow> (Some OPRT_COM_ERROR, s1)) s)"

definition tkl_wifi_set_lp_mode :: int where "tkl_wifi_set_lp_mode = OPRT_OK"
definition tkl_wifi_set_rf_calibrated :: bool where "tkl_wifi_set_rf_calibrated = True"
definition tkl_wifi_ioctl :: int where "tkl_wifi_ioctl = OPRT_NOT_SUPPORTED"
definition tkl_wifi_get_bssid :: int where "tkl_wifi_get_bssid = OPRT_OK"
definition tkl_wifi_stop_ap :: int where "tkl_wifi_stop_ap = OPRT_OK"
definition tkl_wifi_get_connected_ap_info :: int where "tkl_wifi_get_connected_ap_info = OPRT_OK"
definition tkl_wifi_station_fast_connect :: int where "tkl_wifi_station_fast_connect = OPRT_NOT_SUPPORTED"

section \<open>Starting up\<close>

definition base_mac :: "wifi_platform \<Rightarrow> wifi \<Rightarrow> byte list \<times> wifi" where
  "base_mac p s =
     (let o' = Nvs_open ''tuya.storage''; g = Nvs_get_blob ''sta.mac'';
          fallback = (\<lambda>t. (mac_of p (calls t) Efuse_mac_get_default, issue Efuse_mac_get_default t));
          s1 = issue o' s
      in if wifi_ret p (calls s) o' = ESP_OK
         then let s2 = issue g s1
              in if wifi_ret p (calls s1) g = ESP_OK then (mac_of p (calls s1) g, s2) else fallback s2
         else fallback s1)"

definition ensure_netif ::
  "wifi_platform \<Rightarrow> WF_IF_E \<Rightarrow> nat option \<Rightarrow> (nat \<Rightarrow> wifi \<Rightarrow> int \<times> wifi) \<Rightarrow> wifi \<Rightarrow> int \<times> wifi" where
  "ensure_netif p itf netif k s =
     (case netif of Some n \<Rightarrow> k n s
      | None \<Rightarrow> (let c = Netif_new itf; s1 = issue c s
          in case new_netif p (calls s) c of None \<Rightarrow> (OPRT_COM_ERROR, s1) | Some n \<Rightarrow> k n s1))"

definition wifi_handlers :: "wifi_call list" where
  "wifi_handlers = map Event_handler_register
     [''STA_START'', ''STA_STOP'', ''STA_CONNECTED'', ''SCAN_DONE'', ''STA_AUTHMODE_CHANGE'',
      ''STA_BSS_RSSI_LOW'', ''ACTION_TX_STATUS'', ''ROC_DONE'', ''STA_BEACON_TIMEOUT'',
      ''STA_DISCONNECTED'', ''STA_GOT_IP'']"

definition wifi_init_body :: "wifi_platform \<Rightarrow> nat \<Rightarrow> wifi \<Rightarrow> int \<times> wifi" where
  "wifi_init_body p cb s =
     (let (mac, s1) = base_mac p s
      in try_call (wifi_ret p) (Base_mac_addr_set mac) OPRT_COM_ERROR
        (\<lambda>s2. try_calls (wifi_ret p) [Netif_init, Wifi_init_driver] OPRT_COM_ERROR
          (\<lambda>s3. ensure_netif p WF_STATION (netif_sta s3)
            (\<lambda>n s4. try_call (wifi_ret p) (Netif_attach WF_STATION n) OPRT_COM_ERROR
              (\<lambda>s5. ensure_netif p WF_AP (netif_ap s5)
                (\<lambda>m s6. try_calls (wifi_ret p) (Netif_attach WF_AP m # Event_loop_create # wifi_handlers)
                  OPRT_COM_ERROR
                  (\<lambda>s7. (OPRT_OK, s7\<lparr>wifi_sta_ip_addrs := no_addrs, tkl_event_cb := cb\<rparr>))
                  (s6\<lparr>netif_ap := Some m\<rparr>)) s5)
              (s4\<lparr>netif_sta := Some n\<rparr>))
            (issue Set_storage_ram (issue Wifi_restore s3)))
          (issue Nvs_close s2)) s1)"

definition tkl_wifi_init :: "wifi_platform \<Rightarrow> nat \<Rightarrow> wifi \<Rightarrow> int option \<times> wifi" where
  "tkl_wifi_init p cb s = (if cb = 0 then (None, s) else map_prod Some id (wifi_init_body p cb s))"

section \<open>Station and access point\<close>

text \<open>\<^verbatim>\<open>strncpy\<close> of \<open>n\<close> characters into a zeroed field; \<open>None\<close> when it is too small.\<close>

definition copy_field :: "nat \<Rightarrow> string \<Rightarrow> nat \<Rightarrow> string option" where
  "copy_field field_size src n = (if n \<le> field_size then Some (take n src) else None)"

definition tkl_wifi_station_connect ::
  "wifi_platform \<Rightarrow> string \<Rightarrow> string \<Rightarrow> wifi \<Rightarrow> int option \<times> wifi" where
  "tkl_wifi_station_connect p ssid pw s =
     (let s1 = issue Wifi_stop s
      in case (copy_field 32 ssid (length ssid), copy_field 64 pw (length pw)) of
           (Some a, Some b) \<Rightarrow>
             let cfg = \<lparr>sta_ssid = a, sta_password = b, listen_interval = 10,
                        threshold_authmode = WIFI_AUTH_WPA2_PSK\<rparr>
             in try_calls (wifi_ret p)
                  [Set_default_handlers WF_STATION, Set_mode WIFI_MODE_STA, Set_sta_config cfg, Wifi_start]
                  (Some OPRT_COM_ERROR) (\<lambda>s2. (Some OPRT_OK, issue Set_ps_min_modem s2)) s1
         | _ \<Rightarrow> (None, s1))"

definition tkl_wifi_station_disconnect :: "wifi \<Rightarrow> int \<times> wifi" where
  "tkl_wifi_station_disconnect s = (OPRT_OK, issue Wifi_stop (issue Wifi_disconnect s))"

definition tkl_wifi_station_get_status :: "wifi \<Rightarrow> int \<times> WF_STATION_STAT_E" where
  "tkl_wifi_station_get_status s = (OPRT_OK, wifi_sta_conn_status s)"

definition ap_texts :: "uint32 \<times> uint32 \<times> uint32 \<Rightarrow> NW_IP_S" where
  "ap_texts i = (case i of (a, m, g) \<Rightarrow>
     \<lparr>nw_ip = store_text [] a, nw_mask = store_text [] m, nw_gw = store_text [] g\<rparr>)"

definition tkl_wifi_get_ip :: "wifi_platform \<Rightarrow> WF_IF_E \<Rightarrow> wifi \<Rightarrow> (int \<times> NW_IP_S option) \<times> wifi" where
  "tkl_wifi_get_ip p itf s =
     (case itf of
        WF_STATION \<Rightarrow>
          (if wifi_sta_conn_status s \<noteq> WSS_GOT_IP then ((OPRT_COM_ERROR, None), s)
           else ((OPRT_OK, Some (wifi_sta_ip_addrs s)), s))
      | WF_AP \<Rightarrow>
          (case netif_ap s of None \<Rightarrow> ((OPRT_NOT_SUPPORTED, None), s)
           | Some n \<Rightarrow> try_call (wifi_ret p) (Netif_get_ip_info n) (OPRT_NOT_SUPPORTED, None)
               (\<lambda>s1. ((OPRT_OK, Some (ap_texts (netif_ip_info p (calls s) n))), s1)) s))"

fun ap_auth :: "WF_AP_AUTH_MODE_E \<Rightarrow> wifi_auth_mode_t" where
  "ap_auth WAAM_OPEN = WIFI_AUTH_OPEN"
| "ap_auth WAAM_WEP = WIFI_AUTH_WEP"
| "ap_auth WAAM_WPA_PSK = WIFI_AUTH_WPA_PSK"
| "ap_auth WAAM_WPA2_PSK = WIFI_AUTH_WPA2_PSK"
| "ap_auth WAAM_WPA_WPA2_PSK = WIFI_AUTH_WPA_WPA2_PSK"
| "ap_auth WAAM_WPA_WPA3_SAE = WIFI_AUTH_WPA2_WPA3_PSK"
| "ap_auth WAAM_UNKNOWN = WIFI_AUTH_OPEN"

definition tkl_wifi_start_ap :: "wifi_platform \<Rightarrow> WF_AP_CFG_IF_S \<Rightarrow> wifi \<Rightarrow> int option \<times> wifi" where
  "tkl_wifi_start_ap p cfg s =
     (case copy_field 32 (cfg_ssid cfg) (unat (s_len cfg)) of None \<Rightarrow> (None, s)
      | Some ssid \<Rightarrow>
        let pw = (if p_len cfg \<noteq> 0 \<and> unat (p_len cfg) \<le> 64 then take (unat (p_len cfg)) (passwd cfg) else []);
            conf = \<lparr>ap_ssid = ssid, ap_password = pw, ap_channel = chan cfg,
                    beacon_interval = ms_interval cfg, max_connection = max_conn cfg,
                    ap_ssid_hidden = ssid_hidden cfg,
                    ap_authmode = (if p_len cfg \<noteq> 0 \<and> passwd cfg \<noteq> [] then ap_auth (md cfg) else WIFI_AUTH_OPEN)\<rparr>
        in try_calls (wifi_ret p)
             [Set_default_handlers WF_AP, Set_mode WIFI_MODE_AP, Set_ap_config conf, Wifi_start,
              Netif_set_ip_info (netif_ap s) (esp_ip4addr_aton (nw_ip (cfg_ip cfg)))
                (esp_ip4addr_aton (nw_mask (cfg_ip cfg))) (esp_ip4addr_aton (nw_gw (cfg_ip cfg)))]
             (Some OPRT_COM_ERROR) (\<lambda>s1. (Some OPRT_OK, s1)) s)"

definition tkl_wifi_station_get_conn_ap_rssi :: "wifi_platform \<Rightarrow> wifi \<Rightarrow> (int \<times> int option) \<times> wifi" where
  "tkl_wifi_station_get_conn_ap_rssi p s =
     try_call (wifi_ret p) Sta_get_ap_info (OPRT_COM_ERROR, None)
       (\<lambda>s1. ((OPRT_OK, Some (ap_info_rssi p (calls s))), s1)) s"

section \<open>The link, abstractly\<close>

text \<open>A link is down, or up with an address, a mask and a gateway. Getting an address brings it up;
  some events take it down, and some may leave it as it is.\<close>

type_synonym link = "(uint32 \<times> uint32 \<times> uint32) option"

fun may_drop :: "wifi_event \<Rightarrow> bool" where
  "may_drop WIFI_EVENT_STA_START = True"
| "may_drop WIFI_EVENT_STA_CONNECTED = True"
| "may_drop (WIFI_EVENT_STA_DISCONNECTED _) = True"
| "may_drop WIFI_EVENT_SCAN_DONE = True"
| "may_drop WIFI_EVENT_STA_AUTHMODE_CHANGE = True"
| "may_drop WIFI_EVENT_STA_BEACON_TIMEOUT = True"
| "may_drop _ = False"

fun may_keep :: "wifi_event \<Rightarrow> bool" where
  "may_keep WIFI_EVENT_STA_CONNECTED = False"
| "may_keep (WIFI_EVENT_STA_DISCONNECTED _) = False"
| "may_keep WIFI_EVENT_STA_AUTHMODE_CHANGE = False"
| "may_keep WIFI_EVENT_STA_BEACON_TIMEOUT = False"
| "may_keep (IP_EVENT_STA_GOT_IP _ _ _) = False"
| "may_keep _ = True"

inductive link_trans :: "link \<Rightarrow> wifi_event \<Rightarrow> link \<Rightarrow> bool" where
  up: "link_trans l (IP_EVENT_STA_GOT_IP a m g) (Some (a, m, g))"
| down: "may_drop e \<Longrightarrow> link_trans l e None"
| keep: "may_keep e \<Longrightarrow> link_trans l e l"

inductive_cases link_trans_up: "link_trans l e (Some x)"

definition abs_link :: "wifi \<Rightarrow> link" where
  "abs_link s =
     (if wifi_sta_conn_status s = WSS_GOT_IP
      then Some (esp_ip4addr_aton (nw_ip (wifi_sta_ip_addrs s)),
                 esp_ip4addr_aton (nw_mask (wifi_sta_ip_addrs s)),
                 esp_ip4addr_aton (nw_gw (wifi_sta_ip_addrs s)))
      else None)"

definition link_inv :: "wifi \<Rightarrow> bool" where
  "link_inv s \<longleftrightarrow> tkl_event_cb s \<noteq> 0 \<and>
     (wifi_sta_conn_status s = WSS_GOT_IP \<longrightarrow> s_wifi_sta_conne_evt_state s = Some WFE_CONNECTED)"

lemma esp_ntoa_total [simp]: "esp_ip4addr_ntoa a \<noteq> None" "esp_ip4addr_ntoa a = None \<longleftrightarrow> False"
  using aton_ntoa [of a] by (auto simp: esp_ip4addr_ntoa_def ip4addr_ntoa_def)

lemma aton_store_text [simp]: "esp_ip4addr_aton (store_text old a) = a"
  using aton_ntoa [of a]
  by (auto simp: store_text_def esp_ip4addr_ntoa_def ip4addr_ntoa_def esp_ip4addr_aton_def)

lemma wifi_issue_simps [simp]:
  "wifi_sta_conn_status (issue c s) = wifi_sta_conn_status s"
  "wifi_sta_ip_addrs (issue c s) = wifi_sta_ip_addrs s"
  "tkl_event_cb (issue c s) = tkl_event_cb s"
  "s_wifi_sta_conne_evt_state (issue c s) = s_wifi_sta_conne_evt_state s"
  "netif_sta (issue c s) = netif_sta s"
  "netif_ap (issue c s) = netif_ap s"
  by (simp_all add: issue_def)

lemma wifi_notify_simps [simp]:
  "wifi_sta_conn_status (notify e s) = wifi_sta_conn_status s"
  "wifi_sta_ip_addrs (notify e s) = wifi_sta_ip_addrs s"
  "tkl_event_cb (notify e s) = tkl_event_cb s"
  "s_wifi_sta_conne_evt_state (notify e s) = s_wifi_sta_conne_evt_state s"
  by (simp_all add: notify_def)

lemma handler_inv: "link_inv s \<Longrightarrow> link_inv (tkl_wifi_event_handler p e s)"
  by (cases e) (auto simp: link_inv_def Let_def link_lost_def)

lemma handler_sim: "link_inv s \<Longrightarrow> link_trans (abs_link s) e (abs_link (tkl_wifi_event_handler p e s))"
  by (cases e)
    (auto simp: link_inv_def Let_def link_lost_def abs_link_def intro: link_trans.intros)

interpretation wifi_sim: simulation link_trans "tkl_wifi_event_handler p" abs_link link_inv for p
  by unfold_locales (rule handler_sim, assumption, rule handler_inv)

section \<open>After a successful start\<close>

lemma base_mac_frame:
  "base_mac p s = (mac, s') \<Longrightarrow> \<exists>tr. s' = s\<lparr>calls := calls s @ tr\<rparr>"
  by (auto simp: base_mac_def Let_def issue_def split: if_splits)

lemma ensure_netif_reached:
  assumes "ensure_netif p i netif k s = (OPRT_OK, s')"
  shows "\<exists>n tr. k n (s\<lparr>calls := calls s @ tr\<rparr>) = (OPRT_OK, s')"
proof (cases netif)
  case None
  with assms show ?thesis
    by (auto simp: ensure_netif_def Let_def issue_def split: option.splits)
next
  case (Some n)
  with assms show ?thesis
    by (intro exI [of _ n] exI [of _ "[]"]) (simp add: ensure_netif_def)
qed

lemma wifi_init_body_ok:
  assumes "wifi_init_body p cb s = (OPRT_OK, s')"
  shows "tkl_event_cb s' = cb \<and> wifi_sta_conn_status s' = wifi_sta_conn_status s \<and>
    wifi_sta_ip_addrs s' = no_addrs"
proof -
  have e: "OPRT_OK \<noteq> OPRT_COM_ERROR" by simp
  obtain mac s1 where m: "base_mac p s = (mac, s1)" by (cases "base_mac p s")
  then obtain tr1 where s1: "s1 = s\<lparr>calls := calls s @ tr1\<rparr>" using base_mac_frame by blast
  show ?thesis
    using assms m s1 e unfolding wifi_init_body_def Let_def
    by (auto dest!: try_call_reached try_calls_reached ensure_netif_reached simp: issue_def
        simp del: OPRT_OK_def OPRT_COM_ERROR_def)
qed

lemma tkl_wifi_init_ok:
  assumes "tkl_wifi_init p cb wifi_init_state = (Some OPRT_OK, s)"
  shows "link_inv s" "abs_link s = None"
  using assms wifi_init_body_ok [of p cb wifi_init_state s]
  by (auto simp: tkl_wifi_init_def link_inv_def abs_link_def wifi_init_state_def map_prod_def
      split: if_splits prod.splits)

lemma link_up_since:
  "steps link_trans l es (Some (a, m, g)) \<Longrightarrow>
   (l = Some (a, m, g) \<and> list_all may_keep es) \<or>
   (\<exists>es1 es2. es = es1 @ IP_EVENT_STA_GOT_IP a m g # es2 \<and> list_all may_keep es2)"
proof (induction es arbitrary: l)
  case (Cons e es)
  then obtain l1 where st: "link_trans l e l1" "steps link_trans l1 es (Some (a, m, g))" by blast
  from Cons.IH [OF st(2)] show ?case
  proof (elim disjE exE conjE)
    assume "l1 = Some (a, m, g)" and es: "list_all may_keep es"
    with st(1) have "link_trans l e (Some (a, m, g))" by simp
    then have "e = IP_EVENT_STA_GOT_IP a m g \<or> l = Some (a, m, g) \<and> may_keep e"
      by (auto elim: link_trans_up)
    with es show ?thesis by (metis append_Nil list.pred_inject(2))
  next
    fix es1 es2
    assume "es = es1 @ IP_EVENT_STA_GOT_IP a m g # es2" "list_all may_keep es2"
    then show ?thesis by (intro disjI2 exI [of _ "e # es1"] exI [of _ es2]) simp
  qed
qed auto

section \<open>Properties\<close>

text \<open>
  C5: After a successful start the adapter refines the abstract link: whatever events the driver
  delivers and however it answers, the connection status and the stored addresses follow a run of
  the link that begins down.\<close>

theorem wifi_refines_link:
  assumes "tkl_wifi_init p cb wifi_init_state = (Some OPRT_OK, s)"
  shows "steps link_trans None es (abs_link (fold (tkl_wifi_event_handler p) es s))"
  using wifi_sim.sim_run [OF tkl_wifi_init_ok(1) [OF assms], of es p] tkl_wifi_init_ok(2) [OF assms]
  by simp

definition example_wifi :: wifi_platform where
  "example_wifi =
     \<lparr>wifi_ret = (\<lambda>_ _. 0), scan_ap_num = (\<lambda>_. 2),
      scan_records = (\<lambda>_.
        [\<lparr>rec_ssid = ''home'', rec_bssid = [1, 2, 3, 4, 5, 6], primary = 6, rec_rssi = - 40,
          authmode = WIFI_AUTH_WPA2_PSK\<rparr>,
         \<lparr>rec_ssid = ''guest'', rec_bssid = [6, 5, 4, 3, 2, 1], primary = 11, rec_rssi = - 70,
          authmode = WIFI_AUTH_OPEN\<rparr>]),
      wifi_malloc_ok = (\<lambda>_ _. True), cur_channel = (\<lambda>_. 6), mac_of = (\<lambda>_ _. [1, 2, 3, 4, 5, 6]),
      driver_mode = (\<lambda>_. WIFI_MODE_STA), new_netif = (\<lambda>tr _. Some (length tr)),
      netif_ip_info = (\<lambda>_ _. (0, 0, 0)), ap_info_rssi = (\<lambda>_. - 40)\<rparr>"

lemma example_wifi_starts:
  obtains s where "tkl_wifi_init example_wifi 9 wifi_init_state = (Some OPRT_OK, s)"
proof -
  have "fst (tkl_wifi_init example_wifi 9 wifi_init_state) = Some OPRT_OK" by code_simp
  then show ?thesis using that by (metis prod.collapse)
qed

theorem wifi_refines_link_witness:
  "\<exists>s. tkl_wifi_init example_wifi 9 wifi_init_state = (Some OPRT_OK, s) \<and>
    steps link_trans None [WIFI_EVENT_STA_START, IP_EVENT_STA_GOT_IP 1 2 3]
      (abs_link (fold (tkl_wifi_event_handler example_wifi)
         [WIFI_EVENT_STA_START, IP_EVENT_STA_GOT_IP 1 2 3] s))"
proof -
  obtain s where "tkl_wifi_init example_wifi 9 wifi_init_state = (Some OPRT_OK, s)"
    by (rule example_wifi_starts)
  with wifi_refines_link [OF this] show ?thesis by blast
qed

text \<open>
  C13: An address the adapter hands out for the station is the current one. It is the address of the
  last \<^verbatim>\<open>IP_EVENT_STA_GOT_IP\<close> (parsing the text gives back its 32 bits), and since then no event has
  told that the connection was made anew, lost, or lost its beacon.\<close>

theorem wifi_ip_current:
  assumes "tkl_wifi_init p cb wifi_init_state = (Some OPRT_OK, s)"
    and "tkl_wifi_get_ip p WF_STATION (fold (tkl_wifi_event_handler p) es s) = ((OPRT_OK, Some ip), s')"
  shows "\<exists>es1 es2. es = es1 @ IP_EVENT_STA_GOT_IP (esp_ip4addr_aton (nw_ip ip))
      (esp_ip4addr_aton (nw_mask ip)) (esp_ip4addr_aton (nw_gw ip)) # es2 \<and> list_all may_keep es2"
proof -
  let ?t = "fold (tkl_wifi_event_handler p) es s"
  have "abs_link ?t = Some (esp_ip4addr_aton (nw_ip ip), esp_ip4addr_aton (nw_mask ip),
      esp_ip4addr_aton (nw_gw ip))"
    using assms(2) by (auto simp: tkl_wifi_get_ip_def abs_link_def split: if_splits)
  moreover have "steps link_trans None es (abs_link ?t)"
    using wifi_sim.sim_run [OF tkl_wifi_init_ok(1) [OF assms(1)]] tkl_wifi_init_ok(2) [OF assms(1)]
    by metis
  ultimately show ?thesis using link_up_since by fastforce
qed

theorem wifi_ip_current_witness:
  "\<exists>s ip es1 es2. tkl_wifi_init example_wifi 9 wifi_init_state = (Some OPRT_OK, s) \<and>
    fst (tkl_wifi_get_ip example_wifi WF_STATION (fold (tkl_wifi_event_handler example_wifi)
      [WIFI_EVENT_STA_CONNECTED, IP_EVENT_STA_GOT_IP 1 2 3, WIFI_EVENT_ROC_DONE] s)) = (OPRT_OK, Some ip) \<and>
    [WIFI_EVENT_STA_CONNECTED, IP_EVENT_STA_GOT_IP 1 2 3, WIFI_EVENT_ROC_DONE] =
      es1 @ IP_EVENT_STA_GOT_IP (esp_ip4addr_aton (nw_ip ip))
      (esp_ip4addr_aton (nw_mask ip)) (esp_ip4addr_aton (nw_gw ip)) # es2 \<and> list_all may_keep es2"
proof -
  let ?es = "[WIFI_EVENT_STA_CONNECTED, IP_EVENT_STA_GOT_IP 1 2 3, WIFI_EVENT_ROC_DONE]"
  obtain s where s: "tkl_wifi_init example_wifi 9 wifi_init_state = (Some OPRT_OK, s)"
    by (rule example_wifi_starts)
  then have "tkl_event_cb s \<noteq> 0" using tkl_wifi_init_ok(1) link_inv_def by blast
  then have "\<exists>ip s'. tkl_wifi_get_ip example_wifi WF_STATION
      (fold (tkl_wifi_event_handler example_wifi) ?es s) = ((OPRT_OK, Some ip), s')"
    by (simp add: tkl_wifi_get_ip_def Let_def)
  then obtain ip s' where "tkl_wifi_get_ip example_wifi WF_STATION
      (fold (tkl_wifi_event_handler example_wifi) ?es s) = ((OPRT_OK, Some ip), s')" by blast
  with wifi_ip_current [OF s this] s show ?thesis by (metis fst_conv)
qed

section \<open>The scan\<close>

lemma scan_fill_all: "scan_fill None rs n = (map ap_item rs, n + length rs)"
  by (induction rs arbitrary: n) simp_all

lemma scan_fill_named:
  "scan_fill (Some nm) rs n =
     (map (\<lambda>r. if take (length nm) (rec_ssid r) = nm then zero_item else ap_item r) rs,
      n + length (filter (\<lambda>r. take (length nm) (rec_ssid r) \<noteq> nm) rs))"
  by (induction rs arbitrary: n) (simp_all add: split_beta)

text \<open>The buffers of the heap that are held after a list of calls.\<close>

definition held :: "wifi_platform \<Rightarrow> wifi_call list \<Rightarrow> int" where
  "held p tr = hist (\<lambda>h c n. case c of
       Wifi_malloc k \<Rightarrow> if wifi_malloc_ok p h (Wifi_malloc k) then n + 1 else n
     | Wifi_free \<Rightarrow> n - 1 | _ \<Rightarrow> n) 0 tr"

lemma all_ap_scan_cases:
  assumes "all_ap_scan p ssid s = ((ret, items, n), s')"
  shows "(ret = OPRT_COM_ERROR \<and> items = None \<and> n = 0 \<and> held p (calls s') = held p (calls s)) \<or>
    (ret = OPRT_OK \<and> held p (calls s') = held p (calls s) + 1 \<and>
     (let t1 = calls s @ [Scan_start]; k = scan_ap_num p t1;
          recs = take k (scan_records p (t1 @ [Scan_get_ap_num, Wifi_malloc k]))
      in (items, n) = (Some (fst (scan_fill ssid recs 0)), snd (scan_fill ssid recs 0))))"
  using assms
  by (auto simp: all_ap_scan_def Let_def try_call_def held_def issue_def split_beta butlast_append
      split: if_splits)

text \<open>
  C31: A scan without a name hands out one entry for every access point the driver reports, in the
  driver's order, and counts them all. On success exactly one more buffer of the heap is held (the
  array handed out); on every failure no buffer is, and nothing is handed out.\<close>

theorem wifi_scan_complete:
  assumes "tkl_wifi_all_ap_scan p s = ((ret, items, n), s')"
  shows "(ret \<noteq> OPRT_OK \<longrightarrow> items = None \<and> n = 0 \<and> held p (calls s') = held p (calls s)) \<and>
    (ret = OPRT_OK \<longrightarrow> held p (calls s') = held p (calls s) + 1 \<and>
      (\<exists>recs. let t1 = calls s @ [Scan_start]; k = scan_ap_num p t1
         in recs = take k (scan_records p (t1 @ [Scan_get_ap_num, Wifi_malloc k])) \<and>
            items = Some (map ap_item recs) \<and> n = length recs))"
  using all_ap_scan_cases [of p None s ret items n s'] assms
  by (auto simp: tkl_wifi_all_ap_scan_def scan_fill_all Let_def)

theorem wifi_scan_complete_witness:
  "\<exists>items s'. tkl_wifi_all_ap_scan example_wifi wifi_init_state = ((OPRT_OK, Some items, 2), s') \<and>
    map if_ssid items = [''home'', ''guest''] \<and> held example_wifi (calls s') = 1"
proof -
  obtain ret items n s' where
    r: "tkl_wifi_all_ap_scan example_wifi wifi_init_state = ((ret, items, n), s')"
    by (metis prod.collapse)
  moreover have "fst (fst (tkl_wifi_all_ap_scan example_wifi wifi_init_state)) = OPRT_OK"
    by code_simp
  ultimately show ?thesis
    using wifi_scan_complete [OF r]
    by (simp add: example_wifi_def wifi_init_state_def Let_def ap_item_def held_def)
qed

text \<open>A scan for a name blanks the access points of that name and keeps the others, where the
  header promises the opposite, and its count is shorter than its array.\<close>

lemma wifi_scan_named:
  assumes "tkl_wifi_scan_ap p (Some nm) s = ((OPRT_OK, Some items, n), s')"
  shows "\<exists>recs.
    items = map (\<lambda>r. if take (length nm) (rec_ssid r) = nm then zero_item else ap_item r) recs \<and>
    n = length (filter (\<lambda>r. take (length nm) (rec_ssid r) \<noteq> nm) recs)"
  using all_ap_scan_cases [of p "Some nm" s OPRT_OK "Some items" n s'] assms
  unfolding tkl_wifi_scan_ap_def scan_fill_named Let_def by auto

section \<open>Country and mode\<close>

text \<open>The European country code is translated to a name the table does not have.\<close>

lemma wifi_country_EU: "tkl_wifi_set_country_code p COUNTRY_CODE_EU s = (OPRT_NOT_SUPPORTED, s)"
  by (simp add: tkl_wifi_set_country_code_def cc_tbls_def)

text \<open>Connecting as a station changes the mode of the driver and not the remembered one, so that
  asking for the remembered mode again does nothing.\<close>

lemma wifi_mode_not_restored:
  assumes "g_wifi_work_mode s = WWM_SOFTAP" "tkl_wifi_station_connect p ssid pw s = (r, s1)"
  shows "tkl_wifi_set_work_mode p WWM_SOFTAP s1 = (Some OPRT_OK, s1)"
  using assms
  by (auto simp: tkl_wifi_station_connect_def tkl_wifi_set_work_mode_def Let_def try_call_def issue_def
      split: option.splits if_splits)

end
