(* ===== verification/Net_Interface.thy ===== *)
theory Net_Interface
  imports Iot Wifi
begin

text \<open>
  The network interface of the application (\<^verbatim>\<open>src/app/NetInterface.cpp\<close>): the handler of the Wi-Fi
  events with its two retry counters, the handler of the Tuya network status, the provisioning
  status, the Bluetooth configuration channel of \<^verbatim>\<open>src/app/device_interface.cpp\<close>, and the screen
  that guides the user through provisioning (\<^verbatim>\<open>src/app/UICustom/UIProvTip.cpp\<close>), which polls the
  provisioning status. The cloud component is the state of \<open>Iot\<close>, driven by its own operations.

  What the code reads of its surroundings while it handles one input is the record \<open>net_env\<close>; a run
  is a list of inputs, each with its own surroundings. A null pointer that is followed, or a failed
  \<^verbatim>\<open>ESP_ERROR_CHECK\<close>, ends the program: the result \<open>None\<close>.
\<close>

section \<open>Data\<close>

datatype prov_status_t =
    prov_no_need | prov_init | prov_ble_connected | prov_wifi_connected | prov_activated
  | prov_err_start | prov_wifi_conn_fail | prov_pwd_error | prov_ap_not_found | prov_rssi_low

fun prov_num :: "prov_status_t \<Rightarrow> int" where
  "prov_num prov_no_need = 0"
| "prov_num prov_init = 1"
| "prov_num prov_ble_connected = 2"
| "prov_num prov_wifi_connected = 3"
| "prov_num prov_activated = 4"
| "prov_num prov_err_start = 5"
| "prov_num prov_wifi_conn_fail = 6"
| "prov_num prov_pwd_error = 7"
| "prov_num prov_ap_not_found = 8"
| "prov_num prov_rssi_low = 9"

text \<open>The fields of \<^verbatim>\<open>AP_IF_S\<close> the handler fills in; the structure has 45 bytes.\<close>

record net_ap =
  ap_channel :: byte
  ap_rssi :: byte
  ap_bssid :: "byte list"
  ap_ssid :: "byte list"
  ap_s_len :: byte

definition AP_IF_S_size :: nat where [simp]: "AP_IF_S_size = 45"
definition WIFI_CONNECT_MAXNUM_RETRY :: int where [simp]: "WIFI_CONNECT_MAXNUM_RETRY = 6"
definition WIFI_AP_FIND_MAXNUM_RETRY :: int where [simp]: "WIFI_AP_FIND_MAXNUM_RETRY = 16"
definition WIFI_REASON_4WAY_HANDSHAKE_TIMEOUT :: nat where [simp]: "WIFI_REASON_4WAY_HANDSHAKE_TIMEOUT = 15"
definition PWD_ERROR_DELAY :: uint32 where [simp]: "PWD_ERROR_DELAY = 60 * 1000"
definition AP_NOT_FOUND_DELAY :: uint32 where [simp]: "AP_NOT_FOUND_DELAY = 30 * 1000"

datatype ui_t = UI_BOOT | UI_TEXT | UI_OTHER

datatype text_field = m_top_text | m_sub_text | m_title_text | m_bottom_text

text \<open>The calls that leave the two files. Texts are named by their entry in the language table;
  \<open>Canvas\<close> stands for a group of drawing and animation calls, and the placing of labels is left out.\<close>

datatype (plugins only: code) netif_call =
    Esp_wifi_connect
  | Esp_wifi_disconnect
  | Set_sta_status WF_STATION_STAT_E
  | Set_ip_info uint32
  | Boot_got_ip_cb
  | Boot_activated_cb
  | Boot_booted_cb
  | Soft_reboot
  | Skin_calibrate_all nat
  | Set_condition string
  | Register_button_tap
  | Set_locked bool
  | Text_ui_update string string
  | Text_ui_load string string
  | Text_update text_field string
  | Set_timer_period nat
  | Canvas string
  | Set_current_drv string
  | Route_to_default
  | Sd_end
  | Fade_to_end nat
  | Fill_screen_black
  | Delay_ticks nat
  | Wf_gw_reset
  | Netlink_stop
  | Netlink_start
  | Ap_malloc nat
  | Bt_controller_init
  | Netcfg_malloc
  | Netcfg_init "nat option"
  | Netcfg_start "nat option"
  | Netcfg_stop "nat option"
  | Netcfg_free "nat option"
  | Gw_wifi_user_cfg string string string
  | Timer_create string uint32
  | Timer_start "nat option" uint32
  | Timer_change "nat option" uint32 uint32
  | Timer_delete "nat option" uint32
  | Get_geo_info
  | Get_geo_info_with_location int int
  | Set_time_from_geo_info uint32
  | Net_prop_set string int "bool list"

text \<open>
  The surroundings of one input: whether the device is awake (\<^verbatim>\<open>Sys::WAKE\<close>), the screen that is
  shown, the answer of the allocator, the networks \<^verbatim>\<open>WiFi.getNetworkInfo\<close> knows (name, signal,
  address, channel), the millisecond counter, read several times while an input is handled, the
  properties and the memory card, and the answers of the Bluetooth controller, the timers and the
  location service.
\<close>

record net_env =
  awake :: bool
  ui_index :: ui_t
  ptr :: "nat option"
  network_info :: "nat \<Rightarrow> (byte list \<times> int32 \<times> byte list option \<times> int32) option"
  now :: "netif_call list \<Rightarrow> uint32"
  tutorial_complete :: int
  has_pot :: bool
  tu_exists :: bool
  bt_ret :: int
  timer_ret :: int
  wifi_is_connected :: bool
  geo_longitude :: int
  geo_latitude :: int
  geo_answer :: "(string \<times> int) option"
  ymd :: "uint32 \<Rightarrow> int"
  iot_env :: iot_platform

text \<open>
  The members of \<^verbatim>\<open>NetInterface\<close>, the static counters of its event handler, the variables
  of the Bluetooth channel, and the state of \<^verbatim>\<open>IOT\<close>.
\<close>

record net_if = "netif_call machine" +
  in_provision :: bool
  m_prov_status :: prov_status_t
  ap_not_found :: bool
  m_ip_monitor_timer :: "nat option"
  m_ap_num :: uint16
  m_ap_list :: "net_ap list option"
  s_wifi_connect_retry_num :: int
  s_ap_find_retry_num :: int
  ble_netcfg_ctx :: "nat option"
  bt_stop_flag :: bool
  iot_obj :: iot

section \<open>NetInterface\<close>

definition net_prov_start :: "'z net_if_scheme \<Rightarrow> 'z net_if_scheme" where
  "net_prov_start s = s\<lparr>iot_obj := iot_begin (iot_obj s)\<rparr>"

definition net_is_provisioned :: "'z net_if_scheme \<Rightarrow> bool" where
  "net_is_provisioned s = (\<not> in_provision s)"

definition net_prov_reset :: "'z net_if_scheme \<Rightarrow> 'z net_if_scheme" where
  "net_prov_reset s = s\<lparr>calls := calls s @
     [Set_locked False, Set_current_drv ''none'', Sd_end, Fade_to_end 300, Fill_screen_black,
      Delay_ticks 100, Wf_gw_reset]\<rparr>"

definition set_prov_status :: "prov_status_t \<Rightarrow> 'z net_if_scheme \<Rightarrow> 'z net_if_scheme" where
  "set_prov_status status s = s\<lparr>m_prov_status := status\<rparr>"

definition set_in_provision :: "bool \<Rightarrow> 'z net_if_scheme \<Rightarrow> 'z net_if_scheme" where
  "set_in_provision v s =
     (let s1 = s\<lparr>in_provision := v\<rparr> in if v then set_prov_status prov_init s1 else s1)"

definition ui_text_tip :: "net_env \<Rightarrow> string \<Rightarrow> string \<Rightarrow> 'z net_if_scheme \<Rightarrow> 'z net_if_scheme" where
  "ui_text_tip e main sub s =
     (if ui_index e = UI_BOOT then s
      else if ui_index e = UI_TEXT then issue (Text_ui_update main sub) s
      else issue (Text_ui_load main sub) (issue (Set_locked False) s))"

text \<open>
  The end of a scan. \<^verbatim>\<open>getNetworkInfo\<close> leaves the variables alone when it does not know the
  network, so an entry then repeats the one before; the first has a null \<^verbatim>\<open>BSSID_scan\<close>.
  \<^verbatim>\<open>strncpy\<close> pads with zeros.
\<close>

definition strncpy33 :: "byte list \<Rightarrow> byte list" where
  "strncpy33 cs = take 33 (takeWhile (\<lambda>b. b \<noteq> 0) cs @ replicate 33 0)"

fun scan_loop ::
  "net_env \<Rightarrow> nat list \<Rightarrow> byte list \<times> int32 \<times> byte list option \<times> int32 \<Rightarrow> net_ap list option" where
  "scan_loop e [] vars = Some []"
| "scan_loop e (i # is) vars =
     (case (case network_info e i of None \<Rightarrow> vars | Some v \<Rightarrow> v) of
        (ssid_scan, rssi_scan, BSSID_scan, chan_scan) \<Rightarrow>
          (case BSSID_scan of None \<Rightarrow> None
           | Some mac \<Rightarrow> map_option
               ((#) \<lparr>ap_channel = ucast chan_scan, ap_rssi = ucast rssi_scan, ap_bssid = take 6 mac,
                     ap_ssid = strncpy33 ssid_scan, ap_s_len = of_nat (length ssid_scan)\<rparr>)
               (scan_loop e is (ssid_scan, rssi_scan, BSSID_scan, chan_scan))))"

definition scan_done :: "net_env \<Rightarrow> byte \<Rightarrow> 'z net_if_scheme \<Rightarrow> 'z net_if_scheme option" where
  "scan_done e number s =
     (let n = (ucast number :: uint16);
          s1 = issue (Ap_malloc (AP_IF_S_size * unat n)) (s\<lparr>m_ap_num := n\<rparr>)
      in case ptr e of
           None \<Rightarrow> if n = 0 then Some (s1\<lparr>m_ap_list := None\<rparr>) else None
         | Some _ \<Rightarrow> map_option (\<lambda>aps. s1\<lparr>m_ap_list := Some aps\<rparr>)
             (scan_loop e [0..<unat n] ([], 0, None, 0)))"

definition on_disconnected :: "net_env \<Rightarrow> nat \<Rightarrow> 'z net_if_scheme \<Rightarrow> 'z net_if_scheme" where
  "on_disconnected e reason s =
     (if reason = WIFI_REASON_4WAY_HANDSHAKE_TIMEOUT \<or> reason = WIFI_REASON_HANDSHAKE_TIMEOUT then
        (if in_provision s then set_prov_status prov_pwd_error s else s)
      else if reason = WIFI_REASON_NO_AP_FOUND then
        (if s_ap_find_retry_num s < WIFI_AP_FIND_MAXNUM_RETRY then
           (issue Esp_wifi_connect s)\<lparr>s_ap_find_retry_num := s_ap_find_retry_num s + 1\<rparr>
         else if s_ap_find_retry_num s = WIFI_AP_FIND_MAXNUM_RETRY then
           (let s1 = (if in_provision s then set_prov_status prov_ap_not_found s
                      else ui_text_tip e ''ui_tuya_tip_connect_fail''
                             ''ui_tuya_tip_reason_ap_not_found'' s)
            in (issue Esp_wifi_connect s1)\<lparr>s_ap_find_retry_num := s_ap_find_retry_num s + 1\<rparr>)
         else s\<lparr>ap_not_found := True\<rparr>)
      else
        (if s_wifi_connect_retry_num s < WIFI_CONNECT_MAXNUM_RETRY then
           (issue Esp_wifi_connect s)\<lparr>s_wifi_connect_retry_num := s_wifi_connect_retry_num s + 1\<rparr>
         else if s_wifi_connect_retry_num s = WIFI_CONNECT_MAXNUM_RETRY then
           (let s1 = (if in_provision s then set_prov_status prov_wifi_conn_fail s
                      else ui_text_tip e ''ui_tuya_tip_connect_fail'' ''ui_tuya_tip_fail_reset'' s)
            in (issue Esp_wifi_connect s1)\<lparr>s_wifi_connect_retry_num := s_wifi_connect_retry_num s + 1\<rparr>)
         else s))"

datatype net_event =
    SCAN_DONE byte
  | STA_START
  | STA_CONNECTED
  | STA_DISCONNECTED nat
  | STA_GOT_IP uint32
  | STA_LOST_IP
  | STA_BSS_RSSI_LOW int

fun net_event_handler :: "net_env \<Rightarrow> net_event \<Rightarrow> 'z net_if_scheme \<Rightarrow> 'z net_if_scheme option" where
  "net_event_handler e (SCAN_DONE number) s = scan_done e number s"
| "net_event_handler e STA_START s = Some s"
| "net_event_handler e STA_CONNECTED s =
     Some ((issue (Set_sta_status WSS_CONN_SUCCESS) s)
       \<lparr>s_wifi_connect_retry_num := 0, s_ap_find_retry_num := 0\<rparr>)"
| "net_event_handler e (STA_DISCONNECTED reason) s =
     (if \<not> awake e then Some s
      else let s1 = issue (Set_sta_status WSS_CONN_FAIL) s
           in Some (on_disconnected e reason
                (s1\<lparr>iot_obj := set_connection_status False (iot_obj s1)\<rparr>)))"
| "net_event_handler e (STA_GOT_IP addr) s =
     (let s1 = issue (Set_sta_status WSS_GOT_IP) (issue (Set_ip_info addr) s);
          s2 = s1\<lparr>iot_obj := report_ip (iot_env e) (iot_obj s1)\<rparr>;
          s3 = issue (Skin_calibrate_all 1000) (issue Boot_got_ip_cb s2)
      in Some (if in_provision s3 then set_prov_status prov_wifi_connected s3 else s3))"
| "net_event_handler e STA_LOST_IP s = Some s"
| "net_event_handler e (STA_BSS_RSSI_LOW level) s =
     Some (if in_provision s then set_prov_status prov_rssi_low s
           else ui_text_tip e ''ui_tuya_tip_signal_week'' ''ui_tuya_tip_reason_week'' s)"

text \<open>The status codes of \<^verbatim>\<open>GW_WIFI_NW_STAT_E\<close> the code looks at; the type is a byte.\<close>

definition STAT_CLOUD_CONN :: byte where [simp]: "STAT_CLOUD_CONN = 7"
definition STAT_AP_CLOUD_CONN :: byte where [simp]: "STAT_AP_CLOUD_CONN = 8"

definition net_status_change_handler :: "net_env \<Rightarrow> byte \<Rightarrow> 'z net_if_scheme \<Rightarrow> 'z net_if_scheme" where
  "net_status_change_handler e stat s =
     (if stat = STAT_CLOUD_CONN \<or> stat = STAT_AP_CLOUD_CONN then
        let s1 = (if in_provision s then set_prov_status prov_activated s else s);
            s2 = issue Boot_activated_cb (issue (Set_condition ''TIMESTAMP_ACQUIRED'') s1);
            s3 = s2\<lparr>iot_obj := connect_cb (iot_env e) (set_connection_status True (iot_obj s2))\<rparr>
        in issue Register_button_tap (set_in_provision False s3)
      else s)"

text \<open>
  \<^verbatim>\<open>net_sync_geo_info\<close>. \<open>geo_answer\<close> is the latitude and the time the service filled in, or \<open>None\<close>
  when the request failed. The request time is halved in whole seconds; its conversion to
  \<^verbatim>\<open>int\<close> is in range below 2 to the 31 milliseconds.
\<close>

definition net_sync_geo_info :: "net_env \<Rightarrow> 'z net_if_scheme \<Rightarrow> bool \<times> 'z net_if_scheme" where
  "net_sync_geo_info e s =
     (let start_t = now e (calls s);
          auto_loc = (geo_latitude e = 0 \<and> geo_longitude e = 0);
          s1 = issue (if auto_loc then Get_geo_info
                      else Get_geo_info_with_location (geo_latitude e) (geo_longitude e)) s;
          delta = (if auto_loc then now e (calls s1) - start_t else 0)
      in case geo_answer e of
           None \<Rightarrow> (False, s1)
         | Some (lat, t) \<Rightarrow>
             if lat = [] then (False, s1)
             else
               let timestamp = (word_of_int (t + int (unat delta div 2000)) :: uint32);
                   s2 = issue (Net_prop_set ''start_sync_time'' (ymd e timestamp) [False, False, True])
                          (issue (Set_time_from_geo_info timestamp) s1);
                   s3 = (if tutorial_complete e = 1
                         then issue (Net_prop_set ''tutorial_complete'' (uint timestamp)
                                [True, True, True, True]) s2
                         else s2)
               in (True, issue (Set_condition ''TIME_SYNCHRONIZED'') s3))"

definition net_connected :: "net_env \<Rightarrow> bool" where
  "net_connected e = wifi_is_connected e"

definition disable_wifi :: "'z net_if_scheme \<Rightarrow> 'z net_if_scheme" where
  "disable_wifi s = issue Netlink_stop s"

definition enable_wifi :: "'z net_if_scheme \<Rightarrow> 'z net_if_scheme" where
  "enable_wifi s = issue Netlink_start s"

text \<open>\<^verbatim>\<open>get_ap_list\<close> hands out the list of the last scan with its length.\<close>

definition get_ap_list :: "'z net_if_scheme \<Rightarrow> net_ap list option \<times> uint16" where
  "get_ap_list s = (m_ap_list s, m_ap_num s)"

text \<open>The timer of the address monitor; a tick is a millisecond.\<close>

definition ARCH_OS_WAIT_MS2TICK :: "uint32 \<Rightarrow> uint32" where
  "ARCH_OS_WAIT_MS2TICK ms =
     (if ms = 0xFFFFFFFF then 0xFFFFFFFF else ms div 1 + (ms mod 1 + 1 - 1) div 1)"

definition TIMER_BLOCK :: uint32 where [simp]: "TIMER_BLOCK = (10 * 1000) div 1"

definition ip_monitor_callback :: "'z net_if_scheme \<Rightarrow> 'z net_if_scheme" where
  "ip_monitor_callback s = issue Esp_wifi_disconnect s"

definition ip_monitor_timer_create ::
  "net_env \<Rightarrow> string \<Rightarrow> uint32 \<Rightarrow> 'z net_if_scheme \<Rightarrow> int \<times> 'z net_if_scheme" where
  "ip_monitor_timer_create e name ms s =
     (let ticks = ARCH_OS_WAIT_MS2TICK ms;
          s1 = (issue (Timer_create name ticks) s)\<lparr>m_ip_monitor_timer := ptr e\<rparr>
      in if ptr e = None then (0, s1)
         else
           let s2 = issue (Timer_start (ptr e) ticks) s1
           in if timer_ret e \<noteq> 1
              then (0, (issue (Timer_delete (ptr e) TIMER_BLOCK) s2)\<lparr>m_ip_monitor_timer := None\<rparr>)
              else (1, s2))"

definition ip_monitor_timer_change :: "net_env \<Rightarrow> uint32 \<Rightarrow> 'z net_if_scheme \<Rightarrow> int \<times> 'z net_if_scheme" where
  "ip_monitor_timer_change e ms s =
     (if timer_ret e = 1 then 1 else 0,
      issue (Timer_change (m_ip_monitor_timer s) (ARCH_OS_WAIT_MS2TICK ms) TIMER_BLOCK) s)"

definition ip_monitor_timer_delete :: "net_env \<Rightarrow> 'z net_if_scheme \<Rightarrow> int \<times> 'z net_if_scheme" where
  "ip_monitor_timer_delete e s =
     (if timer_ret e = 1 then 1 else 0, issue (Timer_delete (m_ip_monitor_timer s) TIMER_BLOCK) s)"

section \<open>The Bluetooth configuration channel\<close>

datatype netcfg_event =
    BLE_COMPLETED string string string | BLE_DISCONNECTED | BLE_STOP | BLE_TIMEOUT | BLE_FAILED

fun ble_netcfg_event_on :: "netcfg_event \<Rightarrow> 'z net_if_scheme \<Rightarrow> 'z net_if_scheme" where
  "ble_netcfg_event_on (BLE_COMPLETED ssid password token) s =
     issue (Gw_wifi_user_cfg ssid password token) s"
| "ble_netcfg_event_on BLE_DISCONNECTED s = s"
| "ble_netcfg_event_on BLE_STOP s = s"
| "ble_netcfg_event_on BLE_TIMEOUT s = s"
| "ble_netcfg_event_on BLE_FAILED s = s"

definition tuya_iot_bt_init :: "net_env \<Rightarrow> 'z net_if_scheme \<Rightarrow> (int \<times> 'z net_if_scheme) option" where
  "tuya_iot_bt_init e s =
     (let s1 = issue Bt_controller_init s
      in if bt_ret e \<noteq> 0 then Some (OPRT_COM_ERROR, s1)
         else
           let s2 = (issue Netcfg_malloc s1)\<lparr>ble_netcfg_ctx := ptr e\<rparr>
           in if ptr e = None then None
              else Some (OPRT_OK,
                (issue (Netcfg_start (ptr e)) (issue (Netcfg_init (ptr e)) s2))
                  \<lparr>bt_stop_flag := False\<rparr>))"

definition tuya_iot_bt_stop :: "'z net_if_scheme \<Rightarrow> 'z net_if_scheme" where
  "tuya_iot_bt_stop s =
     (let s1 = (if \<not> bt_stop_flag s
                then issue (Netcfg_free (ble_netcfg_ctx s))
                       ((issue (Netcfg_stop (ble_netcfg_ctx s)) s)\<lparr>bt_stop_flag := True\<rparr>)
                else s)
      in set_prov_status prov_ble_connected s1)"

section \<open>The provisioning screen\<close>

text \<open>
  The members of \<^verbatim>\<open>UIProvTip\<close>, with the step counter it inherits; \<open>next\<close> runs every 100 ms.
\<close>

record prov = net_if +
  m_current_step :: int
  m_next_status_t :: uint32
  m_should_show_processing :: bool
  m_restart_t :: uint32
  m_current_err :: int
  m_should_restart :: bool

definition reach_status :: "net_env \<Rightarrow> prov_status_t \<Rightarrow> string \<Rightarrow> prov \<Rightarrow> bool \<times> prov" where
  "reach_status e status processing_text s =
     (if prov_num (m_prov_status s) \<ge> prov_num status
         \<and> prov_num (m_prov_status s) < prov_num prov_err_start then (True, s)
      else if m_should_show_processing s \<and> processing_text \<noteq> [] \<and> now e (calls s) > m_next_status_t s
      then (False, (issue (Text_update m_sub_text processing_text) s)
                     \<lparr>m_should_show_processing := False\<rparr>)
      else (False, s))"

definition set_next_status_timeout :: "net_env \<Rightarrow> uint32 \<Rightarrow> prov \<Rightarrow> prov" where
  "set_next_status_timeout e timeout s =
     s\<lparr>m_next_status_t := now e (calls s) + timeout, m_should_show_processing := True\<rparr>"

definition set_restart :: "net_env \<Rightarrow> bool \<Rightarrow> uint32 \<Rightarrow> prov \<Rightarrow> prov" where
  "set_restart e should_restart timeout s =
     s\<lparr>m_restart_t := now e (calls s) + timeout, m_should_restart := should_restart\<rparr>"

fun show_error :: "net_env \<Rightarrow> prov_status_t \<Rightarrow> prov \<Rightarrow> prov" where
  "show_error e prov_wifi_conn_fail s = issue (Text_update m_sub_text ''ui_tuya_tip_fail_reset'') s"
| "show_error e prov_pwd_error s =
     set_restart e True PWD_ERROR_DELAY
       (issue (Text_update m_bottom_text ''ui_prov_fail'')
         (issue (Text_update m_sub_text ''ui_tuya_tip_reason_pwd_error'') s))"
| "show_error e prov_ap_not_found s =
     issue (Text_update m_bottom_text ''ui_prov_fail'')
       (set_restart e True AP_NOT_FOUND_DELAY
         (issue (Text_update m_sub_text ''ui_tuya_tip_reason_ap_not_found'') s))"
| "show_error e prov_rssi_low s = issue (Text_update m_sub_text ''ui_tuya_tip_reason_week'') s"
| "show_error e _ s = s"

definition check_error :: "net_env \<Rightarrow> prov \<Rightarrow> prov" where
  "check_error e s =
     (let status = m_prov_status s
      in if prov_num status > prov_num prov_err_start then
           (if m_current_err s \<noteq> prov_num status
            then (show_error e status s)\<lparr>m_current_err := prov_num status\<rparr> else s)
         else s\<lparr>m_current_err := 0\<rparr>)"

definition advance :: "prov \<Rightarrow> prov" where
  "advance s = s\<lparr>m_current_step := m_current_step s + 1\<rparr>"

definition step_open_app :: "net_env \<Rightarrow> prov \<Rightarrow> prov" where
  "step_open_app e s = advance (s\<lparr>calls := calls s @
     [Set_timer_period 100, Text_update m_top_text ''ui_tu_open_tuya_app'',
      Text_update m_sub_text ''ui_tu_tuya_add_device'',
      Canvas (if tu_exists e then ''tu/tu_tuya_1'' else ''provisioning''),
      Text_update m_bottom_text ''ui_prov_popup'']\<rparr>)"

definition step_app_success :: "net_env \<Rightarrow> prov \<Rightarrow> prov" where
  "step_app_success e s =
     (let (ok, s1) = reach_status e prov_ble_connected [] s
      in if \<not> ok then s1
         else advance (set_next_status_timeout e 1500 (s1\<lparr>calls := calls s1 @
           [Text_update m_bottom_text [], Text_update m_top_text [],
            Text_update m_title_text ''ui_prov_configuring'', Canvas ''fade'',
            Text_update m_sub_text ''ui_prov_app_success'', Canvas ''move'']\<rparr>)))"

definition step_router_success :: "net_env \<Rightarrow> prov \<Rightarrow> prov" where
  "step_router_success e s =
     (let (ok, s1) = reach_status e prov_wifi_connected ''ui_prov_connecting_router'' s
      in if \<not> ok then s1
         else advance (set_next_status_timeout e 1500
                (issue (Text_update m_sub_text ''ui_prov_router_success'') s1)))"

definition step_act_success :: "net_env \<Rightarrow> prov \<Rightarrow> prov" where
  "step_act_success e s =
     (let (ok, s1) = reach_status e prov_activated ''ui_prov_activating'' s
      in if \<not> ok then s1
         else advance (issue (Set_timer_period 5000)
                (issue (Text_update m_sub_text ''ui_prov_act_success'') s1)))"

definition step_done :: "net_env \<Rightarrow> prov \<Rightarrow> prov" where
  "step_done e s =
     (if tutorial_complete e \<noteq> 0 then
        let s1 = s\<lparr>calls := calls s @ [Set_locked False, Boot_booted_cb, Set_condition ''BOOT_OVER'']\<rparr>
        in if has_pot e then issue (Canvas ''yawn'') (issue (Set_current_drv ''emo'') s1)
           else issue Route_to_default s1
      else s)"

definition next_step :: "net_env \<Rightarrow> prov \<Rightarrow> prov" where
  "next_step e s =
     (if m_should_restart s then
        (if now e (calls s) > m_restart_t s then issue Soft_reboot s else s)
      else
        let s1 = check_error e s
        in if m_current_err s1 \<noteq> 0 then s1
           else if m_current_step s1 = 0 then step_open_app e s1
           else if m_current_step s1 = 1 then step_app_success e s1
           else if m_current_step s1 = 2 then step_router_success e s1
           else if m_current_step s1 = 3 then step_act_success e s1
           else if m_current_step s1 = 4 then step_done e s1
           else advance s1)"

section \<open>Runs\<close>

text \<open>
  The event that ends the start-up of the SDK, \<^verbatim>\<open>tuya_dev_init_event_cb\<close> of \<open>Iot\<close>, starts
  provisioning when it sets \<^verbatim>\<open>in_provision\<close> and loads a fresh \<^verbatim>\<open>UI_PROV_TIP\<close>.
\<close>

definition fresh_screen :: "prov \<Rightarrow> prov" where
  "fresh_screen s = s\<lparr>m_current_step := 0, m_next_status_t := 0, m_should_show_processing := False,
     m_restart_t := 0, m_current_err := 0, m_should_restart := False\<rparr>"

definition dev_init_event :: "net_env \<Rightarrow> prov \<Rightarrow> prov option" where
  "dev_init_event e s =
     (case tuya_dev_init_event_cb (iot_env e) (iot_obj s) of
        (None, _) \<Rightarrow> None
      | (Some r, i) \<Rightarrow>
          Some (if Set_in_provision True \<in> set (drop (length (calls (iot_obj s))) (calls i))
                then fresh_screen (set_in_provision True (s\<lparr>iot_obj := i\<rparr>))
                else s\<lparr>iot_obj := i\<rparr>))"

datatype net_input =
    Dev_init
  | Wifi_event net_event
  | Nw_status byte
  | Bt_init
  | Bt_stop
  | Bt_event netcfg_event
  | Sync_geo
  | Screen_tick

fun net_step :: "net_env \<times> net_input \<Rightarrow> prov \<Rightarrow> prov option" where
  "net_step (e, Dev_init) s = dev_init_event e s"
| "net_step (e, Wifi_event ev) s = net_event_handler e ev s"
| "net_step (e, Nw_status stat) s = Some (net_status_change_handler e stat s)"
| "net_step (e, Bt_init) s = map_option snd (tuya_iot_bt_init e s)"
| "net_step (e, Bt_stop) s = Some (tuya_iot_bt_stop s)"
| "net_step (e, Bt_event ev) s = Some (ble_netcfg_event_on ev s)"
| "net_step (e, Sync_geo) s = Some (snd (net_sync_geo_info e s))"
| "net_step (e, Screen_tick) s = Some (next_step e s)"

fun net_run :: "(net_env \<times> net_input) list \<Rightarrow> prov \<Rightarrow> prov option" where
  "net_run [] s = Some s"
| "net_run (x # xs) s = (case net_step x s of None \<Rightarrow> None | Some s1 \<Rightarrow> net_run xs s1)"

definition net_boot :: prov where
  "net_boot =
     \<lparr>calls = [], in_provision = False, m_prov_status = prov_no_need, ap_not_found = False,
      m_ip_monitor_timer = None, m_ap_num = 0, m_ap_list = None, s_wifi_connect_retry_num = 0,
      s_ap_find_retry_num = 0, ble_netcfg_ctx = None, bt_stop_flag = False, iot_obj = iot_init,
      m_current_step = 0, m_next_status_t = 0, m_should_show_processing = False, m_restart_t = 0,
      m_current_err = 0, m_should_restart = False\<rparr>"

section \<open>Retries\<close>

text \<open>
  The disconnections the handler answers with a new attempt: the access point was not found, and
  everything else but a failed handshake, which means a wrong password.
\<close>

fun ap_lost :: "net_env \<times> net_input \<Rightarrow> bool" where
  "ap_lost (e, Wifi_event (STA_DISCONNECTED r)) = (awake e \<and> r = WIFI_REASON_NO_AP_FOUND)"
| "ap_lost _ = False"

fun conn_lost :: "net_env \<times> net_input \<Rightarrow> bool" where
  "conn_lost (e, Wifi_event (STA_DISCONNECTED r)) =
     (awake e \<and> r \<notin> {WIFI_REASON_4WAY_HANDSHAKE_TIMEOUT, WIFI_REASON_HANDSHAKE_TIMEOUT,
                       WIFI_REASON_NO_AP_FOUND})"
| "conn_lost _ = False"

definition attempts :: "'z net_if_scheme \<Rightarrow> nat" where
  "attempts s = count_list (calls s) Esp_wifi_connect"

lemma attempts_issue [simp]:
  "attempts (issue c s) = attempts s + (if c = Esp_wifi_connect then 1 else 0)"
  by (simp add: attempts_def issue_def)

lemmas net_ops = set_prov_status_def set_in_provision_def Let_def

lemma calls_iot_obj [simp]: "calls (s\<lparr>iot_obj := ob\<rparr>) = calls s"
  by (cases s) simp

lemma attempts_update [simp]:
  "attempts (s\<lparr>in_provision := b\<rparr>) = attempts s"
  "attempts (s\<lparr>m_prov_status := st\<rparr>) = attempts s"
  "attempts (s\<lparr>ap_not_found := b\<rparr>) = attempts s"
  "attempts (s\<lparr>m_ap_num := n\<rparr>) = attempts s"
  "attempts (s\<lparr>m_ap_list := aps\<rparr>) = attempts s"
  "attempts (s\<lparr>s_wifi_connect_retry_num := i\<rparr>) = attempts s"
  "attempts (s\<lparr>s_ap_find_retry_num := i\<rparr>) = attempts s"
  "attempts (s\<lparr>ble_netcfg_ctx := p\<rparr>) = attempts s"
  "attempts (s\<lparr>bt_stop_flag := b\<rparr>) = attempts s"
  "attempts (s\<lparr>iot_obj := ob\<rparr>) = attempts s"
  by (simp_all add: attempts_def calls_iot_obj)

text \<open>What the retry logic sees of a state: the attempts made and the two counters.\<close>

definition retry_state :: "'z net_if_scheme \<Rightarrow> nat \<times> int \<times> int" where
  "retry_state s = (attempts s, s_ap_find_retry_num s, s_wifi_connect_retry_num s)"

lemma retry_tip [simp]: "retry_state (ui_text_tip e a b s) = retry_state s"
  by (simp add: ui_text_tip_def retry_state_def issue_def attempts_def)

lemma retry_disconnected:
  "retry_state (on_disconnected e r s) =
     (let a = (r = WIFI_REASON_NO_AP_FOUND \<and> s_ap_find_retry_num s \<le> 16);
          b = (r \<notin> {WIFI_REASON_4WAY_HANDSHAKE_TIMEOUT, WIFI_REASON_HANDSHAKE_TIMEOUT,
                      WIFI_REASON_NO_AP_FOUND} \<and> s_wifi_connect_retry_num s \<le> 6)
      in (attempts s + (if a \<or> b then 1 else 0), s_ap_find_retry_num s + (if a then 1 else 0),
          s_wifi_connect_retry_num s + (if b then 1 else 0)))"
  using retry_tip [of e _ _ s]
  by (auto simp: on_disconnected_def retry_state_def net_ops issue_def attempts_def)

lemma retry_screen [simp]: "retry_state (next_step e s) = retry_state s"
  by (cases "m_prov_status s")
    (auto simp: next_step_def check_error_def step_open_app_def step_app_success_def
      step_router_success_def step_act_success_def step_done_def reach_status_def
      set_next_status_timeout_def set_restart_def advance_def retry_state_def attempts_def issue_def
      Let_def)

lemma retry_geo [simp]: "retry_state (snd (net_sync_geo_info e s)) = retry_state s"
  by (auto simp: net_sync_geo_info_def retry_state_def attempts_def issue_def Let_def
      split: option.splits prod.splits)

lemma retry_dev_init: "dev_init_event e s = Some s' \<Longrightarrow> retry_state s' = retry_state s"
  by (auto simp: dev_init_event_def retry_state_def attempts_def fresh_screen_def net_ops
      split: prod.splits option.splits if_splits)

text \<open>What one input does to the retry logic, unless it reports a connection.\<close>

definition retried :: "net_env \<times> net_input \<Rightarrow> nat \<times> int \<times> int \<Rightarrow> nat \<times> int \<times> int" where
  "retried x = (\<lambda>(n, a, c).
     if ap_lost x \<and> a \<le> 16 then (n + 1, a + 1, c)
     else if conn_lost x \<and> c \<le> 6 then (n + 1, a, c + 1) else (n, a, c))"

lemma retry_event:
  assumes "net_event_handler e ev s = Some s'" "ev \<noteq> STA_CONNECTED"
  shows "retry_state s' = retried (e, Wifi_event ev) (retry_state s)"
proof (cases ev)
  case (STA_DISCONNECTED r)
  show ?thesis
  proof (cases "awake e")
    case True
    let ?s1 = "issue (Set_sta_status WSS_CONN_FAIL) s"
    have s': "s' = on_disconnected e r (?s1\<lparr>iot_obj := set_connection_status False (iot_obj ?s1)\<rparr>)"
      using assms(1) STA_DISCONNECTED True by (simp add: Let_def)
    have "s_ap_find_retry_num ?s1 = s_ap_find_retry_num s"
      "s_wifi_connect_retry_num ?s1 = s_wifi_connect_retry_num s"
      by (simp_all add: issue_def)
    then show ?thesis using STA_DISCONNECTED True unfolding s' retry_disconnected
      by (auto simp: retried_def retry_state_def Let_def)
  qed (use assms STA_DISCONNECTED in \<open>simp add: retried_def retry_state_def\<close>)
next
  case (SCAN_DONE n)
  with assms show ?thesis
    by (auto simp: scan_done_def retried_def retry_state_def Let_def issue_def attempts_def
        split: if_splits option.splits)
next
  case (STA_GOT_IP a)
  with assms show ?thesis
    by (auto simp: retried_def retry_state_def net_ops issue_def attempts_def)
next
  case (STA_BSS_RSSI_LOW l)
  with assms show ?thesis
    by (auto simp: retried_def net_ops) (simp add: retry_state_def)
qed (use assms in \<open>auto simp: retried_def retry_state_def\<close>)

lemma retry_step:
  assumes "net_step x s = Some s'" "snd x \<noteq> Wifi_event STA_CONNECTED"
  shows "retry_state s' = retried x (retry_state s)"
proof -
  obtain e i where x: "x = (e, i)" by (cases x)
  show ?thesis
  proof (cases i)
    case (Wifi_event ev)
    with assms x show ?thesis by (auto intro: retry_event)
  next
    case Dev_init
    with assms x show ?thesis by (auto simp: retried_def retry_state_def dest: retry_dev_init)
  next
    case (Bt_event ev)
    with assms x show ?thesis
      by (cases ev) (auto simp: retried_def retry_state_def issue_def attempts_def)
  qed (use assms x in \<open>auto simp: retried_def tuya_iot_bt_init_def net_status_change_handler_def
      tuya_iot_bt_stop_def net_ops, auto simp: retry_state_def issue_def attempts_def split: if_splits\<close>)
qed

text \<open>The counters count the losses up to one more than their bound, and each count is one attempt.\<close>

lemma retry_run:
  assumes "net_run xs s = Some s'" "Wifi_event STA_CONNECTED \<notin> snd ` set xs"
    and "s_ap_find_retry_num s \<le> 17" "s_wifi_connect_retry_num s \<le> 7"
  shows "s_ap_find_retry_num s' = min 17 (s_ap_find_retry_num s + int (length (filter ap_lost xs)))
    \<and> s_wifi_connect_retry_num s'
        = min 7 (s_wifi_connect_retry_num s + int (length (filter conn_lost xs)))
    \<and> int (attempts s') - int (attempts s) = s_ap_find_retry_num s' - s_ap_find_retry_num s
        + (s_wifi_connect_retry_num s' - s_wifi_connect_retry_num s)"
  using assms
proof (induction xs arbitrary: s)
  case (Cons x xs)
  from Cons.prems(1) obtain s1 where s1: "net_step x s = Some s1" "net_run xs s1 = Some s'"
    by (auto split: option.splits)
  have st: "retry_state s1 = retried x (retry_state s)"
    using s1(1) Cons.prems(2) by (intro retry_step) auto
  have disj: "\<not> (ap_lost x \<and> conn_lost x)" by (cases x rule: ap_lost.cases) auto
  have le: "s_ap_find_retry_num s1 \<le> 17" "s_wifi_connect_retry_num s1 \<le> 7"
    using st Cons.prems(3,4) by (auto simp: retried_def retry_state_def split: if_splits)
  have "Wifi_event STA_CONNECTED \<notin> snd ` set xs" using Cons.prems(2) by simp
  from Cons.IH [OF s1(2) this le] st disj Cons.prems(3,4) show ?case
    by (cases "ap_lost x"; cases "conn_lost x")
      (auto simp: retried_def retry_state_def min_def split: if_splits)
qed simp

text \<open>
  The report of a failure: during provisioning the status is set, otherwise a text is shown (unless
  the device is still starting), and one more connection is asked for.
\<close>

definition reported :: "net_env \<Rightarrow> prov_status_t \<Rightarrow> string \<Rightarrow> prov \<Rightarrow> prov \<Rightarrow> bool" where
  "reported e status reason s s' =
     (if in_provision s then m_prov_status s' = status
      else calls s' = calls (ui_text_tip e ''ui_tuya_tip_connect_fail'' reason
                               (issue (Set_sta_status WSS_CONN_FAIL) s)) @ [Esp_wifi_connect])"

lemma tip_keeps [simp]:
  "calls (ui_text_tip e a b (s\<lparr>iot_obj := ob\<rparr>)) = calls (ui_text_tip e a b s)"
  by (simp add: ui_text_tip_def issue_def)

lemma in_provision_issue [simp]: "in_provision (issue c s) = in_provision s"
  by (simp add: issue_def)

lemma ap_loss_reported:
  assumes "ap_lost x" "s_ap_find_retry_num s = 16" "net_step x s = Some s'"
  shows "reported (fst x) prov_ap_not_found ''ui_tuya_tip_reason_ap_not_found'' s s'"
proof -
  obtain e where x: "x = (e, Wifi_event (STA_DISCONNECTED WIFI_REASON_NO_AP_FOUND))" "awake e"
    using assms(1) by (cases x rule: ap_lost.cases) auto
  have "s_ap_find_retry_num (issue c s) = 16" for c using assms(2) by (simp add: issue_def)
  then show ?thesis using assms(3) x
    by (auto simp: on_disconnected_def reported_def net_ops)
      (simp_all add: issue_def)
qed

lemma conn_loss_reported:
  assumes "conn_lost x" "s_wifi_connect_retry_num s = 6" "net_step x s = Some s'"
  shows "reported (fst x) prov_wifi_conn_fail ''ui_tuya_tip_fail_reset'' s s'"
proof -
  obtain e r where x: "x = (e, Wifi_event (STA_DISCONNECTED r))" "awake e"
    "r \<notin> {WIFI_REASON_4WAY_HANDSHAKE_TIMEOUT, WIFI_REASON_HANDSHAKE_TIMEOUT,
            WIFI_REASON_NO_AP_FOUND}"
    using assms(1) by (cases x rule: conn_lost.cases) auto
  have "s_wifi_connect_retry_num (issue c s) = 6" for c using assms(2) by (simp add: issue_def)
  then show ?thesis using assms(3) x
    by (auto simp: on_disconnected_def reported_def net_ops)
      (simp_all add: issue_def)
qed

lemma net_run_append:
  "net_run (xs @ ys) s = (case net_run xs s of None \<Rightarrow> None | Some s1 \<Rightarrow> net_run ys s1)"
  by (induction xs arbitrary: s) (auto split: option.splits)


text \<open>A device in use, and the surroundings of its inputs.\<close>

definition example_net_env :: net_env where
  "example_net_env =
     \<lparr>awake = True, ui_index = UI_OTHER, ptr = Some 1, network_info = (\<lambda>_. None), now = (\<lambda>_. 0),
      tutorial_complete = 1, has_pot = True, tu_exists = True, bt_ret = 0, timer_ret = 1,
      wifi_is_connected = True, geo_longitude = 0, geo_latitude = 0, geo_answer = None,
      ymd = (\<lambda>_. 0), iot_env = example_iot\<rparr>"

lemma disconnect_runs:
  "\<exists>s'. net_run (replicate n (e, Wifi_event (STA_DISCONNECTED r))) s = Some s'"
  by (induction n arbitrary: s) (auto simp: Let_def)


section \<open>What the screen reports\<close>

text \<open>
  The screen says that the device is activated only when the cloud was reached: the text is written
  from the status \<open>prov_activated\<close>, and that status is only set by the handler of the network status.
\<close>

fun cloud_reached :: "net_env \<times> net_input \<Rightarrow> bool" where
  "cloud_reached (e, Nw_status st) = (st = STAT_CLOUD_CONN \<or> st = STAT_AP_CLOUD_CONN)"
| "cloud_reached _ = False"

definition claims_activation :: "prov \<Rightarrow> bool" where
  "claims_activation s = (m_prov_status s = prov_activated
     \<or> Text_update m_sub_text ''ui_prov_act_success'' \<in> set (calls s))"

lemma claims_tip [simp]: "claims_activation (ui_text_tip e a b s) = claims_activation s"
  by (simp add: claims_activation_def ui_text_tip_def issue_def)

lemma claims_disconnected: "claims_activation (on_disconnected e r s) \<Longrightarrow> claims_activation s"
  using claims_tip [of e _ _ s]
  by (auto simp: on_disconnected_def claims_activation_def net_ops issue_def split: if_splits)

lemma claims_screen: "claims_activation (next_step e s) \<Longrightarrow> claims_activation s"
  by (cases "m_prov_status s")
    (auto simp: next_step_def check_error_def step_open_app_def step_app_success_def
      step_router_success_def step_act_success_def step_done_def reach_status_def
      set_next_status_timeout_def set_restart_def advance_def claims_activation_def issue_def
      Let_def split: if_splits)

lemma claims_step:
  assumes "net_step x s = Some s'" "claims_activation s'" "\<not> claims_activation s"
  shows "cloud_reached x"
proof -
  obtain e i where x: "x = (e, i)" by (cases x)
  show ?thesis
  proof (cases i)
    case Dev_init
    with assms x show ?thesis
      by (auto simp: dev_init_event_def fresh_screen_def net_ops claims_activation_def
          split: prod.splits option.splits if_splits)
  next
    case (Wifi_event ev)
    show ?thesis
    proof (cases ev)
      case (STA_DISCONNECTED r)
      with Wifi_event assms x show ?thesis
        by (auto simp: Let_def split: if_splits dest!: claims_disconnected)
          (simp_all add: claims_activation_def issue_def)
    next
      case (STA_BSS_RSSI_LOW l)
      with Wifi_event assms x show ?thesis
        by (auto simp: net_ops split: if_splits) (simp add: claims_activation_def)
    qed (use Wifi_event assms x in \<open>auto simp: scan_done_def net_ops claims_activation_def issue_def
        split: option.splits if_splits\<close>)
  next
    case (Nw_status st)
    with assms x show ?thesis by (auto simp: net_status_change_handler_def split: if_splits)
  next
    case Bt_init
    with assms x show ?thesis
      by (auto simp: tuya_iot_bt_init_def claims_activation_def Let_def issue_def split: if_splits)
  next
    case Bt_stop
    with assms x show ?thesis
      by (auto simp: tuya_iot_bt_stop_def claims_activation_def net_ops issue_def split: if_splits)
  next
    case (Bt_event ev)
    with assms x show ?thesis by (cases ev) (auto simp: claims_activation_def issue_def)
  next
    case Sync_geo
    with assms x show ?thesis
      by (auto simp: net_sync_geo_info_def claims_activation_def issue_def Let_def
          split: option.splits prod.splits if_splits)
  next
    case Screen_tick
    with assms x show ?thesis by (auto dest: claims_screen)
  qed
qed

lemma activation_shown_after_cloud:
  "net_run xs s = Some s' \<Longrightarrow> claims_activation s' \<Longrightarrow> \<not> claims_activation s \<Longrightarrow>
    \<exists>x\<in>set xs. cloud_reached x"
proof (induction xs arbitrary: s)
  case (Cons x xs)
  from Cons.prems(1) obtain s1 where s1: "net_step x s = Some s1" "net_run xs s1 = Some s'"
    by (auto split: option.splits)
  show ?case
    using Cons.IH [OF s1(2) Cons.prems(2)] claims_step [OF s1(1) _ Cons.prems(3)] by auto
qed simp

text \<open>A second stop of the Bluetooth channel frees nothing.\<close>

lemma bt_stop_once:
  "calls (tuya_iot_bt_stop (tuya_iot_bt_stop s)) = calls (tuya_iot_bt_stop s)"
  by (auto simp: tuya_iot_bt_stop_def net_ops issue_def)

text \<open>The list of a scan that returns has an entry for each network.\<close>

lemma scan_loop_length: "scan_loop e is v = Some aps \<Longrightarrow> length aps = length is"
  by (induction "is" arbitrary: v aps) (auto split: prod.splits option.splits)

lemma scan_done_list:
  assumes "scan_done e n s = Some s'" "ptr e \<noteq> None"
  shows "\<exists>aps. get_ap_list s' = (Some aps, ucast n) \<and> length aps = unat n"
proof -
  have "unat (ucast n :: uint16) = unat n" by transfer (simp add: min_def)
  with assms show ?thesis
    by (auto simp: scan_done_def get_ap_list_def Let_def issue_def dest!: scan_loop_length)
qed

end
