(* ===== verification/Mjpeg_Codec.thy ===== *)
theory Mjpeg_Codec
  imports Prelude
begin

text \<open>
  The reader of video files, \<^verbatim>\<open>ivy/anim/video/MjpegCodec.cpp\<close>: \<^verbatim>\<open>read_frame\<close> cuts the next JPEG image
  out of a stream that arrives in pieces of 1024 bytes, and a decoding and a drawing task consume
  what was cut. The stream is a file: \<^verbatim>\<open>readBytes\<close> returns as many bytes as were asked for unless
  the file ends. Reads past the end of the 1024-byte buffer, which the code does, see the bytes that
  follow it in the object; they are the parameter \<open>past\<close>.

  The lemmas compare the reader with the frames the file is made of: every frame comes out, in
  order and complete, except that a frame whose last byte falls on the first position of a piece
  loses that byte.
\<close>

section \<open>Data\<close>

definition READ_BUFFER_SIZE :: nat where [simp]: "READ_BUFFER_SIZE = 1024"
definition MJPEG_DECODER_BUF_SIZE :: nat where [simp]: "MJPEG_DECODER_BUF_SIZE = 320 * 240 * 2 div 8"

record codec =
  m_buf_read :: int
  m_read_buf_offset :: nat
  m_input_index :: uint32
  m_read_buf :: "byte list"

definition codec_init :: codec where
  "codec_init =
     \<lparr>m_buf_read = 0, m_read_buf_offset = 0, m_input_index = 0,
      m_read_buf = replicate READ_BUFFER_SIZE 0\<rparr>"

text \<open>\<^verbatim>\<open>input->readBytes(m_read_buf + off, n)\<close>: the buffer, the number of bytes read and what is left
  of the file.\<close>

definition readBytes :: "byte list \<Rightarrow> nat \<Rightarrow> nat \<Rightarrow> byte list \<Rightarrow> byte list \<times> nat \<times> byte list" where
  "readBytes buf off n input =
     (let k = min n (length input)
      in (take off buf @ take k input @ drop (off + k) buf, k, drop k input))"

text \<open>The position of the first marker \<open>FF tag\<close> among the positions from \<open>i\<close> to \<open>n\<close>, read from
  address \<open>base\<close> on; the second byte of the marker may lie one past \<open>n\<close>.\<close>

definition find_marker :: "byte \<Rightarrow> byte list \<Rightarrow> nat \<Rightarrow> nat \<Rightarrow> nat \<Rightarrow> nat option" where
  "find_marker tag mem base i n =
     find (\<lambda>k. mem ! (base + k) = 0xFF \<and> mem ! (base + k + 1) = tag) [i..<n]"

section \<open>Reading a frame\<close>

text \<open>The first loop looks for the header. It yields the buffer, the number of bytes in it, the
  position reached and what is left of the file.\<close>

function seek_header ::
  "byte list \<Rightarrow> byte list \<Rightarrow> nat \<Rightarrow> nat \<Rightarrow> byte list \<Rightarrow> byte list \<times> nat \<times> nat \<times> byte list" where
  "seek_header past buf n i input =
     (if n = 0 then (buf, n, i, input)
      else case find_marker 0xD8 (buf @ past) 0 0 n of
             Some k \<Rightarrow> (buf, n, k, input)
           | None \<Rightarrow> (let (buf', n', input') = readBytes buf 0 READ_BUFFER_SIZE input
               in if n' = 0 then (buf', 0, n, input') else seek_header past buf' n' n input'))"
  by pat_completeness auto

termination
  by (relation "measure (\<lambda>(_, _, _, _, input). length input)") (auto simp: readBytes_def Let_def)

text \<open>The second loop copies up to and including the trailer. Its variables are \<open>base\<close>, the position
  of \<^verbatim>\<open>_p\<close> in the buffer; \<open>avail\<close>, the bytes in the buffer from there; \<open>pos\<close>, the index \<^verbatim>\<open>i\<close>; \<open>frame\<close>,
  what has been copied; and \<open>cap\<close>, the size of the block that holds it.\<close>

record cursor =
  base :: nat
  avail :: nat
  pos :: nat
  frame :: "byte list"
  cap :: nat
  idx :: uint32
  buf :: "byte list"
  rest :: "byte list"

definition codec_of :: "cursor \<Rightarrow> codec" where
  "codec_of c = \<lparr>m_buf_read = int (avail c), m_read_buf_offset = length (frame c),
     m_input_index = idx c, m_read_buf = buf c\<rparr>"

text \<open>Whether the trailer is there, and the index after the search.\<close>

definition find_trailer :: "byte list \<Rightarrow> cursor \<Rightarrow> bool \<times> nat" where
  "find_trailer past c =
     (let mem = buf c @ past
      in if frame c \<noteq> [] \<and> last (frame c) = 0xFF \<and> mem ! base c = 0xD9 then (True, pos c)
         else case find_marker 0xD9 mem (base c) (pos c) (avail c) of
                Some k \<Rightarrow> (True, k + 2)
              | None \<Rightarrow> (False, max (pos c) (avail c)))"

text \<open>Copying \<open>i\<close> bytes, moving the others to the front of the buffer and filling it up.\<close>

definition take_bytes :: "byte list \<Rightarrow> nat \<Rightarrow> cursor \<Rightarrow> cursor" where
  "take_bytes past i c =
     (let left = avail c - i;
          moved = (if i < avail c then take left (drop (base c + i) (buf c)) @ drop left (buf c) else buf c);
          (buf1, got, rest1) = readBytes moved left (READ_BUFFER_SIZE - left) (rest c)
      in \<lparr>base = 0, avail = got + left, pos = 0,
          frame = frame c @ take i (drop (base c) (buf c @ past)),
          cap = max (cap c) (length (frame c) + i), idx = idx c + of_nat got, buf = buf1, rest = rest1\<rparr>)"

datatype copied = Out_of_memory cursor | Ended cursor | Found cursor

lemma take_bytes_rest:
  "avail c \<le> i \<Longrightarrow> avail (take_bytes past i c) \<noteq> 0 \<Longrightarrow>
   length (rest (take_bytes past i c)) < length (rest c)"
  by (auto simp: take_bytes_def readBytes_def Let_def)

lemma find_trailer_not: "find_trailer past c = (False, i) \<Longrightarrow> avail c \<le> i"
  by (auto simp: find_trailer_def Let_def split: if_splits option.splits)

function copy_frame :: "(nat \<Rightarrow> bool) \<Rightarrow> byte list \<Rightarrow> cursor \<Rightarrow> copied" where
  "copy_frame mem_ok past c =
     (if cap c < length (frame c) + snd (find_trailer past c)
         \<and> \<not> mem_ok (length (frame c) + snd (find_trailer past c)) then Out_of_memory c
      else if fst (find_trailer past c) then Found (take_bytes past (snd (find_trailer past c)) c)
      else if avail (take_bytes past (snd (find_trailer past c)) c) = 0
      then Ended (take_bytes past (snd (find_trailer past c)) c)
      else copy_frame mem_ok past (take_bytes past (snd (find_trailer past c)) c))"
  by pat_completeness auto

termination
  by (relation "measure (\<lambda>(_, _, c). length (rest c))")
    (auto intro!: take_bytes_rest find_trailer_not simp: prod_eq_iff)

declare seek_header.simps [simp del] copy_frame.simps [simp del]

definition read_frame ::
  "(nat \<Rightarrow> bool) \<Rightarrow> byte list \<Rightarrow> codec \<Rightarrow> byte list \<Rightarrow> byte list option \<times> codec \<times> byte list" where
  "read_frame mem_ok past s input =
     (if \<not> mem_ok MJPEG_DECODER_BUF_SIZE then (None, s, input)
      else
        let (buf0, n0, idx0, input0) =
              (if m_input_index s = 0
               then let (b, k, r) = readBytes (m_read_buf s) 0 READ_BUFFER_SIZE input in (b, int k, of_nat k, r)
               else (m_read_buf s, m_buf_read s, m_input_index s, input));
            (buf1, n1, i, input1) =
              (if n0 > 0 then seek_header past buf0 (nat n0) 0 input0 else (buf0, 0, 0, input0));
            m1 = (if n0 > 0 then int n1 else n0) - int i
        in if m1 > 0
           then (case copy_frame mem_ok past
                        \<lparr>base = i, avail = nat m1, pos = 3, frame = [], cap = MJPEG_DECODER_BUF_SIZE,
                         idx = idx0, buf = buf1, rest = input1\<rparr> of
                   Found c \<Rightarrow> (Some (frame c), codec_of c, rest c)
                 | Ended c \<Rightarrow> (None, codec_of c, rest c)
                 | Out_of_memory c \<Rightarrow> (None, codec_of c, rest c))
           else (None, \<lparr>m_buf_read = m1, m_read_buf_offset = 0, m_input_index = idx0, m_read_buf = buf1\<rparr>,
                 input1))"

definition reset_input_status :: "codec \<Rightarrow> codec" where
  "reset_input_status s = s\<lparr>m_buf_read := 0, m_read_buf_offset := 0, m_input_index := 0\<rparr>"

text \<open>Reading frame after frame, as the player does.\<close>

fun read_frames ::
  "(nat \<Rightarrow> bool) \<Rightarrow> byte list \<Rightarrow> nat \<Rightarrow> codec \<Rightarrow> byte list \<Rightarrow> byte list option list \<times> codec \<times> byte list" where
  "read_frames mem_ok past 0 s input = ([], s, input)"
| "read_frames mem_ok past (Suc k) s input =
     (let (d, s1, r1) = read_frame mem_ok past s input; (ds, s2, r2) = read_frames mem_ok past k s1 r1
      in (d # ds, s2, r2))"

section \<open>What is left to read\<close>

definition marker_at :: "byte \<Rightarrow> byte list \<Rightarrow> nat \<Rightarrow> bool" where
  "marker_at tag xs k \<longleftrightarrow> Suc k < length xs \<and> xs ! k = 0xFF \<and> xs ! Suc k = tag"

text \<open>The bytes of the file not yet handed out: those in the buffer, then those not yet read.\<close>

definition pending :: "cursor \<Rightarrow> byte list" where
  "pending c = take (avail c) (drop (base c) (buf c)) @ rest c"

text \<open>The buffer is full up to its end, unless the file has ended.\<close>

definition good :: "cursor \<Rightarrow> bool" where
  "good c \<longleftrightarrow> length (buf c) = READ_BUFFER_SIZE \<and> base c + avail c \<le> READ_BUFFER_SIZE \<and>
     (rest c = [] \<or> base c + avail c = READ_BUFFER_SIZE)"

lemma readBytes_length: "readBytes b o1 n inp = (b', k, inp') \<Longrightarrow> o1 + n \<le> length b \<Longrightarrow> length b' = length b"
  by (auto simp: readBytes_def Let_def)

lemma take_bytes_simps:
  assumes "good c" "i \<le> avail c"
  defines "left \<equiv> avail c - i"
  defines "k \<equiv> min (READ_BUFFER_SIZE - left) (length (rest c))"
  shows "base (take_bytes past i c) = 0" "pos (take_bytes past i c) = 0"
    and "avail (take_bytes past i c) = k + left"
    and "rest (take_bytes past i c) = drop k (rest c)"
    and "idx (take_bytes past i c) = idx c + of_nat k"
    and "frame (take_bytes past i c) = frame c @ take i (drop (base c) (buf c))"
    and "take (k + left) (buf (take_bytes past i c)) =
      take left (drop (base c + i) (buf c)) @ take k (rest c)"
    and "length (buf (take_bytes past i c)) = READ_BUFFER_SIZE"
proof -
  have len: "length (buf c) = 1024" "base c + avail c \<le> 1024" using assms(1) by (auto simp: good_def)
  show "base (take_bytes past i c) = 0" "pos (take_bytes past i c) = 0"
    "avail (take_bytes past i c) = k + left" "rest (take_bytes past i c) = drop k (rest c)"
    "idx (take_bytes past i c) = idx c + of_nat k"
    by (simp_all add: take_bytes_def readBytes_def Let_def left_def k_def)
  have "i \<le> length (buf c) - base c" using len assms(2) by simp
  then show "frame (take_bytes past i c) = frame c @ take i (drop (base c) (buf c))"
    using len by (simp add: take_bytes_def readBytes_def Let_def)
  define moved where
    "moved = (if i < avail c then take left (drop (base c + i) (buf c)) @ drop left (buf c) else buf c)"
  have left: "left \<le> 1024" "left \<le> length (drop (base c + i) (buf c))"
    using len assms(2) by (simp_all add: left_def)
  then have lm: "length moved = 1024" using len by (simp add: moved_def)
  have tm: "take left moved = take left (drop (base c + i) (buf c))"
    using left by (auto simp: moved_def left_def)
  have k: "k + left \<le> 1024" "k \<le> length (rest c)" using left(1) by (simp_all add: k_def)
  have b: "buf (take_bytes past i c) = take left moved @ take k (rest c) @ drop (left + k) moved"
    by (simp add: take_bytes_def readBytes_def Let_def left_def k_def moved_def)
  have lt: "length (take left moved) = left" "length (take k (rest c)) = k" using left k lm by simp_all
  show "take (k + left) (buf (take_bytes past i c)) = take left (drop (base c + i) (buf c)) @ take k (rest c)"
    unfolding b tm [symmetric] using lt by (simp del: length_take)
  show "length (buf (take_bytes past i c)) = READ_BUFFER_SIZE"
    unfolding b using lt k lm by (simp del: length_take)
qed

lemma take_bytes_good:
  assumes "good c" "i \<le> avail c"
  shows "good (take_bytes past i c)" "base (take_bytes past i c) = 0" "pos (take_bytes past i c) = 0"
    and "pending (take_bytes past i c) = drop i (pending c)"
    and "frame (take_bytes past i c) = frame c @ take i (pending c)"
    and "idx (take_bytes past i c) = idx c + of_nat (length (rest c) - length (rest (take_bytes past i c)))"
    and "avail (take_bytes past i c) = 0 \<Longrightarrow> pending (take_bytes past i c) = []"
proof -
  note ts = take_bytes_simps [OF assms, of past]
  let ?left = "avail c - i"
  let ?k = "min (READ_BUFFER_SIZE - ?left) (length (rest c))"
  have len: "length (buf c) = 1024" "base c + avail c \<le> 1024" using assms(1) by (auto simp: good_def)
  have p: "pending c = take i (drop (base c) (buf c)) @ take ?left (drop (base c + i) (buf c)) @ rest c"
  proof -
    have "take (avail c) (drop (base c) (buf c)) =
      take i (drop (base c) (buf c)) @ take ?left (drop i (drop (base c) (buf c)))"
      using assms(2) take_add [of i ?left "drop (base c) (buf c)"] by simp
    then show ?thesis by (simp add: pending_def add.commute)
  qed
  have li: "length (take i (drop (base c) (buf c))) = i" using len assms(2) by simp
  show "base (take_bytes past i c) = 0" "pos (take_bytes past i c) = 0" by (simp_all only: ts)
  show pend: "pending (take_bytes past i c) = drop i (pending c)"
    unfolding pending_def ts drop_0 using p li by (simp add: pending_def)
  show "good (take_bytes past i c)"
    unfolding good_def ts using len by auto
  show "frame (take_bytes past i c) = frame c @ take i (pending c)"
    unfolding ts p using li by simp
  show "idx (take_bytes past i c) = idx c + of_nat (length (rest c) - length (rest (take_bytes past i c)))"
    unfolding ts by simp
  show "avail (take_bytes past i c) = 0 \<Longrightarrow> pending (take_bytes past i c) = []"
    using ts(3,4) by (auto simp: pending_def)
qed

lemma mem_pending:
  assumes "good c" "k < avail c"
  shows "(buf c @ past) ! (base c + k) = pending c ! k"
  using assms by (auto simp: good_def pending_def nth_append)

lemma mem_past:
  assumes "good c" "base c + avail c = READ_BUFFER_SIZE" "past \<noteq> []"
  shows "(buf c @ past) ! (base c + avail c) = hd past"
  using assms by (simp add: good_def nth_append hd_conv_nth)

section \<open>Cutting out one frame\<close>

lemma find_upt_Some:
  "i \<le> k \<Longrightarrow> k < n \<Longrightarrow> P k \<Longrightarrow> (\<And>j. i \<le> j \<Longrightarrow> j < k \<Longrightarrow> \<not> P j) \<Longrightarrow> find P [i..<n] = Some k"
  by (auto simp: find_Some_iff intro!: exI [of _ "k - i"])

lemma find_upt_None: "(\<And>j. i \<le> j \<Longrightarrow> j < n \<Longrightarrow> \<not> P j) \<Longrightarrow> find P [i..<n] = None"
  by (auto simp: find_None_iff)

text \<open>\<open>ends_frame xs\<close>: the first trailer of \<open>xs\<close> from position 3 on ends it.\<close>

definition ends_frame :: "byte list \<Rightarrow> bool" where
  "ends_frame xs \<longleftrightarrow> 5 \<le> length xs \<and> marker_at 0xD9 xs (length xs - 2) \<and>
     list_all (\<lambda>k. \<not> marker_at 0xD9 xs k) [3..<length xs - 2]"

lemma ends_frame_first: "ends_frame xs \<Longrightarrow> 3 \<le> k \<Longrightarrow> k < length xs - 2 \<Longrightarrow> \<not> marker_at 0xD9 xs k"
  by (simp add: ends_frame_def list_all_iff)

lemma ends_frame_last:
  "ends_frame xs \<Longrightarrow> xs ! (length xs - 2) = 0xFF \<and> xs ! (length xs - 1) = 0xD9"
  by (auto simp: ends_frame_def marker_at_def Suc_diff_Suc numeral_2_eq_2)

text \<open>Where a run of the loop stands: \<open>f\<close> is the part of the frame that is still pending.\<close>

definition in_frame :: "cursor \<Rightarrow> byte list \<Rightarrow> byte list \<Rightarrow> bool" where
  "in_frame c f r \<longleftrightarrow> good c \<and> pending c = f @ r \<and> f \<noteq> [] \<and> 0 < avail c \<and> ends_frame (frame c @ f) \<and>
     (frame c = [] \<and> pos c = 3 \<and> 4 \<le> avail c \<or> pos c = 0 \<and> base c = 0 \<and> 4 \<le> length (frame c))"

lemma in_frame_pos: "in_frame c f r \<Longrightarrow> pos c \<le> k \<Longrightarrow> 3 \<le> length (frame c) + k"
  by (auto simp: in_frame_def)

lemma in_frame_not_marker:
  assumes "in_frame c f r" "pos c \<le> k" "k < length f - 2"
  shows "\<not> (f ! k = 0xFF \<and> f ! Suc k = 0xD9)"
proof -
  have "\<not> marker_at 0xD9 (frame c @ f) (length (frame c) + k)"
    using assms in_frame_pos [OF assms(1,2)]
    by (intro ends_frame_first) (auto simp: in_frame_def)
  then show ?thesis using assms(3) by (auto simp: marker_at_def nth_append)
qed

lemma avail_le_pending: "good c \<Longrightarrow> avail c \<le> length (pending c)"
  by (auto simp: good_def pending_def)

lemma avail_full: "good c \<Longrightarrow> avail c < length (pending c) \<Longrightarrow> base c + avail c = READ_BUFFER_SIZE"
  by (auto simp: good_def pending_def)

text \<open>The three outcomes of a search for the trailer.\<close>

lemma trailer_split:
  assumes "in_frame c f r" "frame c \<noteq> []" "last (frame c) = 0xFF" "f ! 0 = 0xD9"
  shows "length f = 1" "find_trailer past c = (True, 0)"
proof -
  let ?k = "length (frame c) - 1"
  have nn: "4 \<le> length (frame c)" "f \<noteq> []" "0 < avail c" "good c" "pos c = 0" "base c = 0"
    using assms(1,2) by (auto simp: in_frame_def)
  have "(frame c @ f) ! ?k = 0xFF" using assms(2,3) by (simp add: nth_append last_conv_nth)
  moreover have "(frame c @ f) ! Suc ?k = 0xD9" using assms(2,4) by (simp add: nth_append)
  moreover have "Suc ?k < length (frame c @ f)" using nn by (cases f) auto
  ultimately have "marker_at 0xD9 (frame c @ f) ?k" by (simp only: marker_at_def)
  moreover have "3 \<le> ?k" "ends_frame (frame c @ f)" using assms(1) nn by (simp_all add: in_frame_def)
  ultimately have "\<not> ?k < length (frame c @ f) - 2" using ends_frame_first by blast
  then have "length f \<le> 1" using nn(1) by simp
  moreover have "0 < length f" using nn(2) by simp
  ultimately show "length f = 1" by linarith
  have "(buf c @ past) ! base c = pending c ! 0" using mem_pending [of c 0 past] nn by simp
  with assms nn show "find_trailer past c = (True, 0)"
    by (simp add: find_trailer_def Let_def in_frame_def nth_append)
qed

lemma trailer_inside:
  assumes "in_frame c f r" "\<not> (frame c \<noteq> [] \<and> last (frame c) = 0xFF \<and> f ! 0 = 0xD9)"
    and "length f \<le> avail c"
  shows "find_trailer past c = (True, length f)" "2 \<le> length f"
proof -
  have g: "good c" and pend: "pending c = f @ r" using assms(1) by (auto simp: in_frame_def)
  have ef: "ends_frame (frame c @ f)" "f \<noteq> []" "0 < avail c" using assms(1) by (auto simp: in_frame_def)
  have long: "pos c + 2 \<le> length f"
  proof (cases "frame c = []")
    case True
    then show ?thesis using assms(1) by (auto simp: in_frame_def ends_frame_def)
  next
    case False
    then have "pos c = 0" using assms(1) by (auto simp: in_frame_def)
    moreover have "length f \<noteq> 1"
    proof
      assume "length f = 1"
      then obtain x where "f = [x]" by (cases f) auto
      with ends_frame_last [OF ef(1)] False assms(2) show False
        by (auto simp: nth_append last_conv_nth)
    qed
    ultimately show ?thesis using ef(2) by (cases f) (auto simp: Suc_le_eq)
  qed
  have ends: "f ! (length f - 2) = 0xFF" "f ! (length f - 1) = 0xD9"
  proof -
    have "length (frame c @ f) - 2 = length (frame c) + (length f - 2)"
      "length (frame c @ f) - 1 = length (frame c) + (length f - 1)" using long by simp_all
    with ends_frame_last [OF ef(1)] show "f ! (length f - 2) = 0xFF" "f ! (length f - 1) = 0xD9"
      by (simp_all only: nth_append_length_plus)
  qed
  have mem: "(buf c @ past) ! (base c + k) = f ! k" if "k < length f" for k
    using mem_pending [OF g, of k past] that assms(3) pend by (simp add: nth_append)
  have b0: "(buf c @ past) ! base c = f ! 0" using mem [of 0] ef(2) by simp
  have "find_marker 0xD9 (buf c @ past) (base c) (pos c) (avail c) = Some (length f - 2)"
    unfolding find_marker_def
  proof (rule find_upt_Some)
    show "(buf c @ past) ! (base c + (length f - 2)) = 0xFF \<and>
      (buf c @ past) ! (base c + (length f - 2) + 1) = 0xD9"
      using mem [of "length f - 2"] mem [of "length f - 1"] ends long
      by (simp add: add.assoc Suc_diff_Suc numeral_2_eq_2)
    show "\<not> ((buf c @ past) ! (base c + j) = 0xFF \<and> (buf c @ past) ! (base c + j + 1) = 0xD9)"
      if "pos c \<le> j" "j < length f - 2" for j
      using in_frame_not_marker [OF assms(1) that] mem [of j] mem [of "Suc j"] that(2) by simp
  qed (use long assms(3) in auto)
  then show "find_trailer past c = (True, length f)"
    using assms(2) b0 long by (auto simp: find_trailer_def Let_def)
  show "2 \<le> length f" using long by simp
qed

lemma trailer_later:
  assumes "in_frame c f r" "\<not> (frame c \<noteq> [] \<and> last (frame c) = 0xFF \<and> f ! 0 = 0xD9)"
    and "avail c < length f" "past \<noteq> []" "hd past \<noteq> 0xD9"
  shows "find_trailer past c = (False, avail c)"
proof -
  have g: "good c" and pend: "pending c = f @ r" using assms(1) by (auto simp: in_frame_def)
  have full: "base c + avail c = READ_BUFFER_SIZE" using avail_full [OF g] assms(3) pend by simp
  have mem: "(buf c @ past) ! (base c + k) = f ! k" if "k < avail c" for k
    using mem_pending [OF g that, of past] that assms(3) pend by (simp add: nth_append)
  have b0: "(buf c @ past) ! base c = f ! 0" using mem [of 0] assms(1) by (simp add: in_frame_def)
  have no: "\<not> ((buf c @ past) ! (base c + j) = 0xFF \<and> (buf c @ past) ! (base c + j + 1) = 0xD9)"
    if "pos c \<le> j" "j < avail c" for j
  proof (cases "Suc j = avail c")
    case True
    then have "base c + j + 1 = base c + avail c" by simp
    then show ?thesis using mem_past [OF g full assms(4)] assms(5) by metis
  next
    case False
    then have "Suc j < avail c" using that by simp
    moreover have "j < length f - 2" using False that assms(3) by simp
    ultimately show ?thesis
      using in_frame_not_marker [OF assms(1) that(1)] mem [of j] mem [of "Suc j"] that by auto
  qed
  have "pos c \<le> avail c" using assms(1) by (auto simp: in_frame_def)
  with find_upt_None [OF no] show ?thesis
    using assms(2) b0 by (auto simp: find_trailer_def find_marker_def Let_def max_def)
qed

lemma take_bytes_rest_le: "good c \<Longrightarrow> i \<le> avail c \<Longrightarrow> length (rest (take_bytes past i c)) \<le> length (rest c)"
  by (simp add: take_bytes_simps)

lemma in_frame_later:
  assumes "in_frame c f r" "avail c < length f"
  shows "in_frame (take_bytes past (avail c) c) (drop (avail c) f) r"
proof -
  have g: "good c" "pending c = f @ r" using assms(1) by (auto simp: in_frame_def)
  note tg = take_bytes_good [OF g(1) order_refl, of past]
  have "pending (take_bytes past (avail c) c) = drop (avail c) f @ r" using tg(4) g assms(2) by simp
  moreover have "frame (take_bytes past (avail c) c) = frame c @ take (avail c) f"
    using tg(5) g assms(2) by simp
  moreover have "4 \<le> length (frame c @ take (avail c) f)" using assms by (auto simp: in_frame_def)
  ultimately show ?thesis
    using assms tg(1-3,7) by (auto simp: in_frame_def)
qed

text \<open>The loop returns the frame it stands in; when the last byte of the frame is the first byte of a
  piece of the stream, that byte stays behind.\<close>

lemma copy_frame_cuts:
  assumes "\<And>n. mem_ok n" "past \<noteq> []" "hd past \<noteq> 0xD9" "in_frame c f r"
  shows "\<exists>c'. copy_frame mem_ok past c = Found c' \<and> good c' \<and> base c' = 0 \<and>
    (if (base c + length f - 1) mod READ_BUFFER_SIZE = 0
     then frame c' = butlast (frame c @ f) \<and> pending c' = 0xD9 # r
     else frame c' = frame c @ f \<and> pending c' = r) \<and>
    idx c' = idx c + of_nat (length (rest c) - length (rest c')) \<and> length (rest c') \<le> length (rest c)"
  using assms(4)
proof (induction "length f" arbitrary: c f rule: less_induct)
  case less
  have g: "good c" and pend: "pending c = f @ r" using less.prems by (auto simp: in_frame_def)
  show ?case
  proof (cases "frame c \<noteq> [] \<and> last (frame c) = 0xFF \<and> f ! 0 = 0xD9")
    case True
    then have "length f = 1" and found: "find_trailer past c = (True, 0)"
      using trailer_split [OF less.prems] by blast+
    then have f: "f = [0xD9]" using True by (cases f) auto
    have b: "base c = 0" using less.prems True by (auto simp: in_frame_def)
    from found take_bytes_good [OF g, of 0 past] take_bytes_rest_le [OF g, of 0 past] pend f b show ?thesis
      by (subst copy_frame.simps) (simp add: assms(1))
  next
    case no: False
    show ?thesis
    proof (cases "length f \<le> avail c")
      case True
      have "0 < base c + length f - 1" "base c + length f - 1 < 1024"
        using True trailer_inside(2) [OF less.prems no True] g by (auto simp: good_def)
      with trailer_inside(1) [OF less.prems no True] take_bytes_good [OF g True, of past]
        take_bytes_rest_le [OF g True, of past] pend
      show ?thesis by (subst copy_frame.simps) (simp add: assms(1))
    next
      case False
      then have lt: "avail c < length f" by simp
      let ?c1 = "take_bytes past (avail c) c"
      have in1: "in_frame ?c1 (drop (avail c) f) r" by (rule in_frame_later [OF less.prems lt])
      have "0 < avail c" using less.prems by (simp add: in_frame_def)
      then have "length (drop (avail c) f) < length f" using lt by simp
      from less.hyps [OF this in1] obtain c' where c': "copy_frame mem_ok past ?c1 = Found c'"
        "good c'" "base c' = 0"
        "if (base ?c1 + length (drop (avail c) f) - 1) mod READ_BUFFER_SIZE = 0
         then frame c' = butlast (frame ?c1 @ drop (avail c) f) \<and> pending c' = 0xD9 # r
         else frame c' = frame ?c1 @ drop (avail c) f \<and> pending c' = r"
        "idx c' = idx ?c1 + of_nat (length (rest ?c1) - length (rest c'))"
        "length (rest c') \<le> length (rest ?c1)" by blast
      note tg = take_bytes_good [OF g order_refl, of past]
      have rle: "length (rest ?c1) \<le> length (rest c)" by (rule take_bytes_rest_le [OF g order_refl])
      have fr: "frame ?c1 @ drop (avail c) f = frame c @ f" using tg(5) pend lt by simp
      have "base c + length f - 1 = 1024 + (length (drop (avail c) f) - 1)"
        using avail_full [OF g] lt pend by simp
      then have md: "(base ?c1 + length (drop (avail c) f) - 1) mod READ_BUFFER_SIZE =
        (base c + length f - 1) mod READ_BUFFER_SIZE"
        using tg(2) by simp
      have ix: "idx c' = idx c + of_nat (length (rest c) - length (rest c'))"
        using c'(5,6) tg(6) rle by (simp flip: of_nat_add)
      have "avail ?c1 \<noteq> 0" using in1 by (simp add: in_frame_def)
      with trailer_later [OF less.prems no lt assms(2,3)] c'(1)
      have "copy_frame mem_ok past c = Found c'"
        by (subst copy_frame.simps) (simp add: assms(1))
      with c' md fr ix rle show ?thesis by (intro exI [of _ c']) (auto simp: fr)
    qed
  qed
qed

section \<open>Reading a whole file\<close>

text \<open>\<open>ready N s input stream\<close>: of a file of \<open>N\<close> bytes, \<open>stream\<close> is still to be handed out, its first
  part in the buffer and the rest, \<open>input\<close>, not yet read.\<close>

definition ready :: "nat \<Rightarrow> codec \<Rightarrow> byte list \<Rightarrow> byte list \<Rightarrow> bool" where
  "ready N s input stream \<longleftrightarrow>
     length (m_read_buf s) = READ_BUFFER_SIZE \<and>
     unat (m_input_index s) + length input = N \<and> N < 2 ^ 32 \<and>
     (if m_input_index s = 0 then stream = input
      else 0 \<le> m_buf_read s \<and> m_buf_read s \<le> int READ_BUFFER_SIZE \<and>
        (input = [] \<or> m_buf_read s = int READ_BUFFER_SIZE) \<and>
        stream = take (nat (m_buf_read s)) (m_read_buf s) @ input)"

text \<open>The buffer at the start of a search, filled when the file is new.\<close>

definition filled :: "codec \<Rightarrow> byte list \<Rightarrow> byte list \<times> int \<times> uint32 \<times> byte list" where
  "filled s input =
     (if m_input_index s = 0
      then let (b, k, r) = readBytes (m_read_buf s) 0 READ_BUFFER_SIZE input in (b, int k, of_nat k, r)
      else (m_read_buf s, m_buf_read s, m_input_index s, input))"

lemma ready_filled:
  assumes "ready N s input stream" "stream \<noteq> []"
  obtains b n i r where "filled s input = (b, int n, i, r)" "length b = READ_BUFFER_SIZE"
    "n \<le> READ_BUFFER_SIZE" "r = [] \<or> n = READ_BUFFER_SIZE" "stream = take n b @ r"
    "unat i + length r = N" "i \<noteq> 0"
proof (cases "m_input_index s = 0")
  case False
  with assms(1) show ?thesis
    by (intro that [of "m_read_buf s" "nat (m_buf_read s)" "m_input_index s" input])
      (auto simp: ready_def filled_def)
next
  case True
  let ?k = "min READ_BUFFER_SIZE (length input)"
  let ?b = "take ?k input @ drop ?k (m_read_buf s)"
  have st: "stream = input" "length input = N" "N < 2 ^ 32" "length (m_read_buf s) = 1024"
    using assms(1) True by (simp_all add: ready_def)
  have k: "?k < 2 ^ 32" "0 < ?k" using st assms(2) by auto
  then have u: "unat (of_nat ?k :: uint32) = ?k" by (intro unat_of_nat_32)
  then have nz: "(of_nat ?k :: uint32) \<noteq> 0" using k(2) by (metis less_numeral_extra(3) unsigned_0)
  have f: "filled s input = (?b, int ?k, of_nat ?k, drop ?k input)"
    using True by (simp add: filled_def readBytes_def Let_def)
  show ?thesis
  proof (rule that [OF f])
    show "stream = take ?k ?b @ drop ?k input" using st by simp
    show "unat (of_nat ?k :: uint32) + length (drop ?k input) = N" unfolding u using st by simp
  qed (use st nz in auto)
qed

definition wf_frame :: "byte list \<Rightarrow> bool" where
  "wf_frame F \<longleftrightarrow> marker_at 0xD8 F 0 \<and> ends_frame F"

lemma seek_header_found:
  assumes "length b = READ_BUFFER_SIZE" "n \<le> READ_BUFFER_SIZE" "take n b @ r = stream"
    and "Suc j < n" "marker_at 0xD8 stream j" "\<And>k. k < j \<Longrightarrow> \<not> marker_at 0xD8 stream k"
  shows "seek_header past b n i r = (b, n, j, r)"
proof -
  have mem: "(b @ past) ! k = stream ! k" if "k < n" for k
    using that assms(1,2) by (auto simp: nth_append simp flip: assms(3))
  have len: "n \<le> length stream" using assms(1,2) by (auto simp flip: assms(3))
  have "find_marker 0xD8 (b @ past) 0 0 n = Some j"
    unfolding find_marker_def
  proof (rule find_upt_Some)
    show "(b @ past) ! (0 + j) = 0xFF \<and> (b @ past) ! (0 + j + 1) = 0xD8"
      using assms(4,5) mem [of j] mem [of "Suc j"] by (simp add: marker_at_def)
    show "\<not> ((b @ past) ! (0 + k) = 0xFF \<and> (b @ past) ! (0 + k + 1) = 0xD8)" if "k < j" for k
      using assms(6) [OF that] assms(4) mem [of k] mem [of "Suc k"] len that by (simp add: marker_at_def)
  qed (use assms(4) in auto)
  then show ?thesis using assms(4) by (subst seek_header.simps) simp
qed

lemma read_frame_filled:
  assumes "mem_ok MJPEG_DECODER_BUF_SIZE" "filled s input = (b, int n, i, r)" "0 < n"
    and "seek_header past b n 0 r = (b, n, j, r)" "j < n"
    and "copy_frame mem_ok past \<lparr>base = j, avail = n - j, pos = 3, frame = [],
      cap = MJPEG_DECODER_BUF_SIZE, idx = i, buf = b, rest = r\<rparr> = Found c"
  shows "read_frame mem_ok past s input = (Some (frame c), codec_of c, rest c)"
  using assms
  by (auto simp: read_frame_def filled_def [symmetric] Let_def nat_diff_distrib simp del: of_nat_diff
      simp flip: of_nat_diff)

lemma ready_codec_of:
  assumes "good c" "base c = 0" "unat (idx c) + length (rest c) = N" "N < 2 ^ 32" "idx c \<noteq> 0"
  shows "ready N (codec_of c) (rest c) (pending c)"
  using assms by (auto simp: ready_def codec_of_def good_def pending_def)

lemma idx_counts:
  assumes "unat (i :: uint32) + length r = N" "N < 2 ^ 32" "length r' \<le> length r" "i \<noteq> 0"
  shows "unat (i + of_nat (length r - length r')) + length r' = N"
    "i + of_nat (length r - length r') \<noteq> 0"
proof -
  have u: "unat (of_nat (length r - length r') :: uint32) = length r - length r'"
    using assms(1,2) by (intro unat_of_nat_32) simp
  then have s: "unat (i + of_nat (length r - length r')) = unat i + (length r - length r')"
    using assms(1,2) unat_plus_exact [of i "of_nat (length r - length r')"] by simp
  then show "unat (i + of_nat (length r - length r')) + length r' = N" using assms(1,3) by simp
  have "unat i \<noteq> 0" using assms(4) by (simp add: unat_eq_0)
  with s show "i + of_nat (length r - length r') \<noteq> 0" by (metis add_is_0 unsigned_0)
qed

lemma read_frame_cuts:
  assumes "\<And>n. mem_ok n" "past \<noteq> []" "hd past \<noteq> 0xD9"
    and "ready N s input (junk @ F @ r)" "wf_frame F" "length junk \<le> 1000"
    and "\<And>k. k < length junk \<Longrightarrow> \<not> marker_at 0xD8 (junk @ F @ r) k"
  shows "\<exists>d s' input'. read_frame mem_ok past s input = (Some d, s', input') \<and>
    m_read_buf_offset s' = length d \<and>
    (if (length junk + length F - 1) mod READ_BUFFER_SIZE = 0
     then d = butlast F \<and> ready N s' input' (0xD9 # r) else d = F \<and> ready N s' input' r)"
proof -
  let ?j = "length junk"
  have lF: "5 \<le> length F" using assms(5) by (simp add: wf_frame_def ends_frame_def)
  then have "junk @ F @ r \<noteq> []" by auto
  from ready_filled [OF assms(4) this] obtain b n i r0 where
    fl: "filled s input = (b, int n, i, r0)" and len: "length b = READ_BUFFER_SIZE" "n \<le> READ_BUFFER_SIZE"
    and eof: "r0 = [] \<or> n = READ_BUFFER_SIZE" and st: "junk @ F @ r = take n b @ r0"
    and ix: "unat i + length r0 = N" "i \<noteq> 0" .
  have "?j + 5 \<le> n"
  proof (cases "n = READ_BUFFER_SIZE")
    case False
    with eof st len have "length (junk @ F @ r) = n" by simp
    then show ?thesis using lF by simp
  qed (use assms(6) in simp)
  then have jn: "?j < n" "Suc ?j < n" "4 \<le> n - ?j" "0 < n" by simp_all
  have "marker_at 0xD8 (junk @ F @ r) ?j"
    using assms(5) by (auto simp: wf_frame_def marker_at_def nth_append)
  from seek_header_found [OF len st [symmetric] jn(2) this assms(7), of past 0]
  have seek: "seek_header past b n 0 r0 = (b, n, ?j, r0)" by simp
  let ?c = "\<lparr>base = ?j, avail = n - ?j, pos = 3, frame = [], cap = MJPEG_DECODER_BUF_SIZE,
    idx = i, buf = b, rest = r0\<rparr>"
  have "take (n - ?j) (drop ?j b) = drop ?j (take n b)" by (simp add: drop_take)
  moreover have "drop ?j (take n b) @ r0 = drop ?j (take n b @ r0)" using jn(1) len by simp
  moreover have "drop ?j (junk @ F @ r) = F @ r" by simp
  ultimately have pend: "pending ?c = F @ r" by (simp add: pending_def st)
  have "in_frame ?c F r"
    using pend len eof jn lF assms(5) by (auto simp: in_frame_def good_def wf_frame_def)
  from copy_frame_cuts [of mem_ok past ?c F r, OF assms(1-3) this] obtain c' where
    c': "copy_frame mem_ok past ?c = Found c'" "good c'" "base c' = 0"
      "if (?j + length F - 1) mod READ_BUFFER_SIZE = 0
       then frame c' = butlast F \<and> pending c' = 0xD9 # r else frame c' = F \<and> pending c' = r"
      "idx c' = i + of_nat (length r0 - length (rest c'))" "length (rest c') \<le> length r0"
    by auto
  have N: "N < 2 ^ 32" using assms(4) by (simp add: ready_def)
  have "ready N (codec_of c') (rest c') (pending c')"
    using idx_counts [OF ix(1) N c'(6) ix(2)] c'(2,3,5) N by (intro ready_codec_of) simp_all
  moreover have "read_frame mem_ok past s input = (Some (frame c'), codec_of c', rest c')"
    by (rule read_frame_filled [OF assms(1) fl jn(4) seek jn(1) c'(1)])
  moreover have "m_read_buf_offset (codec_of c') = length (frame c')" by (simp add: codec_of_def)
  ultimately show ?thesis using c'(4) by (cases "(?j + length F - 1) mod READ_BUFFER_SIZE = 0") auto
qed

text \<open>What the player gets of the frames of a file: \<open>j\<close> is 1 when a byte of the frame before is left
  over, and a frame whose last byte is the first of a piece loses it.\<close>

fun cut_frames :: "nat \<Rightarrow> byte list list \<Rightarrow> byte list list" where
  "cut_frames j [] = []"
| "cut_frames j (F # Fs) =
     (if (j + length F - 1) mod READ_BUFFER_SIZE = 0 then butlast F # cut_frames 1 Fs
      else F # cut_frames 0 Fs)"

lemma read_frames_file:
  assumes "\<And>n. mem_ok n" "past \<noteq> []" "hd past \<noteq> 0xD9"
    and "list_all wf_frame Fs" "ready N s input (junk @ concat Fs)" "junk = [] \<or> junk = [0xD9]"
  shows "\<exists>s' r junk'. read_frames mem_ok past (length Fs) s input =
      (map Some (cut_frames (length junk) Fs), s', r) \<and>
    ready N s' r junk' \<and> (junk' = [] \<or> junk' = [0xD9])"
  using assms(4-6)
proof (induction Fs arbitrary: s input junk)
  case Nil
  then show ?case by auto
next
  case (Cons F Fs)
  have "\<not> marker_at 0xD8 (junk @ F @ concat Fs) k" if "k < length junk" for k
    using Cons.prems(3) that by (auto simp: marker_at_def)
  moreover have "length junk \<le> 1000" using Cons.prems(3) by auto
  ultimately obtain d s1 i1 where rf: "read_frame mem_ok past s input = (Some d, s1, i1)"
    "if (length junk + length F - 1) mod READ_BUFFER_SIZE = 0
     then d = butlast F \<and> ready N s1 i1 (0xD9 # concat Fs) else d = F \<and> ready N s1 i1 (concat Fs)"
    using read_frame_cuts [of mem_ok past N s input junk F "concat Fs", OF assms(1-3)] Cons.prems
    by (simp only: concat.simps list.pred_inject) blast
  show ?case
  proof (cases "(length junk + length F - 1) mod READ_BUFFER_SIZE = 0")
    case True
    with rf(2) have "ready N s1 i1 ([0xD9] @ concat Fs)" by simp
    from Cons.IH [OF _ this] Cons.prems(1) True rf show ?thesis by auto
  next
    case False
    with rf(2) have "ready N s1 i1 ([] @ concat Fs)" by simp
    from Cons.IH [OF _ this] Cons.prems(1) False rf show ?thesis by auto
  qed
qed

lemma read_frame_at_end:
  assumes "ready N s input junk" "junk = [] \<or> junk = [0xD9]" "1 < N" "past \<noteq> []"
  shows "fst (read_frame mem_ok past s input) = None"
proof (cases "mem_ok MJPEG_DECODER_BUF_SIZE")
  case True
  have nz: "m_input_index s \<noteq> 0"
    using assms(1-3) by (auto simp: ready_def)
  then have jk: "junk = take (nat (m_buf_read s)) (m_read_buf s) @ input" "0 \<le> m_buf_read s"
    "input = [] \<or> m_buf_read s = 1024" "length (m_read_buf s) = 1024" "m_buf_read s \<le> 1024"
    using assms(1) by (simp_all add: ready_def)
  have inp: "input = []" and l: "m_buf_read s = int (length junk)"
    using jk assms(2) by (auto dest: arg_cong [where f = length])
  show ?thesis
  proof (cases "junk = []")
    case True
    with l nz inp show ?thesis by (simp add: read_frame_def Let_def)
  next
    case False
    then have j: "junk = [0xD9]" using assms(2) by simp
    then have one: "m_buf_read s = 1" using l by simp
    then have "take 1 (m_read_buf s) = [0xD9]" using jk(1) unfolding j inp by simp
    then have hd: "m_read_buf s ! 0 = 0xD9" by (metis nth_Cons_0 nth_take zero_less_one)
    have "find_marker 0xD8 (m_read_buf s @ past) 0 0 1 = None"
      using hd jk(4) by (simp add: find_marker_def nth_append)
    then have "seek_header past (m_read_buf s) 1 0 [] = (m_read_buf s, 0, 1, [])"
      by (subst seek_header.simps) (simp add: readBytes_def)
    with one nz inp show ?thesis by (simp add: read_frame_def Let_def)
  qed
qed (simp add: read_frame_def)

lemma ready_init: "length file < 2 ^ 32 \<Longrightarrow> ready (length file) codec_init file file"
  by (simp add: ready_def codec_init_def)

text \<open>
  C18: Reading a video file yields its frames. For a file that is the concatenation of JPEG images
  (each beginning with the start marker, with its first end marker from position 3 on at its end),
  successive calls return exactly the images, in order and without gaps, except that an image
  whose last byte is the first byte of a 1024-byte piece is returned without that byte; after the
  last image the reader returns nothing. Every call terminates.\<close>

theorem mjpeg_file_frames:
  assumes "\<forall>n. mem_ok n" "past \<noteq> []" "hd past \<noteq> 0xD9"
    and "list_all wf_frame Fs" "Fs \<noteq> []" "length (concat Fs) < 2 ^ 32"
  shows "\<exists>s r. read_frames mem_ok past (length Fs) codec_init (concat Fs) =
      (map Some (cut_frames 0 Fs), s, r) \<and> fst (read_frame mem_ok past s r) = None"
proof -
  obtain F Gs where "Fs = F # Gs" using assms(5) by (cases Fs) auto
  then have N: "1 < length (concat Fs)" using assms(4) by (simp add: wf_frame_def ends_frame_def)
  have "ready (length (concat Fs)) codec_init (concat Fs) ([] @ concat Fs)"
    using ready_init [OF assms(6)] by simp
  from read_frames_file [of mem_ok, OF spec [OF assms(1)] assms(2,3,4) this] obtain s r junk where
    "read_frames mem_ok past (length Fs) codec_init (concat Fs) = (map Some (cut_frames 0 Fs), s, r)"
    "ready (length (concat Fs)) s r junk" "junk = [] \<or> junk = [0xD9]" by auto
  with read_frame_at_end [OF this(2,3) N assms(2)] show ?thesis by blast
qed

theorem mjpeg_file_frames_witness:
  "\<exists>s r. read_frames (\<lambda>_. True) [0] (Suc (Suc 0)) codec_init
      (concat [[0xFF, 0xD8, 0, 0xFF, 0xD9], [0xFF, 0xD8, 1, 2, 0xFF, 0xD9]]) =
      (map Some [[0xFF, 0xD8, 0, 0xFF, 0xD9], [0xFF, 0xD8, 1, 2, 0xFF, 0xD9]], s, r) \<and>
    fst (read_frame (\<lambda>_. True) [0] s r) = None"
proof -
  let ?Fs = "[[0xFF, 0xD8, 0, 0xFF, 0xD9], [0xFF, 0xD8, 1, 2, 0xFF, 0xD9]] :: byte list list"
  have "list_all wf_frame ?Fs" by code_simp
  then show ?thesis
    using mjpeg_file_frames [of "\<lambda>_. True" "[0]" ?Fs] by simp
qed

end
