(* ===== verification/Mjpeg_Player.thy ===== *)
theory Mjpeg_Player
  imports Mjpeg_Codec "HOL-Library.Multiset"
begin

text \<open>
  Playing a video: the decoding and drawing tasks of \<^verbatim>\<open>ivy/anim/video/MjpegCodec.cpp\<close> and the player
  \<^verbatim>\<open>ivy/anim/MjpegDriver.cpp\<close> with its base class.

  The tasks run concurrently and hand over blocks of the heap through two queues. They are a step
  relation; the invariant says who owns each block, so that no block is freed twice and none is
  lost. The player is sequential: a call that waits for a mutex without end is the result \<open>None\<close>.
\<close>

section \<open>The decoding and drawing tasks\<close>

definition NUMBER_OF_DECODE_BUFFER :: nat where [simp]: "NUMBER_OF_DECODE_BUFFER = 3"
definition NUMBER_OF_DRAW_BUFFER :: nat where [simp]: "NUMBER_OF_DRAW_BUFFER = 5"

text \<open>Elements of the queues: a frame is a block; a picture is a structure and its pixels. Each queue
  may also hold the signal to stop.\<close>

datatype decode_buf_t = Frame nat | Decode_stop_sig

datatype jpeg_draw = Picture nat nat | Draw_stop_sig

text \<open>A task takes an element from its queue first and its mutex afterwards: \<open>taken\<close> and \<open>drawing\<close> are
  the elements taken before that. \<open>busy\<close> is the frame the decoding task works on while it holds its
  mutex. \<open>handed\<close> and \<open>freed\<close> record the blocks given to the pipeline and the blocks freed by it.\<close>

record pipeline =
  decode_q :: "decode_buf_t list"
  draw_q :: "jpeg_draw list"
  taken :: "decode_buf_t option"
  busy :: "nat option"
  drawing :: "jpeg_draw option"
  decode_task_stopped :: bool
  draw_task_stopped :: bool
  decode_task_finish_processing :: bool
  draw_task_finish_processing :: bool
  shown :: "nat list"
  handed :: "nat list"
  freed :: "nat list"

text \<open>The state after the constructor, once both tasks have begun to run.\<close>

definition pipeline_init :: pipeline where
  "pipeline_init =
     \<lparr>decode_q = [], draw_q = [], taken = None, busy = None, drawing = None, decode_task_stopped = False, draw_task_stopped = False,
      decode_task_finish_processing = False, draw_task_finish_processing = False, shown = [],
      handed = [], freed = []\<rparr>"

text \<open>Sending blocks while the queue is full; \<open>None\<close> stands for a call that has to wait.\<close>

definition decode_frame :: "nat \<Rightarrow> pipeline \<Rightarrow> pipeline option" where
  "decode_frame b s =
     (if length (decode_q s) < NUMBER_OF_DECODE_BUFFER
      then Some (s\<lparr>decode_q := decode_q s @ [Frame b], handed := handed s @ [b]\<rparr>) else None)"

definition decode_receive :: "pipeline \<Rightarrow> pipeline option" where
  "decode_receive s =
     (case (decode_task_stopped s, taken s, busy s, decode_q s) of
        (False, None, None, e # q) \<Rightarrow> Some (s\<lparr>decode_q := q, taken := Some e\<rparr>)
      | _ \<Rightarrow> None)"

text \<open>With the mutex the task begins to decode, or deletes its queue and ends.\<close>

definition decode_lock :: "pipeline \<Rightarrow> pipeline option" where
  "decode_lock s =
     (case taken s of
        None \<Rightarrow> None
      | Some (Frame b) \<Rightarrow> Some (s\<lparr>taken := None, busy := Some b, decode_task_finish_processing := False\<rparr>)
      | Some Decode_stop_sig \<Rightarrow>
          Some (s\<lparr>taken := None, decode_q := [], decode_task_finish_processing := False,
                  decode_task_stopped := True\<rparr>))"

text \<open>What the JPEG decoder does for one strip of the picture: two blocks are allocated and sent.\<close>

definition decode_emit :: "nat \<Rightarrow> nat \<Rightarrow> pipeline \<Rightarrow> pipeline option" where
  "decode_emit d px s =
     (if busy s \<noteq> None \<and> length (draw_q s) < NUMBER_OF_DRAW_BUFFER
      then Some (s\<lparr>draw_q := draw_q s @ [Picture d px], handed := handed s @ [d, px]\<rparr>) else None)"

definition decode_done :: "pipeline \<Rightarrow> pipeline option" where
  "decode_done s =
     (case busy s of None \<Rightarrow> None
      | Some b \<Rightarrow> Some (s\<lparr>busy := None, freed := freed s @ [b], decode_task_finish_processing := True\<rparr>))"

definition draw_receive :: "pipeline \<Rightarrow> pipeline option" where
  "draw_receive s =
     (case (draw_task_stopped s, drawing s, draw_q s) of
        (False, None, e # q) \<Rightarrow> Some (s\<lparr>draw_q := q, drawing := Some e\<rparr>)
      | _ \<Rightarrow> None)"

definition draw_one :: "pipeline \<Rightarrow> pipeline option" where
  "draw_one s =
     (case drawing s of
        None \<Rightarrow> None
      | Some (Picture d px) \<Rightarrow>
          Some (s\<lparr>drawing := None, shown := shown s @ [px], freed := freed s @ [px, d],
                  draw_task_finish_processing := True\<rparr>)
      | Some Draw_stop_sig \<Rightarrow>
          Some (s\<lparr>drawing := None, draw_q := [], draw_task_finish_processing := False,
                  draw_task_stopped := True\<rparr>))"

fun free_frames :: "decode_buf_t list \<Rightarrow> nat list" where
  "free_frames [] = []"
| "free_frames (Frame b # q) = b # free_frames q"
| "free_frames (Decode_stop_sig # q) = free_frames q"

fun free_pictures :: "jpeg_draw list \<Rightarrow> nat list" where
  "free_pictures [] = []"
| "free_pictures (Picture d px # q) = px # d # free_pictures q"
| "free_pictures (Draw_stop_sig # q) = free_pictures q"

text \<open>\<^verbatim>\<open>stop\<close> takes both mutexes, so it waits while a frame is being decoded.\<close>

definition codec_stop :: "pipeline \<Rightarrow> pipeline option" where
  "codec_stop s =
     (if busy s \<noteq> None then None
      else Some (s\<lparr>decode_q := [], draw_q := [],
                   freed := freed s @ free_frames (decode_q s) @ free_pictures (draw_q s)\<rparr>))"

definition wait_processing :: "pipeline \<Rightarrow> bool" where
  "wait_processing s \<longleftrightarrow> draw_task_finish_processing s \<and> decode_task_finish_processing s"

definition codec_running :: "pipeline \<Rightarrow> bool" where
  "codec_running s \<longleftrightarrow> \<not> (draw_task_stopped s \<and> decode_task_stopped s)"

text \<open>\<^verbatim>\<open>exit\<close>: after \<^verbatim>\<open>stop\<close>, the two signals are sent, the second one once the decoding task has
  stopped.\<close>

definition exit_decode :: "pipeline \<Rightarrow> pipeline option" where
  "exit_decode s =
     (case codec_stop s of None \<Rightarrow> None | Some s1 \<Rightarrow> Some (s1\<lparr>decode_q := [Decode_stop_sig]\<rparr>))"

definition exit_draw :: "pipeline \<Rightarrow> pipeline option" where
  "exit_draw s =
     (if decode_task_stopped s \<and> length (draw_q s) < NUMBER_OF_DRAW_BUFFER
      then Some (s\<lparr>draw_q := draw_q s @ [Draw_stop_sig]\<rparr>) else None)"

text \<open>One step of the whole: any task, or the player, gets to run. Allocated blocks are new. The player
  sends each stop signal once, and after the first one it neither sends frames nor stops again.\<close>

definition open_for_player :: "pipeline \<Rightarrow> bool" where
  "open_for_player s \<longleftrightarrow>
     \<not> decode_task_stopped s \<and> Decode_stop_sig \<notin> set (decode_q s) \<and> taken s \<noteq> Some Decode_stop_sig"

definition draw_open :: "pipeline \<Rightarrow> bool" where
  "draw_open s \<longleftrightarrow>
     \<not> draw_task_stopped s \<and> Draw_stop_sig \<notin> set (draw_q s) \<and> drawing s \<noteq> Some Draw_stop_sig"

inductive pipe_step :: "pipeline \<Rightarrow> pipeline \<Rightarrow> bool" where
  send: "open_for_player s \<Longrightarrow> decode_frame b s = Some t \<Longrightarrow> b \<notin> set (handed s) \<Longrightarrow> pipe_step s t"
| receive: "decode_receive s = Some t \<Longrightarrow> pipe_step s t"
| lock: "decode_lock s = Some t \<Longrightarrow> pipe_step s t"
| emit: "decode_emit d px s = Some t \<Longrightarrow> d \<notin> set (handed s) \<Longrightarrow> px \<notin> set (handed s) \<Longrightarrow> d \<noteq> px \<Longrightarrow>
    pipe_step s t"
| finish: "decode_done s = Some t \<Longrightarrow> pipe_step s t"
| take: "draw_receive s = Some t \<Longrightarrow> pipe_step s t"
| draw: "draw_one s = Some t \<Longrightarrow> pipe_step s t"
| stop: "open_for_player s \<Longrightarrow> codec_stop s = Some t \<Longrightarrow> pipe_step s t"
| exit1: "open_for_player s \<Longrightarrow> exit_decode s = Some t \<Longrightarrow> pipe_step s t"
| exit2: "draw_open s \<Longrightarrow> exit_draw s = Some t \<Longrightarrow> pipe_step s t"

inductive pipe_reach :: "pipeline \<Rightarrow> bool" where
  init: "pipe_reach pipeline_init"
| step: "pipe_reach s \<Longrightarrow> pipe_step s t \<Longrightarrow> pipe_reach t"

section \<open>Ownership\<close>

definition in_flight :: "pipeline \<Rightarrow> nat list" where
  "in_flight s = free_frames (case taken s of None \<Rightarrow> [] | Some e \<Rightarrow> [e]) @
     free_pictures (case drawing s of None \<Rightarrow> [] | Some e \<Rightarrow> [e])"

definition owned :: "pipeline \<Rightarrow> nat list" where
  "owned s = free_frames (decode_q s) @ free_pictures (draw_q s) @ in_flight s @
     (case busy s of None \<Rightarrow> [] | Some b \<Rightarrow> [b])"

fun signal_last :: "jpeg_draw list \<Rightarrow> bool" where
  "signal_last [] = True"
| "signal_last (Picture d px # q) = signal_last q"
| "signal_last (Draw_stop_sig # q) = (free_pictures q = [])"

text \<open>Every block handed over is owned by the pipeline or freed, and is so once. Behind a stop signal
  there is nothing left to free.\<close>

definition balanced :: "pipeline \<Rightarrow> bool" where
  "balanced s \<longleftrightarrow> mset (owned s) + mset (freed s) = mset (handed s) \<and> distinct (handed s)"

definition signals_ok :: "pipeline \<Rightarrow> bool" where
  "signals_ok s \<longleftrightarrow> (taken s = None \<or> busy s = None) \<and>
     (Decode_stop_sig \<in> set (decode_q s) \<or> taken s = Some Decode_stop_sig \<longrightarrow> free_frames (decode_q s) = []) \<and>
     (decode_task_stopped s \<longrightarrow> taken s = None \<and> busy s = None \<and> decode_q s = []) \<and>
     (\<not> draw_open s \<longrightarrow> decode_task_stopped s) \<and> signal_last (draw_q s) \<and>
     (drawing s = Some Draw_stop_sig \<longrightarrow> free_pictures (draw_q s) = []) \<and>
     (draw_task_stopped s \<longrightarrow> drawing s = None \<and> draw_q s = [])"

definition pipe_inv :: "pipeline \<Rightarrow> bool" where
  "pipe_inv s \<longleftrightarrow> balanced s \<and> signals_ok s"

lemma free_frames_append [simp]: "free_frames (p @ q) = free_frames p @ free_frames q"
  by (induction p rule: free_frames.induct) simp_all

lemma free_pictures_append [simp]: "free_pictures (p @ q) = free_pictures p @ free_pictures q"
  by (induction p rule: free_pictures.induct) simp_all

lemma signal_last_picture:
  "Draw_stop_sig \<notin> set q \<Longrightarrow> signal_last (q @ [Picture d px])"
  by (induction q rule: signal_last.induct) simp_all

lemma signal_last_signal: "signal_last q \<Longrightarrow> signal_last (q @ [Draw_stop_sig])"
  by (induction q rule: signal_last.induct) simp_all

lemma signal_last_signals: "free_pictures q = [] \<Longrightarrow> signal_last q"
  by (induction q rule: signal_last.induct) simp_all

lemmas owner_simps = balanced_def owned_def in_flight_def
lemmas signal_simps = signals_ok_def draw_open_def open_for_player_def

lemma inv_send:
  assumes "pipe_inv s" "open_for_player s" "decode_frame b s = Some t" "b \<notin> set (handed s)"
  shows "pipe_inv t"
proof -
  have t: "t = s\<lparr>decode_q := decode_q s @ [Frame b], handed := handed s @ [b]\<rparr>"
    using assms(3) by (simp add: decode_frame_def split: if_splits)
  have "balanced t" using assms(1,4) by (simp add: t pipe_inv_def owner_simps union_ac)
  moreover have "signals_ok t" using assms(1,2) by (simp add: t pipe_inv_def signal_simps)
  ultimately show ?thesis by (simp add: pipe_inv_def)
qed

lemma inv_receive:
  assumes "pipe_inv s" "decode_receive s = Some t"
  shows "pipe_inv t"
proof -
  obtain e q where e: "decode_q s = e # q" "taken s = None" "busy s = None" "\<not> decode_task_stopped s"
    and t: "t = s\<lparr>decode_q := q, taken := Some e\<rparr>"
    using assms(2) by (auto simp: decode_receive_def split: bool.splits option.splits list.splits)
  have "balanced t" using assms(1) e by (cases e) (simp_all add: t pipe_inv_def owner_simps union_ac)
  moreover have "signals_ok t" using assms(1) e by (cases e) (auto simp: t pipe_inv_def signal_simps)
  ultimately show ?thesis by (simp add: pipe_inv_def)
qed

lemma inv_lock:
  assumes "pipe_inv s" "decode_lock s = Some t"
  shows "pipe_inv t"
proof (cases "taken s")
  case (Some e)
  have "balanced t"
    using assms Some by (cases e) (auto simp: decode_lock_def pipe_inv_def owner_simps signals_ok_def)
  moreover have "signals_ok t"
    using assms Some by (cases e) (auto simp: decode_lock_def pipe_inv_def signal_simps)
  ultimately show ?thesis by (simp add: pipe_inv_def)
qed (use assms in \<open>simp add: decode_lock_def\<close>)

lemma inv_emit:
  assumes "pipe_inv s" "decode_emit d px s = Some t" "d \<notin> set (handed s)" "px \<notin> set (handed s)" "d \<noteq> px"
  shows "pipe_inv t"
proof -
  have b: "busy s \<noteq> None" and t: "t = s\<lparr>draw_q := draw_q s @ [Picture d px], handed := handed s @ [d, px]\<rparr>"
    using assms(2) by (simp_all add: decode_emit_def split: if_splits)
  have "balanced t" using assms(1,3-) by (simp add: t pipe_inv_def owner_simps union_ac)
  moreover have "signals_ok t" using assms(1) b by (auto simp: t pipe_inv_def signal_simps signal_last_picture)
  ultimately show ?thesis by (simp add: pipe_inv_def)
qed

lemma inv_done:
  assumes "pipe_inv s" "decode_done s = Some t"
  shows "pipe_inv t"
proof -
  obtain b where b: "busy s = Some b"
    and t: "t = s\<lparr>busy := None, freed := freed s @ [b], decode_task_finish_processing := True\<rparr>"
    using assms(2) by (auto simp: decode_done_def split: option.splits)
  have "balanced t" using assms(1) b by (simp add: t pipe_inv_def owner_simps)
  moreover have "signals_ok t" using assms(1) b by (auto simp: t pipe_inv_def signal_simps)
  ultimately show ?thesis by (simp add: pipe_inv_def)
qed

lemma inv_take:
  assumes "pipe_inv s" "draw_receive s = Some t"
  shows "pipe_inv t"
proof -
  obtain e q where e: "draw_q s = e # q" "drawing s = None" "\<not> draw_task_stopped s"
    and t: "t = s\<lparr>draw_q := q, drawing := Some e\<rparr>"
    using assms(2) by (auto simp: draw_receive_def split: bool.splits option.splits list.splits)
  have "balanced t" using assms(1) e by (cases e) (simp_all add: t pipe_inv_def owner_simps union_ac)
  moreover have "signals_ok t"
    using assms(1) e by (cases e) (auto simp: t pipe_inv_def signal_simps signal_last_signals)
  ultimately show ?thesis by (simp add: pipe_inv_def)
qed

lemma inv_draw_picture:
  assumes "pipe_inv s" "drawing s = Some (Picture d px)"
  shows "pipe_inv (s\<lparr>drawing := None, shown := x, freed := freed s @ [px, d], draw_task_finish_processing := b\<rparr>)"
  using assms by (auto simp: pipe_inv_def owner_simps signal_simps)

lemma inv_draw_signal:
  assumes "pipe_inv s" "drawing s = Some Draw_stop_sig"
  shows "pipe_inv (s\<lparr>drawing := None, draw_q := [], draw_task_finish_processing := b, draw_task_stopped := True\<rparr>)"
  using assms by (auto simp: pipe_inv_def owner_simps signal_simps)

lemma inv_draw:
  assumes "pipe_inv s" "draw_one s = Some t"
  shows "pipe_inv t"
  using assms inv_draw_picture inv_draw_signal
  by (auto simp only: draw_one_def option.case jpeg_draw.case option.inject option.distinct
      split: option.splits jpeg_draw.splits)

lemma inv_stop:
  assumes "pipe_inv s" "open_for_player s" "codec_stop s = Some t"
  shows "pipe_inv t"
proof -
  have b: "busy s = None" and t: "t = s\<lparr>decode_q := [], draw_q := [],
      freed := freed s @ free_frames (decode_q s) @ free_pictures (draw_q s)\<rparr>"
    using assms(3) by (simp_all add: codec_stop_def split: if_splits)
  have "balanced t" using assms(1) b by (simp add: t pipe_inv_def owner_simps union_ac)
  moreover have "signals_ok t" using assms(1,2) b by (simp add: t pipe_inv_def signal_simps)
  ultimately show ?thesis by (simp add: pipe_inv_def)
qed

lemma inv_exit:
  assumes "pipe_inv s" "open_for_player s" "exit_decode s = Some t"
  shows "pipe_inv t"
proof -
  obtain u where u: "codec_stop s = Some u" and t: "t = u\<lparr>decode_q := [Decode_stop_sig]\<rparr>"
    using assms(3) by (auto simp: exit_decode_def split: option.splits)
  have "pipe_inv u" using inv_stop [OF assms(1,2) u] .
  moreover have "open_for_player u" "decode_q u = []"
    using assms(2) u by (auto simp: codec_stop_def open_for_player_def split: if_splits)
  ultimately show ?thesis by (simp add: t pipe_inv_def owner_simps signal_simps)
qed

lemma inv_exit2:
  assumes "pipe_inv s" "draw_open s" "exit_draw s = Some t"
  shows "pipe_inv t"
proof -
  have b: "decode_task_stopped s" and t: "t = s\<lparr>draw_q := draw_q s @ [Draw_stop_sig]\<rparr>"
    using assms(3) by (simp_all add: exit_draw_def split: if_splits)
  have "balanced t" using assms(1) by (simp add: t pipe_inv_def owner_simps)
  moreover have "signals_ok t" using assms(1,2) b by (simp add: t pipe_inv_def signal_simps signal_last_signal)
  ultimately show ?thesis by (simp add: pipe_inv_def)
qed

lemmas inv_intros = inv_send inv_receive inv_lock inv_emit inv_done inv_take inv_draw inv_stop inv_exit inv_exit2

lemma pipe_inv_step: "pipe_step s t \<Longrightarrow> pipe_inv s \<Longrightarrow> pipe_inv t"
  by (induction rule: pipe_step.induct) (blast intro: inv_intros)+

lemma pipe_inv_reach: "pipe_reach s \<Longrightarrow> pipe_inv s"
proof (induction rule: pipe_reach.induct)
  case init
  show ?case by (simp add: pipe_inv_def owner_simps signal_simps pipeline_init_def)
next
  case (step s t)
  then show ?case using pipe_inv_step by blast
qed


definition example_pipe :: pipeline where
  "example_pipe =
     the (decode_done (the (decode_emit 2 3 (the (decode_lock (the (decode_receive
       (the (decode_frame 1 pipeline_init)))))))))"

lemmas decode_steps = decode_done_def decode_emit_def decode_lock_def decode_receive_def decode_frame_def
  open_for_player_def pipeline_init_def

lemma example_pipe_reach: "pipe_reach example_pipe"
proof -
  let ?a = "the (decode_frame 1 pipeline_init)"
  let ?b = "the (decode_receive ?a)"
  let ?c = "the (decode_lock ?b)"
  let ?d = "the (decode_emit 2 3 ?c)"
  have s1: "pipe_step pipeline_init ?a"
    by (rule pipe_step.send [of _ 1]) (simp_all add: decode_steps)
  have s2: "pipe_step ?a ?b" by (rule pipe_step.receive) (simp add: decode_steps)
  have s3: "pipe_step ?b ?c" by (rule pipe_step.lock) (simp add: decode_steps)
  have s4: "pipe_step ?c ?d" by (rule pipe_step.emit [of 2 3]) (simp_all add: decode_steps)
  have s5: "pipe_step ?d example_pipe"
    unfolding example_pipe_def by (rule pipe_step.finish) (simp add: decode_steps)
  show ?thesis
    by (rule pipe_reach.step [OF pipe_reach.step [OF pipe_reach.step [OF pipe_reach.step [OF pipe_reach.step
          [OF pipe_reach.init s1] s2] s3] s4] s5])
qed


section \<open>The player\<close>

datatype play_status_t = normal | complete | error

datatype driver_call =
    Disable_core0_wdt
  | Enable_core0_wdt
  | New_codec
  | Delete_codec
  | Open_file string
  | Close_file
  | Decode_frame "byte list"
  | Wait_until uint32
  | Free_frame
  | Codec_stop
  | Create_player_task

record driver_platform =
  drv_millis :: "driver_call list \<Rightarrow> uint32"
  sd_open :: "string \<Rightarrow> byte list"
  drv_mem_ok :: "nat \<Rightarrow> bool"
  drv_past :: "byte list"

text \<open>\<open>m_lock\<close> tells whether the mutex is held; \<open>m_anim_file\<close> is what is left to read of the file, whose
  contents are \<open>m_contents\<close>.\<close>

record driver = "driver_call machine" +
  m_lock :: bool
  m_playing :: bool
  m_decoder :: codec
  m_fps :: byte
  m_repeat :: int32
  m_current_repeat :: uint32
  m_next_frame_ms :: uint32
  m_start_ms :: uint32
  m_is_image :: bool
  m_current_frames :: uint32
  m_faded :: bool
  m_anim_file :: "byte list"
  m_contents :: "byte list"

definition driver_init :: driver where
  "driver_init =
     \<lparr>calls = [], m_lock = False, m_playing = False, m_decoder = codec_init, m_fps = 25, m_repeat = 0,
      m_current_repeat = 0, m_next_frame_ms = 0, m_start_ms = 0, m_is_image = False,
      m_current_frames = 0, m_faded = False, m_anim_file = [], m_contents = []\<rparr>"

definition reset_play_status :: "driver \<Rightarrow> driver" where
  "reset_play_status s =
     (issue Close_file s)
       \<lparr>m_current_repeat := 0, m_start_ms := 0, m_next_frame_ms := 0, m_anim_file := [], m_contents := [],
        m_decoder := reset_input_status (m_decoder s), m_current_frames := 0, m_is_image := False,
        m_faded := False\<rparr>"

text \<open>\<^verbatim>\<open>stop\<close> takes the mutex, which its caller may hold already; a mutex that is held is waited for
  without end, the result \<open>None\<close>.\<close>

definition player_stop :: "driver \<Rightarrow> driver option" where
  "player_stop s =
     (if m_playing s
      then if m_lock s then None
           else Some (reset_play_status (issue Codec_stop (s\<lparr>m_playing := False\<rparr>)))
      else Some s)"

definition frame_due :: "driver \<Rightarrow> uint32" where
  "frame_due s = m_start_ms s + (m_current_frames s * 1000) div ucast (m_fps s)"

datatype iteration = Return play_status_t driver | Again driver | Never

text \<open>The second half of an iteration, from the reading of a frame on.\<close>

definition play_next :: "driver_platform \<Rightarrow> driver \<Rightarrow> iteration" where
  "play_next p s =
     (case read_frame (drv_mem_ok p) (drv_past p) (m_decoder s) (m_anim_file s) of
        (None, dec, r) \<Rightarrow>
          (case player_stop (s\<lparr>m_decoder := dec, m_anim_file := r\<rparr>) of None \<Rightarrow> Never | Some s1 \<Rightarrow> Return error s1)
      | (Some data, dec, r) \<Rightarrow>
          let s1 = s\<lparr>m_decoder := dec, m_anim_file := r\<rparr>;
              skip = (drv_millis p (calls s1) > m_next_frame_ms s1 \<and> m_start_ms s1 > 0);
              s2 = (if \<not> skip then issue (Wait_until (m_next_frame_ms s1)) (issue (Decode_frame data) s1)
                    else issue Free_frame s1);
              s3 = (if m_start_ms s2 = 0
                    then s2\<lparr>m_faded := True, m_start_ms := drv_millis p (calls s2),
                            m_current_frames := m_current_frames s2 + 1\<rparr>
                    else s2\<lparr>m_current_frames := m_current_frames s2 + 1\<rparr>);
              s4 = s3\<lparr>m_next_frame_ms := frame_due s3\<rparr>
          in if \<not> skip then Return normal s4 else Again s4)"

definition play_iteration :: "driver_platform \<Rightarrow> driver \<Rightarrow> iteration" where
  "play_iteration p s =
     (if m_anim_file s = [] then
        (if m_repeat s = - 1 \<or> m_current_repeat s < m_repeat s then
           (if m_current_frames s = 1 then Return normal (s\<lparr>m_is_image := True\<rparr>)
            else play_next p (s\<lparr>m_current_frames := 0, m_start_ms := 0,
                   m_current_repeat := m_current_repeat s + 1, m_anim_file := m_contents s,
                   m_decoder := reset_input_status (m_decoder s)\<rparr>))
         else case player_stop s of None \<Rightarrow> Never | Some s1 \<Rightarrow> Return complete s1)
      else play_next p s)"

partial_function (option) play_loop ::
  "driver_platform \<Rightarrow> driver \<Rightarrow> (play_status_t \<times> driver) option" where
  "play_loop p s =
     (case play_iteration p s of
        Return st s1 \<Rightarrow> Some (st, s1) | Again s1 \<Rightarrow> play_loop p s1 | Never \<Rightarrow> None)"

text \<open>A call that never returns is \<open>None\<close>. The mutex is released on return.\<close>

definition play_frame :: "driver_platform \<Rightarrow> driver \<Rightarrow> (play_status_t \<times> driver) option" where
  "play_frame p s =
     (if m_lock s then None
      else if \<not> m_playing s then Some (complete, s)
      else if m_is_image s then Some (normal, s)
      else map_option (\<lambda>(st, s1). (st, s1\<lparr>m_lock := False\<rparr>)) (play_loop p (s\<lparr>m_lock := True\<rparr>)))"

definition anim_bind_assets :: "driver_platform \<Rightarrow> string \<Rightarrow> driver \<Rightarrow> bool \<times> driver" where
  "anim_bind_assets p name s =
     (if m_playing s then (False, s)
      else let f = sd_open p name
           in (f \<noteq> [], (issue (Open_file name) s)\<lparr>m_playing := True, m_anim_file := f, m_contents := f\<rparr>))"

definition prepare_resource :: "driver \<Rightarrow> driver" where
  "prepare_resource s = (issue New_codec s)\<lparr>m_decoder := codec_init\<rparr>"

definition release_resource :: "driver \<Rightarrow> driver" where
  "release_resource s = issue Delete_codec s"

definition player_begin :: "driver \<Rightarrow> driver" where
  "player_begin s = issue Create_player_task s"

definition drv_activation_cb :: "bool \<Rightarrow> driver \<Rightarrow> driver option" where
  "drv_activation_cb activate s =
     (if activate then Some (issue Disable_core0_wdt s)
      else map_option (issue Enable_core0_wdt) (player_stop s))"

section \<open>The end of a video\<close>

lemma player_stop_locked: "m_lock s \<Longrightarrow> m_playing s \<Longrightarrow> player_stop s = None"
  by (simp add: player_stop_def)

lemma play_iteration_locked:
  assumes "m_lock s" "m_playing s"
  shows "play_iteration p s = Return st s1 \<Longrightarrow> st = normal"
    and "play_iteration p s = Again s1 \<Longrightarrow> m_lock s1 \<and> m_playing s1"
  using assms
  by (auto simp: play_iteration_def play_next_def player_stop_locked Let_def issue_def
      split: if_splits option.splits prod.splits)

text \<open>What every iteration keeps holds when the loop returns.\<close>

lemma play_loop_rule:
  assumes "play_loop p s = Some r" "I s"
    and "\<And>s st s1. I s \<Longrightarrow> play_iteration p s = Return st s1 \<Longrightarrow> Q st s1"
    and "\<And>s s1. I s \<Longrightarrow> play_iteration p s = Again s1 \<Longrightarrow> I s1"
  shows "Q (fst r) (snd r)"
proof -
  have "p' = p \<longrightarrow> I s' \<longrightarrow> Q (fst r') (snd r')" if "play_loop p' s' = Some r'" for p' s' r'
  proof (rule play_loop.raw_induct [OF _ that], goal_cases)
    case (1 f p' s r)
    show ?case
    proof (intro impI)
      assume p: "p' = p" and i: "I s"
      show "Q (fst r) (snd r)"
      proof (cases "play_iteration p s")
        case (Return st s1)
        with 1(2) p assms(3) [OF i] show ?thesis by auto
      next
        case (Again s1)
        with 1(2) p have "f p s1 = Some r" by simp
        from 1(1) [OF this] assms(4) [OF i Again] show ?thesis by blast
      next
        case Never
        with 1(2) p show ?thesis by simp
      qed
    qed
  qed
  with assms(1,2) show ?thesis by blast
qed

lemma play_loop_normal:
  assumes "play_loop p s = Some (st, s1)" "m_lock s" "m_playing s"
  shows "st = normal"
proof -
  have "(\<lambda>st (_ :: driver). st = normal) (fst (st, s1)) (snd (st, s1))"
  proof (rule play_loop_rule [where I = "\<lambda>s. m_lock s \<and> m_playing s", OF assms(1)])
    show "m_lock s \<and> m_playing s" using assms(2,3) by simp
  qed (metis play_iteration_locked)+
  then show ?thesis by simp
qed

text \<open>
  C33: The player never reports the end of a video. While it is playing, a call of \<^verbatim>\<open>play_frame\<close> that
  returns has shown a frame; and when the file is used up and no repetition is due, the call never
  returns, because \<^verbatim>\<open>stop\<close> waits for the mutex that \<^verbatim>\<open>play_frame\<close> itself holds.\<close>

theorem play_end_deadlocks:
  assumes "m_playing s"
  shows "(\<forall>st s'. play_frame p s = Some (st, s') \<longrightarrow> st = normal) \<and>
    (\<not> m_is_image s \<longrightarrow> m_anim_file s = [] \<longrightarrow> m_repeat s \<noteq> - 1 \<longrightarrow> \<not> m_current_repeat s < m_repeat s \<longrightarrow>
      play_frame p s = None)"
proof (intro conjI allI impI)
  fix st s'
  assume "play_frame p s = Some (st, s')"
  then show "st = normal"
    using assms play_loop_normal [of p "s\<lparr>m_lock := True\<rparr>"]
    by (auto simp: play_frame_def split: if_splits)
next
  assume "\<not> m_is_image s" "m_anim_file s = []" "m_repeat s \<noteq> - 1" "\<not> m_current_repeat s < m_repeat s"
  then have "play_iteration p (s\<lparr>m_lock := True\<rparr>) = Never"
    using assms by (simp add: play_iteration_def player_stop_locked)
  then have "play_loop p (s\<lparr>m_lock := True\<rparr>) = None" by (subst play_loop.simps) simp
  then show "play_frame p s = None" using assms \<open>\<not> m_is_image s\<close> by (simp add: play_frame_def)
qed

definition example_player :: driver_platform where
  "example_player =
     \<lparr>drv_millis = (\<lambda>_. 5), sd_open = (\<lambda>_. [0xFF, 0xD8, 0, 0xFF, 0xD9]), drv_mem_ok = (\<lambda>_. True),
      drv_past = [0]\<rparr>"

theorem play_end_deadlocks_witness:
  "play_frame example_player (driver_init\<lparr>m_playing := True\<rparr>) = None"
  using play_end_deadlocks [of "driver_init\<lparr>m_playing := True\<rparr>" example_player]
  by (simp add: driver_init_def)

section \<open>Timing\<close>

definition on_schedule :: "driver \<Rightarrow> bool" where
  "on_schedule s \<longleftrightarrow> m_fps s = 25 \<and> (m_start_ms s \<noteq> 0 \<longrightarrow> m_next_frame_ms s = frame_due s)"

lemma play_iteration_schedule:
  assumes "on_schedule s"
  shows "play_iteration p s = Return st s1 \<Longrightarrow> on_schedule s1"
    and "play_iteration p s = Again s1 \<Longrightarrow> on_schedule s1"
  using assms
  by (auto simp: play_iteration_def play_next_def player_stop_def Let_def issue_def on_schedule_def
      frame_due_def reset_play_status_def split: if_splits option.splits prod.splits)

lemma play_loop_schedule:
  assumes "play_loop p s = Some (st, s1)" "on_schedule s"
  shows "on_schedule s1"
proof -
  have "(\<lambda>_. on_schedule) (fst (st, s1)) (snd (st, s1))"
    by (rule play_loop_rule [where I = on_schedule, OF assms])
      (erule (1) play_iteration_schedule)+
  then show ?thesis by simp
qed

lemma on_schedule_lock [simp]: "on_schedule (s\<lparr>m_lock := b\<rparr>) = on_schedule s"
  by (simp add: on_schedule_def frame_due_def)

lemma play_frame_schedule: "play_frame p s = Some (st, s') \<Longrightarrow> on_schedule s \<Longrightarrow> on_schedule s'"
  by (auto simp: play_frame_def split: if_splits dest: play_loop_schedule)

lemma frame_due_25:
  assumes "m_fps s = 25" "unat (m_current_frames s) * 1000 < 2 ^ 32"
  shows "frame_due s = m_start_ms s + 40 * m_current_frames s"
proof -
  have u: "unat (m_current_frames s * 1000) = unat (m_current_frames s) * 1000"
    using assms(2) unat_mult_lem [of "m_current_frames s" 1000] by simp
  have "unat ((m_current_frames s * 1000) div (25 :: uint32)) = unat (40 * m_current_frames s)"
    using assms(2) u unat_mult_lem [of 40 "m_current_frames s"] by (simp add: unat_div)
  then have "(m_current_frames s * 1000) div (25 :: uint32) = 40 * m_current_frames s"
    by (rule unsigned_word_eqI)
  then show ?thesis using assms(1) by (simp add: frame_due_def)
qed



end
