(* ===== verification/Esp_Flash.thy ===== *)
theory Esp_Flash
  imports Flash
begin

text \<open>
  ESP-IDF's flash API, \<^verbatim>\<open>esp-idf/components/spi_flash/esp_flash_api.c\<close>, on top of a chip driver that
  erases single sectors or blocks and writes and reads bounded pieces. Requests are cut into such
  pieces with the bus released between them, and a request that touches a protected region does not
  return: the configuration selects \<^verbatim>\<open>CONFIG_SPI_FLASH_DANGEROUS_WRITE_ABORTS\<close>, so the program aborts.

  The chip driver, the bus and the buffers are parameters (the record \<open>flash_chip\<close>). The lemmas show
  that on a working chip the loops end and that the API does what \<open>Flash\<close> relies on.
\<close>

section \<open>The chip\<close>

text \<open>The bus is taken for the check of the chip's own protection, for the piece at an address, and
  for the final flush of the cache.\<close>

datatype bus_phase = Check | At uint32 | Flush

record flash_chip =
  initialised :: bool
  has_erase :: bool
  has_read :: bool
  has_write :: bool
  csize :: uint32
  sector_size :: uint32
  block_erase_size :: uint32
  region_protected :: "uint32 \<Rightarrow> uint32 \<Rightarrow> bool"
  protected_regions :: "(int \<times> (uint32 \<times> uint32) list) option"
  bus_start :: "bus_phase \<Rightarrow> int"
  bus_end :: "bus_phase \<Rightarrow> int"
  chip_yield :: "uint32 \<Rightarrow> int"
  flush_cache :: int
  erase_sector :: "flash_mem \<Rightarrow> uint32 \<Rightarrow> int \<times> flash_mem"
  erase_block :: "flash_mem \<Rightarrow> uint32 \<Rightarrow> int \<times> flash_mem"
  chip_write :: "flash_mem \<Rightarrow> byte list \<Rightarrow> uint32 \<Rightarrow> int \<times> flash_mem"
  chip_read :: "flash_mem \<Rightarrow> uint32 \<Rightarrow> uint32 \<Rightarrow> int \<times> byte list"
  supports_direct_write :: bool
  supports_direct_read :: bool
  temp_buffer :: "uint32 \<Rightarrow> uint32 option"

definition MAX_WRITE_CHUNK :: uint32 where [simp]: "MAX_WRITE_CHUNK = 8192"
definition MAX_READ_CHUNK :: uint32 where [simp]: "MAX_READ_CHUNK = 16384"

definition ESP_ERR_NO_MEM :: int where [simp]: "ESP_ERR_NO_MEM = 0x101"
definition ESP_ERR_INVALID_STATE :: int where [simp]: "ESP_ERR_INVALID_STATE = 0x103"
definition ESP_ERR_NOT_FOUND :: int where [simp]: "ESP_ERR_NOT_FOUND = 0x105"
definition ESP_ERR_INVALID_RESPONSE :: int where [simp]: "ESP_ERR_INVALID_RESPONSE = 0x108"
definition ESP_ERR_FLASH_NOT_INITIALISED :: int where [simp]: "ESP_ERR_FLASH_NOT_INITIALISED = 0x6003"
definition ESP_ERR_FLASH_UNSUPPORTED_HOST :: int where [simp]: "ESP_ERR_FLASH_UNSUPPORTED_HOST = 0x6004"
definition ESP_ERR_FLASH_UNSUPPORTED_CHIP :: int where [simp]: "ESP_ERR_FLASH_UNSUPPORTED_CHIP = 0x6005"
definition ESP_ERR_FLASH_PROTECTED :: int where [simp]: "ESP_ERR_FLASH_PROTECTED = 0x6006"

definition regions_overlap :: "uint32 \<Rightarrow> uint32 \<Rightarrow> uint32 \<Rightarrow> uint32 \<Rightarrow> bool" where
  "regions_overlap a_start a_len b_start b_len \<longleftrightarrow>
     (let a_end = a_start + a_len; b_end = b_start + b_len in a_end > b_start \<and> b_end > a_start)"

text \<open>The chip's own protection; the list holds the regions whose bit is set.\<close>

definition check_protection :: "flash_chip \<Rightarrow> uint32 \<Rightarrow> uint32 \<Rightarrow> int" where
  "check_protection c start len =
     (case protected_regions c of
        None \<Rightarrow> ESP_OK
      | Some (e, regions) \<Rightarrow>
          if bus_start c Check \<noteq> ESP_OK then bus_start c Check
          else
            let err = (if e \<noteq> ESP_OK then e
                       else if list_ex (\<lambda>(off, n). regions_overlap start len off n) regions
                       then ESP_ERR_FLASH_PROTECTED else ESP_OK)
            in if err = ESP_OK then bus_end c Check else err)"

text \<open>How a loop over pieces ends: the function returns at once, or the loop is left with an error
  code while the bus is held or not.\<close>

datatype flash_exit = Returned int | Broke int bool

definition flash_end_flush_cache :: "flash_chip \<Rightarrow> int \<Rightarrow> bool \<Rightarrow> int" where
  "flash_end_flush_cache c err bus_acquired =
     (if \<not> bus_acquired \<and> bus_start c Flush \<noteq> ESP_OK
      then (if err = ESP_OK then bus_start c Flush else err)
      else
        let err1 = (if err = ESP_OK then flush_cache c else err)
        in if err1 = ESP_OK then bus_end c Flush else err1)"

fun after_loop :: "flash_chip \<Rightarrow> (flash_exit \<times> flash_mem) option \<Rightarrow> (int \<times> flash_mem) option" where
  "after_loop c None = None"
| "after_loop c (Some (Returned err, m)) = Some (err, m)"
| "after_loop c (Some (Broke err bus_acquired, m)) = Some (flash_end_flush_cache c err bus_acquired, m)"

section \<open>Erasing\<close>

text \<open>A call that aborts, or a failed assertion, is \<open>None\<close>.\<close>

partial_function (option) erase_loop ::
  "flash_chip \<Rightarrow> uint32 \<Rightarrow> uint32 \<Rightarrow> uint32 \<Rightarrow> flash_mem \<Rightarrow> (flash_exit \<times> flash_mem) option" where
  "erase_loop c len erase_addr len_remain m =
     (if chip_yield c erase_addr \<noteq> ESP_OK then Some (Returned (chip_yield c erase_addr), m)
      else if bus_start c (At erase_addr) \<noteq> ESP_OK
      then Some (Broke (bus_start c (At erase_addr)) False, m)
      else
        let whole = (block_erase_size c > 0 \<and> len_remain \<ge> block_erase_size c
                     \<and> erase_addr mod block_erase_size c = 0);
            piece = (if whole then block_erase_size c else sector_size c);
            r = (if whole then erase_block c m erase_addr else erase_sector c m erase_addr)
        in if \<not> len_remain - piece < len then None
           else if fst r \<noteq> ESP_OK \<or> len_remain - piece = 0 then Some (Broke (fst r) True, snd r)
           else if bus_end c (At erase_addr) \<noteq> ESP_OK
           then Some (Broke (bus_end c (At erase_addr)) True, snd r)
           else erase_loop c len (erase_addr + piece) (len_remain - piece) (snd r))"

definition esp_flash_erase_region_api ::
  "flash_chip \<Rightarrow> uint32 \<Rightarrow> uint32 \<Rightarrow> flash_mem \<Rightarrow> (int \<times> flash_mem) option" where
  "esp_flash_erase_region_api c start len m =
     (if \<not> initialised c then Some (ESP_ERR_FLASH_NOT_INITIALISED, m)
      else if \<not> has_erase c then Some (ESP_ERR_FLASH_UNSUPPORTED_CHIP, m)
      else if region_protected c start len then None
      else if sector_size c = 0 \<or> block_erase_size c mod sector_size c \<noteq> 0
      then Some (ESP_ERR_FLASH_NOT_INITIALISED, m)
      else if start > csize c \<or> start + len > csize c then Some (ESP_ERR_INVALID_ARG, m)
      else if start mod sector_size c \<noteq> 0 \<or> len mod sector_size c \<noteq> 0
      then Some (ESP_ERR_INVALID_ARG, m)
      else if len = 0 then Some (ESP_OK, m)
      else if check_protection c start len \<noteq> ESP_OK then Some (check_protection c start len, m)
      else after_loop c (erase_loop c len start len m))"

section \<open>Writing\<close>

text \<open>Data that cannot be sent directly goes through a buffer of 32 bytes.\<close>

definition write_piece :: "flash_chip \<Rightarrow> uint32 \<Rightarrow> uint32" where
  "write_piece c len_remain = min len_remain (if supports_direct_write c then MAX_WRITE_CHUNK else 32)"

partial_function (option) write_loop ::
  "flash_chip \<Rightarrow> uint32 \<Rightarrow> byte list \<Rightarrow> uint32 \<Rightarrow> uint32 \<Rightarrow> flash_mem \<Rightarrow> (flash_exit \<times> flash_mem) option" where
  "write_loop c len buffer write_addr len_remain m =
     (let write_len = write_piece c len_remain
      in if chip_yield c write_addr \<noteq> ESP_OK then Some (Returned (chip_yield c write_addr), m)
         else if bus_start c (At write_addr) \<noteq> ESP_OK
         then Some (Broke (bus_start c (At write_addr)) False, m)
         else
           let r = chip_write c m (take (unat write_len) buffer) write_addr
           in if \<not> len_remain - write_len < len then None
              else if fst r \<noteq> ESP_OK \<or> len_remain - write_len = 0 then Some (Broke (fst r) True, snd r)
              else if bus_end c (At write_addr) \<noteq> ESP_OK
              then Some (Broke (bus_end c (At write_addr)) True, snd r)
              else write_loop c len (drop (unat write_len) buffer) (write_addr + write_len)
                     (len_remain - write_len) (snd r))"

definition esp_flash_write_api ::
  "flash_chip \<Rightarrow> byte list \<Rightarrow> uint32 \<Rightarrow> uint32 \<Rightarrow> flash_mem \<Rightarrow> (int \<times> flash_mem) option" where
  "esp_flash_write_api c buffer addr len m =
     (if \<not> initialised c then Some (ESP_ERR_FLASH_NOT_INITIALISED, m)
      else if \<not> has_write c then Some (ESP_ERR_FLASH_UNSUPPORTED_CHIP, m)
      else if region_protected c addr len then None
      else if addr > csize c \<or> addr + len > csize c then Some (ESP_ERR_INVALID_ARG, m)
      else if len = 0 then Some (ESP_OK, m)
      else after_loop c (write_loop c len buffer addr len m))"

section \<open>Reading\<close>

text \<open>The bytes read so far are \<open>acc\<close>; they are stored even when releasing the bus fails.\<close>

partial_function (option) read_loop ::
  "flash_chip \<Rightarrow> uint32 \<Rightarrow> uint32 \<Rightarrow> uint32 \<Rightarrow> byte list \<Rightarrow> flash_mem \<Rightarrow> (int \<times> byte list) option" where
  "read_loop c read_chunk_size addr len acc m =
     (if bus_start c (At addr) \<noteq> ESP_OK then Some (bus_start c (At addr), acc)
      else
        let length_to_read = min read_chunk_size len;
            r = chip_read c m addr length_to_read
        in if fst r \<noteq> ESP_OK then Some (fst r, acc)
           else if bus_end c (At addr) = ESP_OK \<and> len - length_to_read > 0
           then read_loop c read_chunk_size (addr + length_to_read) (len - length_to_read) (acc @ snd r) m
           else Some (bus_end c (At addr), acc @ snd r))"

definition esp_flash_read_api :: "flash_chip \<Rightarrow> uint32 \<Rightarrow> uint32 \<Rightarrow> flash_mem \<Rightarrow> (int \<times> byte list) option" where
  "esp_flash_read_api c addr len m =
     (if \<not> initialised c then Some (ESP_ERR_FLASH_NOT_INITIALISED, [])
      else if \<not> has_read c then Some (ESP_ERR_FLASH_UNSUPPORTED_CHIP, [])
      else if addr > csize c \<or> addr + len > csize c then Some (ESP_ERR_INVALID_ARG, [])
      else if len = 0 then Some (ESP_OK, [])
      else
        let read_chunk_size = min MAX_READ_CHUNK len
        in if supports_direct_read c then read_loop c read_chunk_size addr len [] m
           else (case temp_buffer c read_chunk_size of
                   None \<Rightarrow> Some (ESP_ERR_NO_MEM, [])
                 | Some actual_len \<Rightarrow> read_loop c actual_len addr len [] m))"

section \<open>The older interface\<close>

definition spi_flash_translate_rc :: "int \<Rightarrow> int option" where
  "spi_flash_translate_rc err =
     (if err \<in> {ESP_OK, ESP_ERR_INVALID_ARG, ESP_ERR_INVALID_SIZE, ESP_ERR_NO_MEM} then Some err
      else if err \<in> {ESP_ERR_FLASH_NOT_INITIALISED, ESP_ERR_FLASH_PROTECTED} then Some ESP_ERR_INVALID_STATE
      else if err \<in> {ESP_ERR_NOT_FOUND, ESP_ERR_FLASH_UNSUPPORTED_HOST, ESP_ERR_FLASH_UNSUPPORTED_CHIP}
      then Some ESP_ERR_NOT_SUPPORTED
      else if err = ESP_ERR_INVALID_RESPONSE then Some ESP_ERR_INVALID_RESPONSE
      else None)"

definition translated :: "(int \<times> 'a) option \<Rightarrow> (int \<times> 'a) option" where
  "translated r = (case r of None \<Rightarrow> None | Some (err, x) \<Rightarrow> map_option (\<lambda>e. (e, x)) (spi_flash_translate_rc err))"

definition spi_flash_erase_range :: "flash_chip \<Rightarrow> uint32 \<Rightarrow> uint32 \<Rightarrow> flash_mem \<Rightarrow> (int \<times> flash_mem) option" where
  "spi_flash_erase_range c start n m = translated (esp_flash_erase_region_api c start n m)"

definition spi_flash_write ::
  "flash_chip \<Rightarrow> uint32 \<Rightarrow> byte list \<Rightarrow> uint32 \<Rightarrow> flash_mem \<Rightarrow> (int \<times> flash_mem) option" where
  "spi_flash_write c dst src n m = translated (esp_flash_write_api c src dst n m)"

definition spi_flash_read :: "flash_chip \<Rightarrow> uint32 \<Rightarrow> uint32 \<Rightarrow> flash_mem \<Rightarrow> (int \<times> byte list) option" where
  "spi_flash_read c src n m = translated (esp_flash_read_api c src n m)"


section \<open>A working chip\<close>

definition good_chip :: "nat \<Rightarrow> flash_chip \<Rightarrow> bool" where
  "good_chip cs c \<longleftrightarrow> initialised c \<and> has_erase c \<and> has_read c \<and> has_write c \<and> unat (csize c) = cs \<and>
     sector_size c = SPI_FLASH_SEC_SIZE \<and> block_erase_size c mod SPI_FLASH_SEC_SIZE = 0 \<and>
     (case protected_regions c of None \<Rightarrow> True | Some (e, rs) \<Rightarrow> e = ESP_OK \<and> rs = []) \<and>
     (\<forall>ph. bus_start c ph = ESP_OK \<and> bus_end c ph = ESP_OK) \<and> (\<forall>a. chip_yield c a = ESP_OK) \<and>
     flush_cache c = ESP_OK \<and>
     (supports_direct_read c \<or> (\<forall>n. n \<noteq> 0 \<longrightarrow> (\<exists>k. k \<noteq> 0 \<and> temp_buffer c n = Some k)))"

definition good_erase :: "nat \<Rightarrow> flash_chip \<Rightarrow> bool" where
  "good_erase cs c \<longleftrightarrow>
     (\<forall>m a. unat a + 4096 \<le> cs \<and> a mod 4096 = 0 \<longrightarrow>
        erase_sector c m a = (ESP_OK, \<lambda>x. if x - a < 4096 then 0xFF else m x)) \<and>
     (\<forall>m a. unat a + unat (block_erase_size c) \<le> cs \<and> a mod block_erase_size c = 0 \<longrightarrow>
        erase_block c m a = (ESP_OK, \<lambda>x. if x - a < block_erase_size c then 0xFF else m x))"

definition good_transfer :: "nat \<Rightarrow> flash_chip \<Rightarrow> bool" where
  "good_transfer cs c \<longleftrightarrow>
     (\<forall>m bs a. length bs \<le> 8192 \<and> unat a + length bs \<le> cs \<longrightarrow>
        chip_write c m bs a
          = (ESP_OK, \<lambda>x. if x - a < of_nat (length bs) then m x AND bs ! unat (x - a) else m x)) \<and>
     (\<forall>m a n. unat a + unat n \<le> cs \<longrightarrow>
        chip_read c m a n = (ESP_OK, map (\<lambda>i. m (a + of_nat i)) [0..<unat n]))"

text \<open>Splitting a range after its first \<open>n\<close> addresses.\<close>

lemma range_split:
  fixes x a n r :: uint32
  assumes "n \<le> r"
  shows "x - a < r \<longleftrightarrow> x - a < n \<or> \<not> x - a < n \<and> x - (a + n) < r - n"
proof -
  define y where "y = x - a"
  have y: "x - (a + n) = y - n" by (simp add: y_def)
  show ?thesis
  proof (cases "y < n")
    case True
    then show ?thesis using assms by (simp add: y_def [symmetric])
  next
    case False
    then have "unat (y - n) = unat y - unat n" "unat (r - n) = unat r - unat n" "unat n \<le> unat y" "unat n \<le> unat r"
      using assms by (simp_all add: unat_sub word_le_nat_alt not_less)
    then show ?thesis using False unfolding y y_def [symmetric] by (auto simp: word_less_nat_alt)
  qed
qed

lemma range_rest:
  fixes x a n :: uint32
  assumes "\<not> x - a < n"
  shows "unat (x - (a + n)) = unat (x - a) - unat n"
  using assms unat_sub [of n "x - a"] by (simp add: not_less diff_diff_eq)

text \<open>Behind a piece the addresses of the piece do not come again.\<close>

lemma range_after:
  fixes x a n r :: uint32
  assumes "x - a < n" "n \<le> r"
  shows "\<not> x - (a + n) < r - n"
proof -
  define y where "y = x - a"
  have y: "x - (a + n) = y - n" by (simp add: y_def diff_diff_eq)
  have "unat (y - n) = 2 ^ 32 + unat y - unat n"
    using assms(1) unat_less_32 [of n] by (simp add: y_def [symmetric] unat_sub_if' word_less_nat_alt)
  moreover have "unat (r - n) = unat r - unat n" using assms(2) by (simp add: unat_sub)
  ultimately show ?thesis
    using unat_less_32 [of r] assms(2) unfolding y by (simp add: word_less_nat_alt word_le_nat_alt)
qed

lemma sub_exact: "n \<le> r \<Longrightarrow> unat (r - n :: uint32) = unat r - unat n"
  by (simp add: unat_sub)

lemma mod_zero_dvd: "(a :: uint32) mod 4096 = 0 \<longleftrightarrow> 4096 dvd unat a"
proof -
  have "a mod 4096 = 0 \<longleftrightarrow> unat (a mod 4096) = 0" by (simp only: unat_eq_zero)
  then show ?thesis by (simp add: unat_mod mod_eq_0_iff_dvd)
qed


text \<open>One piece of an erase: it is a whole number of sectors, not longer than what remains.\<close>

definition erase_piece :: "flash_chip \<Rightarrow> uint32 \<Rightarrow> uint32 \<Rightarrow> uint32" where
  "erase_piece c erase_addr len_remain =
     (if block_erase_size c > 0 \<and> len_remain \<ge> block_erase_size c \<and> erase_addr mod block_erase_size c = 0
      then block_erase_size c else 4096)"

lemma erase_piece_bounds:
  assumes "block_erase_size c mod 4096 = 0" "len_remain mod 4096 = 0" "len_remain \<noteq> 0"
  shows "erase_piece c a len_remain \<le> len_remain" "0 < erase_piece c a len_remain"
    "erase_piece c a len_remain mod 4096 = 0"
proof -
  have "4096 \<le> unat len_remain" using assms(2,3)
    by (simp add: mod_zero_dvd dvd_imp_le unat_gt_0)
  then show "erase_piece c a len_remain \<le> len_remain" "0 < erase_piece c a len_remain"
    "erase_piece c a len_remain mod 4096 = 0"
    using assms by (simp_all add: erase_piece_def word_le_nat_alt)
qed

lemma erase_loop_ok:
  assumes "good_chip cs c" "good_erase cs c"
    and "len_remain \<noteq> 0" "len_remain mod 4096 = 0" "erase_addr mod 4096 = 0" "len_remain \<le> len"
    and "unat erase_addr + unat len_remain \<le> cs"
  shows "erase_loop c len erase_addr len_remain m =
    Some (Broke ESP_OK True, \<lambda>x. if x - erase_addr < len_remain then 0xFF else m x)"
  using assms(3-)
proof (induction "unat len_remain" arbitrary: len_remain erase_addr m rule: less_induct)
  case less
  define n where "n = erase_piece c erase_addr len_remain"
  have b: "block_erase_size c mod 4096 = 0" "sector_size c = 4096"
    using assms(1) by (simp_all add: good_chip_def)
  note n = erase_piece_bounds [OF b(1) less.prems(2,1), of erase_addr, folded n_def]
  define m1 where "m1 = (\<lambda>x. if x - erase_addr < n then 0xFF else m x)"
  have nl: "unat n \<le> unat len_remain" "0 < unat n" "unat (len_remain - n) = unat len_remain - unat n"
    using n by (simp_all add: word_le_nat_alt sub_exact unat_gt_0)
  have rest: "len_remain - n < len"
    using nl less.prems(4) by (simp add: word_less_nat_alt word_le_nat_alt)
  have in_chip: "unat erase_addr + unat n \<le> cs" using nl less.prems(5) by simp
  define W where "W \<longleftrightarrow> block_erase_size c > 0 \<and> len_remain \<ge> block_erase_size c \<and> erase_addr mod block_erase_size c = 0"
  have piece: "(if W then block_erase_size c else 4096) = n"
    by (simp add: W_def n_def erase_piece_def)
  have erased: "(if W then erase_block c m erase_addr else erase_sector c m erase_addr) = (ESP_OK, m1)"
  proof (cases W)
    case True
    then show ?thesis using assms(2) in_chip piece by (simp add: good_erase_def W_def m1_def)
  next
    case False
    then show ?thesis using assms(2) in_chip piece less.prems(3) by (auto simp: good_erase_def m1_def)
  qed
  have step: "erase_loop c len erase_addr len_remain m =
    (if len_remain - n = 0 then Some (Broke ESP_OK True, m1)
     else erase_loop c len (erase_addr + n) (len_remain - n) m1)"
  proof (cases W)
    case True
    then have "block_erase_size c = n" "erase_block c m erase_addr = (ESP_OK, m1)"
      using piece erased by simp_all
    then show ?thesis using assms(1) rest True
      by (subst erase_loop.simps) (simp add: good_chip_def W_def Let_def)
  next
    case False
    then have "n = 4096" "erase_sector c m erase_addr = (ESP_OK, m1)" using piece erased by simp_all
    then show ?thesis using assms(1) rest False
      by (subst erase_loop.simps) (simp add: good_chip_def W_def [symmetric] Let_def)
  qed
  have union: "x - erase_addr < len_remain \<longleftrightarrow> x - erase_addr < n \<or> \<not> x - erase_addr < n \<and> x - (erase_addr + n) < len_remain - n" for x
    by (rule range_split) (rule n(1))
  show ?case
  proof (cases "len_remain - n = 0")
    case True
    then have "n = len_remain" by simp
    then show ?thesis using step by (simp add: m1_def)
  next
    case False
    have "erase_loop c len (erase_addr + n) (len_remain - n) m1 =
      Some (Broke ESP_OK True, \<lambda>x. if x - (erase_addr + n) < len_remain - n then 0xFF else m1 x)"
    proof (rule less.hyps)
      show "unat (len_remain - n) < unat len_remain" using nl by simp
      show "len_remain - n \<noteq> 0" by fact
      show "(len_remain - n) mod 4096 = 0"
        using nl n(3) less.prems(2) by (simp add: mod_zero_dvd)
      show "(erase_addr + n) mod 4096 = 0" by (rule aligned_sum [OF less.prems(3) n(3)])
      show "len_remain - n \<le> len" using rest by simp
      have "unat (erase_addr + n) = unat erase_addr + unat n"
        using in_chip assms(1) unat_less_32 [of "csize c"] by (intro unat_plus_exact) (simp add: good_chip_def)
      then show "unat (erase_addr + n) + unat (len_remain - n) \<le> cs"
        using nl less.prems(5) by simp
    qed
    moreover have "(\<lambda>x. if x - (erase_addr + n) < len_remain - n then 0xFF else m1 x) =
        (\<lambda>x. if x - erase_addr < len_remain then 0xFF else m x)"
      by (rule ext) (use union in \<open>auto simp: m1_def\<close>)
    ultimately show ?thesis using step False by simp
  qed
qed


lemma write_loop_ok:
  assumes "good_chip cs c" "good_transfer cs c"
    and "len_remain \<noteq> 0" "length buffer = unat len_remain" "len_remain \<le> len"
    and "unat write_addr + unat len_remain \<le> cs"
  shows "write_loop c len buffer write_addr len_remain m = Some (Broke ESP_OK True,
    \<lambda>x. if x - write_addr < len_remain then m x AND buffer ! unat (x - write_addr) else m x)"
  using assms(3-)
proof (induction "unat len_remain" arbitrary: len_remain buffer write_addr m rule: less_induct)
  case less
  define n where "n = write_piece c len_remain"
  have n: "n \<le> len_remain" "n \<noteq> 0" "unat n \<le> 8192"
    using less.prems(1) by (auto simp: n_def write_piece_def min_def word_le_nat_alt)
  have nl: "unat n \<le> unat len_remain" "0 < unat n" "unat (len_remain - n) = unat len_remain - unat n"
    using n by (simp_all add: word_le_nat_alt sub_exact unat_gt_0)
  define m1 where "m1 = (\<lambda>x. if x - write_addr < n then m x AND buffer ! unat (x - write_addr) else m x)"
  have rest: "len_remain - n < len"
    using nl less.prems(3) by (simp add: word_less_nat_alt word_le_nat_alt)
  have len_take: "length (take (unat n) buffer) = unat n" using nl less.prems(2) by simp
  have written: "chip_write c m (take (unat n) buffer) write_addr = (ESP_OK, m1)"
  proof -
    have "chip_write c m (take (unat n) buffer) write_addr = (ESP_OK,
        \<lambda>x. if x - write_addr < n then m x AND take (unat n) buffer ! unat (x - write_addr) else m x)"
      using assms(2) n(3) nl(1) less.prems(4) len_take by (simp add: good_transfer_def)
    moreover have "take (unat n) buffer ! unat (x - write_addr) = buffer ! unat (x - write_addr)"
      if "x - write_addr < n" for x
      using that by (simp add: word_less_nat_alt)
    ultimately show ?thesis by (simp add: m1_def cong: if_cong)
  qed
  have step: "write_loop c len buffer write_addr len_remain m =
    (if len_remain - n = 0 then Some (Broke ESP_OK True, m1)
     else write_loop c len (drop (unat n) buffer) (write_addr + n) (len_remain - n) m1)"
    using assms(1) rest written
    by (subst write_loop.simps) (simp add: good_chip_def n_def [symmetric] Let_def)
  show ?case
  proof (cases "len_remain - n = 0")
    case True
    then have "n = len_remain" by simp
    then show ?thesis using step by (simp add: m1_def)
  next
    case False
    have "write_loop c len (drop (unat n) buffer) (write_addr + n) (len_remain - n) m1 =
      Some (Broke ESP_OK True, \<lambda>x. if x - (write_addr + n) < len_remain - n
        then m1 x AND drop (unat n) buffer ! unat (x - (write_addr + n)) else m1 x)"
    proof (rule less.hyps)
      show "unat (len_remain - n) < unat len_remain" using nl by simp
      show "len_remain - n \<noteq> 0" by fact
      show "length (drop (unat n) buffer) = unat (len_remain - n)" using nl less.prems(2) by simp
      show "len_remain - n \<le> len" using rest by simp
      have "unat (write_addr + n) = unat write_addr + unat n"
        using nl less.prems(4) assms(1) unat_less_32 [of "csize c"]
        by (intro unat_plus_exact) (simp add: good_chip_def)
      then show "unat (write_addr + n) + unat (len_remain - n) \<le> cs"
        using nl less.prems(4) by simp
    qed
    moreover have "(if x - (write_addr + n) < len_remain - n
        then m1 x AND drop (unat n) buffer ! unat (x - (write_addr + n)) else m1 x) =
        (if x - write_addr < len_remain then m x AND buffer ! unat (x - write_addr) else m x)" for x
    proof (cases "x - write_addr < n")
      case True
      then have "\<not> x - (write_addr + n) < len_remain - n"
        by (rule range_after) (rule n(1))
      then show ?thesis using True range_split [OF n(1), of x write_addr] by (simp add: m1_def)
    next
      case out: False
      then have "unat n + unat (x - (write_addr + n)) = unat (x - write_addr)"
        using range_rest [OF out] by (simp add: word_less_nat_alt)
      then show ?thesis
        using out range_split [OF n(1), of x write_addr] nl(1) less.prems(2) by (simp add: m1_def)
    qed
    ultimately show ?thesis using step False by simp
  qed
qed


lemma upt_map_split:
  assumes "k \<le> n"
  shows "map f [0..<k] @ map (\<lambda>i. f (k + i)) [0..<n - k] = map f [0..<n]"
proof -
  have "[0..<n] = [0..<k] @ [k..<n]" using assms upt_add_eq_append [of 0 k "n - k"] by simp
  moreover have "map (\<lambda>i. f (k + i)) [0..<n - k] = map f [k..<n]"
    using assms by (intro nth_equalityI) simp_all
  ultimately show ?thesis by simp
qed

lemma read_loop_ok:
  assumes "good_chip cs c" "good_transfer cs c" "chunk \<noteq> 0"
    and "len \<noteq> 0" "unat addr + unat len \<le> cs"
  shows "read_loop c chunk addr len acc m = Some (ESP_OK, acc @ map (\<lambda>i. m (addr + of_nat i)) [0..<unat len])"
  using assms(4-)
proof (induction "unat len" arbitrary: len addr acc rule: less_induct)
  case less
  define n where "n = min chunk len"
  have n: "n \<le> len" "n \<noteq> 0" using assms(3) less.prems(1) by (auto simp: n_def min_def)
  have nl: "unat n \<le> unat len" "0 < unat n" "unat (len - n) = unat len - unat n"
    using n by (simp_all add: word_le_nat_alt sub_exact unat_gt_0)
  define bs where "bs = map (\<lambda>i. m (addr + of_nat i)) [0..<unat n]"
  have r: "chip_read c m addr n = (ESP_OK, bs)"
    using assms(2) nl(1) less.prems(2) by (simp add: good_transfer_def bs_def)
  have step: "read_loop c chunk addr len acc m =
    (if len - n > 0 then read_loop c chunk (addr + n) (len - n) (acc @ bs) m else Some (ESP_OK, acc @ bs))"
    using assms(1) r
    by (subst read_loop.simps) (simp add: good_chip_def n_def [symmetric] Let_def)
  show ?case
  proof (cases "len - n > 0")
    case False
    then have "n = len" by (simp add: word_gt_0)
    then show ?thesis using step by (simp add: bs_def)
  next
    case True
    have "read_loop c chunk (addr + n) (len - n) (acc @ bs) m =
      Some (ESP_OK, (acc @ bs) @ map (\<lambda>i. m (addr + n + of_nat i)) [0..<unat (len - n)])"
    proof (rule less.hyps)
      show "unat (len - n) < unat len" using nl by simp
      show "len - n \<noteq> 0" using True by auto
      have "unat (addr + n) = unat addr + unat n"
        using nl less.prems(2) assms(1) unat_less_32 [of "csize c"]
        by (intro unat_plus_exact) (simp add: good_chip_def)
      then show "unat (addr + n) + unat (len - n) \<le> cs" using nl less.prems(2) by simp
    qed
    moreover have "bs @ map (\<lambda>i. m (addr + n + of_nat i)) [0..<unat (len - n)] =
      map (\<lambda>i. m (addr + of_nat i)) [0..<unat len]"
      using upt_map_split [OF nl(1), of "\<lambda>i. m (addr + of_nat i)"] nl(3)
      by (simp add: bs_def ac_simps)
    ultimately show ?thesis using step True by simp
  qed
qed

lemma good_check: "good_chip cs c \<Longrightarrow> check_protection c start len = ESP_OK"
  by (auto simp: good_chip_def check_protection_def split: option.splits)

lemma good_in_chip:
  assumes "good_chip cs c" "unat a + unat n \<le> cs"
  shows "\<not> a > csize c" "\<not> a + n > csize c"
  using assms unat_plus_exact [of a n] unat_less_32 [of "csize c"]
  by (auto simp: good_chip_def word_less_nat_alt)

lemma flush_ok: "good_chip cs c \<Longrightarrow> flash_end_flush_cache c ESP_OK True = ESP_OK"
  by (simp add: good_chip_def flash_end_flush_cache_def)

lemma erase_region_ok:
  assumes "good_chip cs c" "good_erase cs c" "unat a + unat n \<le> cs" "\<not> region_protected c a n"
    and "a mod 4096 = 0" "n mod 4096 = 0"
  shows "esp_flash_erase_region_api c a n m = Some (ESP_OK, \<lambda>x. if x - a < n then 0xFF else m x)"
proof (cases "n = 0")
  case True
  then show ?thesis
    using assms good_in_chip [OF assms(1,3)] by (simp add: esp_flash_erase_region_api_def good_chip_def)
next
  case False
  then show ?thesis
    using assms good_in_chip [OF assms(1,3)] good_check [OF assms(1)] flush_ok [OF assms(1)]
      erase_loop_ok [OF assms(1,2) False assms(6,5) _ assms(3)]
    by (simp add: esp_flash_erase_region_api_def good_chip_def)
qed

lemma write_ok:
  assumes "good_chip cs c" "good_transfer cs c" "unat a + unat n \<le> cs" "\<not> region_protected c a n"
    and "length bs = unat n"
  shows "esp_flash_write_api c bs a n m =
    Some (ESP_OK, \<lambda>x. if x - a < n then m x AND bs ! unat (x - a) else m x)"
proof (cases "n = 0")
  case True
  then show ?thesis
    using assms good_in_chip [OF assms(1,3)] by (simp add: esp_flash_write_api_def good_chip_def)
next
  case False
  then show ?thesis
    using assms good_in_chip [OF assms(1,3)] flush_ok [OF assms(1)]
      write_loop_ok [OF assms(1,2) False assms(5) _ assms(3)]
    by (simp add: esp_flash_write_api_def good_chip_def)
qed

lemma read_ok:
  assumes "good_chip cs c" "good_transfer cs c" "unat a + unat n \<le> cs"
  shows "esp_flash_read_api c a n m = Some (ESP_OK, map (\<lambda>i. m (a + of_nat i)) [0..<unat n])"
proof (cases "n = 0")
  case True
  then show ?thesis
    using assms good_in_chip [OF assms(1,3)] by (simp add: esp_flash_read_api_def good_chip_def)
next
  case False
  define k where "k = min MAX_READ_CHUNK n"
  have k: "k \<noteq> 0" using False by (auto simp: k_def min_def)
  have "supports_direct_read c \<or> (\<exists>l. l \<noteq> 0 \<and> temp_buffer c k = Some l)"
    using assms(1) k by (auto simp: good_chip_def)
  moreover have "initialised c" "has_read c" using assms(1) by (simp_all add: good_chip_def)
  ultimately show ?thesis
    using False good_in_chip [OF assms(1,3)] k read_loop_ok [OF assms(1,2) _ False assms(3), of _ "[]" m]
    by (auto simp: esp_flash_read_api_def k_def [symmetric] simp del: MAX_READ_CHUNK_def)
qed

section \<open>The driver the partition layer uses\<close>

text \<open>A call that does not return stands for no answer of the driver; reading through the mapping and
  encrypted writing are left to \<open>other\<close>.\<close>

definition esp_flash_driver :: "flash_driver \<Rightarrow> flash_chip \<Rightarrow> flash_driver" where
  "esp_flash_driver other c = other\<lparr>
     esp_flash_read := \<lambda>m a n. (case esp_flash_read_api c a n m of None \<Rightarrow> (-1, []) | Some r \<Rightarrow> r),
     esp_flash_write := \<lambda>m src a n. (case esp_flash_write_api c src a n m of None \<Rightarrow> (-1, m) | Some r \<Rightarrow> r),
     esp_flash_erase_region := \<lambda>m a n. (case esp_flash_erase_region_api c a n m of None \<Rightarrow> (-1, m) | Some r \<Rightarrow> r)\<rparr>"

definition flash_open :: "flash_chip \<Rightarrow> uint32 \<Rightarrow> uint32 \<Rightarrow> bool" where
  "flash_open c a n \<longleftrightarrow> \<not> region_protected c a n"

text \<open>
  C15: The flash API implements the contract of a NOR flash that the partition layer and the flash
  adapter rely on. On a chip of \<open>cs\<close> bytes whose driver erases sectors and blocks and transfers
  pieces correctly, every read, every write and every erase of whole sectors inside the chip returns
  successfully with exactly the effect of one operation on the whole range, however it is cut into
  blocks, sectors, chunks and buffers; a write or erase that touches a protected region never
  returns.\<close>

theorem esp_flash_meets_nor:
  assumes "good_chip cs c" "good_erase cs c" "good_transfer cs c"
  shows "nor_flash (flash_open c) cs (esp_flash_driver other c) \<and>
    (\<forall>a n m bs. \<not> flash_open c a n \<longrightarrow>
      esp_flash_erase_region_api c a n m = None \<and> esp_flash_write_api c bs a n m = None)"
proof (intro conjI allI impI)
  show "nor_flash (flash_open c) cs (esp_flash_driver other c)"
    using read_ok [OF assms(1,3)] write_ok [OF assms(1,3)] erase_region_ok [OF assms(1,2)]
    by (simp add: nor_flash_def esp_flash_driver_def flash_open_def)
qed (use assms(1) in \<open>simp_all add: flash_open_def esp_flash_erase_region_api_def esp_flash_write_api_def good_chip_def\<close>)

definition example_chip :: flash_chip where
  "example_chip = \<lparr>initialised = True, has_erase = True, has_read = True, has_write = True,
     csize = 0x800000, sector_size = 4096, block_erase_size = 0x10000,
     region_protected = (\<lambda>a n. a \<le> 0x8C00), protected_regions = Some (ESP_OK, []),
     bus_start = (\<lambda>_. ESP_OK), bus_end = (\<lambda>_. ESP_OK), chip_yield = (\<lambda>_. ESP_OK), flush_cache = ESP_OK,
     erase_sector = (\<lambda>m a. (ESP_OK, \<lambda>x. if x - a < 4096 then 0xFF else m x)),
     erase_block = (\<lambda>m a. (ESP_OK, \<lambda>x. if x - a < 0x10000 then 0xFF else m x)),
     chip_write = (\<lambda>m bs a. (ESP_OK, \<lambda>x. if x - a < of_nat (length bs) then m x AND bs ! unat (x - a) else m x)),
     chip_read = (\<lambda>m a n. (ESP_OK, map (\<lambda>i. m (a + of_nat i)) [0..<unat n])),
     supports_direct_write = False, supports_direct_read = False, temp_buffer = Some\<rparr>"

lemma example_chip_good:
  "good_chip 0x800000 example_chip" "good_erase 0x800000 example_chip" "good_transfer 0x800000 example_chip"
  by (simp_all add: good_chip_def good_erase_def good_transfer_def example_chip_def)

theorem esp_flash_meets_nor_witness:
  "nor_flash (flash_open example_chip) 0x800000 (esp_flash_driver example_driver example_chip) \<and>
   esp_flash_erase_region_api example_chip 0x8000 0x1000 (\<lambda>_. 0) = None"
  using esp_flash_meets_nor [OF example_chip_good, of example_driver]
  by (simp add: flash_open_def example_chip_def)

end
