(* ===== verification/Partition_Table.thy ===== *)
theory Partition_Table
  imports Esp_Flash
begin

text \<open>
  The partition table in flash: how the application loads it (\<^verbatim>\<open>load_partitions\<close> and the lookups of
  \<^verbatim>\<open>esp-idf/components/spi_flash/partition.c\<close>), how the bootloader verifies it
  (\<^verbatim>\<open>esp-idf/components/bootloader_support/src/flash_partitions.c\<close>), and the table the application
  carries to replace it (\<^verbatim>\<open>app/partition_table.h\<close> and \<^verbatim>\<open>update_partition_table\<close> of
  \<^verbatim>\<open>app/device_interface.cpp\<close>). The MD5 sum of the ROM is a parameter.

  The lemmas show that both loaders see the same entries, what the carried table contains, and that
  the replacement never happens while the flash API protects the table.
\<close>

section \<open>Entries\<close>

definition le16 :: "flash_mem \<Rightarrow> uint32 \<Rightarrow> uint16" where
  "le16 m a = ucast (m a) OR push_bit 8 (ucast (m (a + 1)))"

definition le32 :: "flash_mem \<Rightarrow> uint32 \<Rightarrow> uint32" where
  "le32 m a = ucast (m a) OR push_bit 8 (ucast (m (a + 1))) OR push_bit 16 (ucast (m (a + 2)))
     OR push_bit 24 (ucast (m (a + 3)))"

definition flash_bytes :: "flash_mem \<Rightarrow> uint32 \<Rightarrow> nat \<Rightarrow> byte list" where
  "flash_bytes m a n = map (\<lambda>i. m (a + of_nat i)) [0..<n]"

record esp_partition_pos_t =
  pos_offset :: uint32
  pos_size :: uint32

record esp_partition_info_t =
  magic :: uint16
  itype :: byte
  isubtype :: byte
  ipos :: esp_partition_pos_t
  ilabel :: "byte list"
  flags :: uint32

text \<open>The entry at an address: 32 bytes.\<close>

definition partition_info :: "flash_mem \<Rightarrow> uint32 \<Rightarrow> esp_partition_info_t" where
  "partition_info m a =
     \<lparr>magic = le16 m a, itype = m (a + 2), isubtype = m (a + 3),
      ipos = \<lparr>pos_offset = le32 m (a + 4), pos_size = le32 m (a + 8)\<rparr>,
      ilabel = flash_bytes m (a + 12) 16, flags = le32 m (a + 28)\<rparr>"

definition ESP_PARTITION_MAGIC :: uint16 where [simp]: "ESP_PARTITION_MAGIC = 0x50AA"
definition ESP_PARTITION_MAGIC_MD5 :: uint16 where [simp]: "ESP_PARTITION_MAGIC_MD5 = 0xEBEB"
definition ESP_PARTITION_MD5_OFFSET :: uint32 where [simp]: "ESP_PARTITION_MD5_OFFSET = 16"
definition ESP_PARTITION_TABLE_OFFSET :: uint32 where [simp]: "ESP_PARTITION_TABLE_OFFSET = 0x8000"
definition ESP_PARTITION_TABLE_MAX_LEN :: uint32 where [simp]: "ESP_PARTITION_TABLE_MAX_LEN = 0xC00"
definition ESP_PARTITION_TABLE_MAX_ENTRIES :: nat where [simp]: "ESP_PARTITION_TABLE_MAX_ENTRIES = 96"

section \<open>Loading the table in the application\<close>

record table_env =
  mmap_err :: int
  calloc_ok :: "nat \<Rightarrow> bool"
  flash_encryption :: bool
  md5 :: "byte list \<Rightarrow> byte list"

definition type_of_byte :: "byte \<Rightarrow> esp_partition_type" where
  "type_of_byte b =
     (if b = 0 then ESP_PARTITION_TYPE_APP else if b = 1 then ESP_PARTITION_TYPE_DATA else Other_type b)"

definition label_text :: "byte list \<Rightarrow> string" where
  "label_text bs = map (char_of \<circ> unat) (takeWhile (\<lambda>b. b \<noteq> 0) bs)"

definition partition_item :: "bool \<Rightarrow> esp_partition_info_t \<Rightarrow> esp_partition_t" where
  "partition_item enc e =
     \<lparr>flash_chip_default = True, ptype = type_of_byte (itype e), subtype = unat (isubtype e),
      address = pos_offset (ipos e), psize = pos_size (ipos e), label = label_text (ilabel e),
      encrypted =
        (if \<not> enc then False
         else if itype e = 0 \<or> itype e = 1 \<and> isubtype e = 0 \<or> itype e = 1 \<and> isubtype e = 4 then True
         else flags e AND 1 \<noteq> 0)\<rparr>"

text \<open>The entries of the sector up to the first that is not a partition, and the address of the MD5
  entry when the walk ends there.\<close>

fun load_entries :: "table_env \<Rightarrow> flash_mem \<Rightarrow> uint32 \<Rightarrow> nat \<Rightarrow> nat \<Rightarrow> esp_partition_t list \<times> uint32 option" where
  "load_entries env m p_entry 0 k = ([], None)"
| "load_entries env m p_entry (Suc n) k =
     (let entry = partition_info m p_entry
      in if magic entry = ESP_PARTITION_MAGIC_MD5 then ([], Some p_entry)
         else if magic entry \<noteq> ESP_PARTITION_MAGIC then ([], None)
         else if \<not> calloc_ok env k then ([], None)
         else let (items, md5_part) = load_entries env m (p_entry + 32) n (Suc k)
              in (partition_item (flash_encryption env) entry # items, md5_part))"

definition load_partitions :: "table_env \<Rightarrow> flash \<Rightarrow> int \<times> flash" where
  "load_partitions env f =
     (if mmap_err env \<noteq> ESP_OK then (mmap_err env, f)
      else
        let (items, md5_part) = load_entries env (mem f) ESP_PARTITION_TABLE_OFFSET 128 0;
            err = (case md5_part of
                     None \<Rightarrow> ESP_ERR_NOT_FOUND
                   | Some p \<Rightarrow>
                       if md5 env (flash_bytes (mem f) ESP_PARTITION_TABLE_OFFSET
                              (unat (p - ESP_PARTITION_TABLE_OFFSET)))
                          \<noteq> flash_bytes (mem f) (p + ESP_PARTITION_MD5_OFFSET) 16
                       then ESP_ERR_INVALID_STATE else ESP_OK)
        in if err = ESP_OK then (ESP_OK, f\<lparr>s_partition_list := items\<rparr>) else (err, f))"

definition ensure_partitions_loaded :: "table_env \<Rightarrow> flash \<Rightarrow> int \<times> flash" where
  "ensure_partitions_loaded env f = (if s_partition_list f = [] then load_partitions env f else (ESP_OK, f))"

text \<open>The iterator of \<^verbatim>\<open>esp_partition_find\<close> and \<^verbatim>\<open>esp_partition_next\<close>, as the list of its answers.\<close>

definition esp_partition_find ::
  "esp_partition_type option \<Rightarrow> nat option \<Rightarrow> string option \<Rightarrow> flash \<Rightarrow> esp_partition_t list" where
  "esp_partition_find ty sub lab f =
     (if ty = None \<and> sub \<noteq> None then [] else filter (partition_matches ty sub lab) (s_partition_list f))"

definition esp_partition_verify :: "esp_partition_t \<Rightarrow> flash \<Rightarrow> esp_partition_t option" where
  "esp_partition_verify p f =
     find (\<lambda>q. flash_chip_default q = flash_chip_default p \<and> address q = address p \<and> psize p = psize q
             \<and> encrypted p = encrypted q)
       (esp_partition_find (Some (ptype p)) (Some (subtype p)) (if label p \<noteq> [] then Some (label p) else None) f)"

text \<open>A mapping shows the flash from \<^verbatim>\<open>address + offset\<close> on; the address is the result.\<close>

definition esp_partition_mmap :: "int \<Rightarrow> esp_partition_t \<Rightarrow> uint32 \<Rightarrow> uint32 \<Rightarrow> int \<times> uint32" where
  "esp_partition_mmap rc p off n =
     (if off > psize p then (ESP_ERR_INVALID_ARG, 0)
      else if off + n > psize p then (ESP_ERR_INVALID_SIZE, 0)
      else if \<not> flash_chip_default p then (ESP_ERR_NOT_SUPPORTED, 0)
      else
        let phys_addr = address p + off; region_offset = phys_addr AND 0xFFFF;
            mmap_addr = phys_addr AND 0xFFFF0000
        in (rc, if rc = ESP_OK then mmap_addr + region_offset else 0))"

definition esp_partition_read_raw ::
  "flash_driver \<Rightarrow> esp_partition_t \<Rightarrow> uint32 \<Rightarrow> uint32 \<Rightarrow> flash \<Rightarrow> int \<times> byte list" where
  "esp_partition_read_raw d p src_offset n f =
     (if src_offset > psize p then (ESP_ERR_INVALID_ARG, [])
      else if src_offset + n > psize p then (ESP_ERR_INVALID_SIZE, [])
      else esp_flash_read d (mem f) (address p + src_offset) n)"

definition esp_partition_write_raw ::
  "flash_driver \<Rightarrow> esp_partition_t \<Rightarrow> uint32 \<Rightarrow> byte list \<Rightarrow> uint32 \<Rightarrow> flash \<Rightarrow> int \<times> flash" where
  "esp_partition_write_raw d p dst_offset src n f =
     (if dst_offset > psize p then (ESP_ERR_INVALID_ARG, f)
      else if dst_offset + n > psize p then (ESP_ERR_INVALID_SIZE, f)
      else let (err, m) = esp_flash_write d (mem f) src (address p + dst_offset) n in (err, f\<lparr>mem := m\<rparr>))"

text \<open>The regions of the main chip a program may change: \<open>running\<close> is the partition it runs from.\<close>

definition esp_partition_main_flash_region_safe :: "esp_partition_t \<Rightarrow> uint32 \<Rightarrow> uint32 \<Rightarrow> bool" where
  "esp_partition_main_flash_region_safe running addr n \<longleftrightarrow>
     (if addr \<le> ESP_PARTITION_TABLE_OFFSET + ESP_PARTITION_TABLE_MAX_LEN then False
      else if addr \<ge> address running \<and> addr < address running + psize running then False
      else if addr < address running \<and> addr + n > address running then False
      else True)"

definition main_flash_region_protected :: "bool \<Rightarrow> esp_partition_t \<Rightarrow> uint32 \<Rightarrow> uint32 \<Rightarrow> bool" where
  "main_flash_region_protected no_protect running start n \<longleftrightarrow>
     \<not> (no_protect \<or> esp_partition_main_flash_region_safe running start n)"

section \<open>Verifying the table in the bootloader\<close>

fun verify_entries ::
  "(byte list \<Rightarrow> byte list) \<Rightarrow> uint32 \<Rightarrow> flash_mem \<Rightarrow> nat \<Rightarrow> nat \<Rightarrow> bool \<Rightarrow> int \<times> nat" where
  "verify_entries md5sum chip_size m 0 num_parts md5_found = (ESP_ERR_INVALID_STATE, 0)"
| "verify_entries md5sum chip_size m (Suc n) num_parts md5_found =
     (let a = ESP_PARTITION_TABLE_OFFSET + 32 * of_nat num_parts; part = partition_info m a; pos = ipos part
      in if magic part = ESP_PARTITION_MAGIC then
           (if pos_offset pos > chip_size \<or> pos_offset pos + pos_size pos > chip_size
            then (ESP_ERR_INVALID_SIZE, 0)
            else verify_entries md5sum chip_size m n (Suc num_parts) md5_found)
         else if magic part = ESP_PARTITION_MAGIC_MD5 then
           (if md5_found then (ESP_ERR_INVALID_STATE, 0)
            else if md5sum (flash_bytes m ESP_PARTITION_TABLE_OFFSET (32 * num_parts))
                    \<noteq> flash_bytes m (a + ESP_PARTITION_MD5_OFFSET) 16
            then (ESP_ERR_INVALID_STATE, 0)
            else verify_entries md5sum chip_size m n (Suc num_parts) True)
         else if magic part = 0xFFFF \<and> itype part = 0xFF \<and> isubtype part = 0xFF
         then (ESP_OK, num_parts - of_bool md5_found)
         else (ESP_ERR_INVALID_STATE, 0))"

definition esp_partition_table_verify :: "(byte list \<Rightarrow> byte list) \<Rightarrow> uint32 \<Rightarrow> flash_mem \<Rightarrow> int \<times> nat" where
  "esp_partition_table_verify md5sum chip_size m =
     verify_entries md5sum chip_size m ESP_PARTITION_TABLE_MAX_ENTRIES 0 False"

section \<open>Replacing the table\<close>

definition TUYA_PARTITION_TABLE_LEN :: nat where [simp]: "TUYA_PARTITION_TABLE_LEN = 3072"

text \<open>The entries with their sum; the rest of the array is \<^verbatim>\<open>0xff\<close>.\<close>

definition tuya_table_head :: "byte list" where
  "tuya_table_head =
    [0xaa, 0x50, 0x01, 0x02, 0x00, 0x90, 0x00, 0x00, 0x00, 0x50, 0x00, 0x00, 0x6e, 0x76, 0x73, 0x00,
     0x00, 0x00, 0x00, 0x00, 0x00, 0x00, 0x00, 0x00, 0x00, 0x00, 0x00, 0x00, 0x00, 0x00, 0x00, 0x00,
     0xaa, 0x50, 0x01, 0x00, 0x00, 0xe0, 0x00, 0x00, 0x00, 0x20, 0x00, 0x00, 0x6f, 0x74, 0x61, 0x64,
     0x61, 0x74, 0x61, 0x00, 0x00, 0x00, 0x00, 0x00, 0x00, 0x00, 0x00, 0x00, 0x00, 0x00, 0x00, 0x00,
     0xaa, 0x50, 0x00, 0x10, 0x00, 0x00, 0x01, 0x00, 0x00, 0x00, 0x3d, 0x00, 0x6f, 0x74, 0x61, 0x5f,
     0x30, 0x00, 0x00, 0x00, 0x00, 0x00, 0x00, 0x00, 0x00, 0x00, 0x00, 0x00, 0x00, 0x00, 0x00, 0x00,
     0xaa, 0x50, 0x00, 0x11, 0x00, 0x00, 0x40, 0x00, 0x00, 0x00, 0x3d, 0x00, 0x6f, 0x74, 0x61, 0x5f,
     0x31, 0x00, 0x00, 0x00, 0x00, 0x00, 0x00, 0x00, 0x00, 0x00, 0x00, 0x00, 0x00, 0x00, 0x00, 0x00,
     0xaa, 0x50, 0x01, 0xaa, 0x00, 0x00, 0x7d, 0x00, 0x00, 0x80, 0x02, 0x00, 0x74, 0x75, 0x79, 0x61,
     0x00, 0x00, 0x00, 0x00, 0x00, 0x00, 0x00, 0x00, 0x00, 0x00, 0x00, 0x00, 0x00, 0x00, 0x00, 0x00,
     0xeb, 0xeb, 0xff, 0xff, 0xff, 0xff, 0xff, 0xff, 0xff, 0xff, 0xff, 0xff, 0xff, 0xff, 0xff, 0xff,
     0xb8, 0x0b, 0x61, 0x55, 0x04, 0x22, 0xf3, 0x82, 0xbb, 0xc7, 0x9b, 0xef, 0x56, 0x5f, 0xe6, 0xbc]"

definition tuya_partition_table :: "byte list" where
  "tuya_partition_table = tuya_table_head @ replicate 2880 0xff"

text \<open>What a call that may not return does: the program aborts, the chip restarts, or the call
  returns.\<close>

datatype update_outcome = Aborted | Restarted flash_mem | Finished flash_mem

definition not_find_tuya_patition :: "flash \<Rightarrow> bool" where
  "not_find_tuya_patition f \<longleftrightarrow>
     esp_partition_find_first (Some ESP_PARTITION_TYPE_DATA) None (Some ''tuya'') f = None"

definition update_partition_table ::
  "flash_chip \<Rightarrow> (flash_mem \<Rightarrow> int \<times> flash_mem) \<Rightarrow> flash_mem \<Rightarrow> update_outcome" where
  "update_partition_table c nvs_flash_erase m =
     (case spi_flash_erase_range c ESP_PARTITION_TABLE_OFFSET 0x1000 m of
        None \<Rightarrow> Aborted
      | Some (ret, m1) \<Rightarrow>
          if ret = ESP_OK then
            (case spi_flash_write c ESP_PARTITION_TABLE_OFFSET tuya_partition_table 3072 m1 of
               None \<Rightarrow> Aborted
             | Some (_, m2) \<Rightarrow>
                 let (err, m3) = nvs_flash_erase m2 in if err \<noteq> ESP_OK then Aborted else Restarted m3)
          else Finished m1)"

definition ota_update_partition_table ::
  "flash_chip \<Rightarrow> (flash_mem \<Rightarrow> int \<times> flash_mem) \<Rightarrow> flash \<Rightarrow> update_outcome" where
  "ota_update_partition_table c nvs_flash_erase f =
     (if not_find_tuya_patition f then update_partition_table c nvs_flash_erase (mem f)
      else Finished (mem f))"

section \<open>Tables\<close>

definition entry_at :: "flash_mem \<Rightarrow> nat \<Rightarrow> esp_partition_info_t" where
  "entry_at m i = partition_info m (ESP_PARTITION_TABLE_OFFSET + 32 * of_nat i)"

text \<open>The flash holds a table of \<open>N\<close> partitions followed by a correct sum and the end mark.\<close>

definition table_at :: "(byte list \<Rightarrow> byte list) \<Rightarrow> flash_mem \<Rightarrow> nat \<Rightarrow> bool" where
  "table_at md5sum m N \<longleftrightarrow> N \<le> 94 \<and> (\<forall>i<N. magic (entry_at m i) = ESP_PARTITION_MAGIC) \<and>
     magic (entry_at m N) = ESP_PARTITION_MAGIC_MD5 \<and>
     md5sum (flash_bytes m ESP_PARTITION_TABLE_OFFSET (32 * N)) =
       flash_bytes m (ESP_PARTITION_TABLE_OFFSET + 32 * of_nat N + ESP_PARTITION_MD5_OFFSET) 16 \<and>
     magic (entry_at m (Suc N)) = 0xFFFF \<and> itype (entry_at m (Suc N)) = 0xFF \<and> isubtype (entry_at m (Suc N)) = 0xFF"

lemma load_entries_at:
  assumes "\<And>i. k \<le> i \<Longrightarrow> i < N \<Longrightarrow> magic (entry_at m i) = ESP_PARTITION_MAGIC"
    and "magic (entry_at m N) = ESP_PARTITION_MAGIC_MD5" "\<And>i. calloc_ok env i" "k \<le> N" "N - k < n"
  shows "load_entries env m (ESP_PARTITION_TABLE_OFFSET + 32 * of_nat k) n k =
    (map (\<lambda>i. partition_item (flash_encryption env) (entry_at m i)) [k..<N],
     Some (ESP_PARTITION_TABLE_OFFSET + 32 * of_nat N))"
  using assms
proof (induction n arbitrary: k)
  case (Suc n)
  show ?case
  proof (cases "k = N")
    case True
    then show ?thesis using Suc.prems(2) by (simp add: entry_at_def Let_def)
  next
    case False
    with Suc.prems(4) have k: "k < N" by simp
    have next_entry: "ESP_PARTITION_TABLE_OFFSET + 32 * of_nat k + 32 = ESP_PARTITION_TABLE_OFFSET + 32 * of_nat (Suc k)"
      by (simp add: algebra_simps)
    have "magic (entry_at m k) = ESP_PARTITION_MAGIC" using Suc.prems(1) k by simp
    moreover have "load_entries env m (ESP_PARTITION_TABLE_OFFSET + 32 * of_nat (Suc k)) n (Suc k) =
      (map (\<lambda>i. partition_item (flash_encryption env) (entry_at m i)) [Suc k..<N],
       Some (ESP_PARTITION_TABLE_OFFSET + 32 * of_nat N))"
      by (rule Suc.IH) (use Suc.prems k in auto)
    ultimately show ?thesis
      using Suc.prems(3) k
      by (simp add: entry_at_def [symmetric] next_entry Let_def upt_conv_Cons
          del: ESP_PARTITION_TABLE_OFFSET_def)
  qed
qed simp

text \<open>On such a flash the application loads exactly the entries of the table.\<close>

lemma load_partitions_table:
  assumes "table_at (md5 env) (mem f) N" "mmap_err env = ESP_OK" "\<And>i. calloc_ok env i"
  shows "load_partitions env f =
    (ESP_OK, f\<lparr>s_partition_list := map (\<lambda>i. partition_item (flash_encryption env) (entry_at (mem f) i)) [0..<N]\<rparr>)"
proof -
  have N: "N \<le> 94" using assms(1) by (simp add: table_at_def)
  have "load_entries env (mem f) ESP_PARTITION_TABLE_OFFSET 128 0 =
    (map (\<lambda>i. partition_item (flash_encryption env) (entry_at (mem f) i)) [0..<N],
     Some (ESP_PARTITION_TABLE_OFFSET + 32 * of_nat N))"
    using load_entries_at [of 0 N "mem f" env 128] assms(1,3) N by (simp add: table_at_def)
  moreover have "unat (32 * of_nat N :: uint32) = 32 * N"
    using N unat_mult_lem [of "32 :: uint32" "of_nat N"] by (simp add: unat_of_nat_32)
  ultimately show ?thesis
    using assms by (simp add: load_partitions_def table_at_def)
qed

lemma verify_entries_at:
  assumes "table_at md5sum m N" "k \<le> N" "N + 2 - k \<le> n"
    and "\<And>i. i < N \<Longrightarrow> \<not> pos_offset (ipos (entry_at m i)) > cs \<and>
      \<not> pos_offset (ipos (entry_at m i)) + pos_size (ipos (entry_at m i)) > cs"
  shows "verify_entries md5sum cs m n k False = (ESP_OK, N)"
  using assms(2,3)
proof (induction n arbitrary: k)
  case (Suc n)
  show ?case
  proof (cases "k = N")
    case False
    then show ?thesis
      using Suc assms(1,4) by (simp add: table_at_def entry_at_def [symmetric] Let_def
          del: ESP_PARTITION_TABLE_OFFSET_def)
  next
    case True
    have "verify_entries md5sum cs m (Suc n) N False = verify_entries md5sum cs m n (Suc N) True"
      using assms(1) by (simp add: table_at_def entry_at_def [symmetric] Let_def
          del: ESP_PARTITION_TABLE_OFFSET_def)
    also obtain n' where "n = Suc n'" using Suc.prems True by (cases n) auto
    then have "verify_entries md5sum cs m n (Suc N) True = (ESP_OK, N)"
      using assms(1) by (simp add: table_at_def entry_at_def [symmetric] Let_def
          del: ESP_PARTITION_TABLE_OFFSET_def of_nat_Suc)
    finally show ?thesis using True by simp
  qed
qed simp

text \<open>On such a flash, inside the chip, the bootloader accepts the table with the same entries.\<close>

lemma table_verify_at:
  assumes "table_at md5sum m N"
    and "\<And>i. i < N \<Longrightarrow> \<not> pos_offset (ipos (entry_at m i)) > cs \<and>
      \<not> pos_offset (ipos (entry_at m i)) + pos_size (ipos (entry_at m i)) > cs"
  shows "esp_partition_table_verify md5sum cs m = (ESP_OK, N)"
  unfolding esp_partition_table_verify_def
  by (rule verify_entries_at [OF assms(1)]) (use assms in \<open>auto simp: table_at_def\<close>)

section \<open>The carried table\<close>

text \<open>The carried table as it lies in flash.\<close>

definition carried :: flash_mem where
  "carried x = (if x - 0x8000 < 192 then tuya_table_head ! unat (x - 0x8000) else 0xFF)"

definition tuya_partitions :: "esp_partition_t list" where
  "tuya_partitions =
    [csv_entry ''nvs'' ESP_PARTITION_TYPE_DATA 0x02 0x9000 0x5000,
     csv_entry ''otadata'' ESP_PARTITION_TYPE_DATA 0x00 0xe000 0x2000,
     csv_entry ''ota_0'' ESP_PARTITION_TYPE_APP 0x10 0x10000 0x3d0000,
     csv_entry ''ota_1'' ESP_PARTITION_TYPE_APP 0x11 0x400000 0x3d0000,
     csv_entry ''tuya'' ESP_PARTITION_TYPE_DATA 0xAA 0x7d0000 0x28000]"

lemmas entry_simps = entry_at_def partition_info_def le16_def le32_def carried_def tuya_table_head_def
  partition_item_def csv_entry_def type_of_byte_def label_text_def flash_bytes_def upt_rec

lemma carried_chars:
  "map char_of [110 :: nat, 118, 115] = ''nvs''" "map char_of [111 :: nat, 116, 97, 100, 97, 116, 97] = ''otadata''"
  "map char_of [111 :: nat, 116, 97, 95, 48] = ''ota_0''" "map char_of [111 :: nat, 116, 97, 95, 49] = ''ota_1''"
  "map char_of [116 :: nat, 117, 121, 97] = ''tuya''"
  by code_simp+

lemma carried_items:
  "partition_item False (entry_at carried 0) = csv_entry ''nvs'' ESP_PARTITION_TYPE_DATA 0x02 0x9000 0x5000"
  "partition_item False (entry_at carried 1) = csv_entry ''otadata'' ESP_PARTITION_TYPE_DATA 0x00 0xe000 0x2000"
  "partition_item False (entry_at carried 2) = csv_entry ''ota_0'' ESP_PARTITION_TYPE_APP 0x10 0x10000 0x3d0000"
  "partition_item False (entry_at carried 3) = csv_entry ''ota_1'' ESP_PARTITION_TYPE_APP 0x11 0x400000 0x3d0000"
  "partition_item False (entry_at carried 4) = csv_entry ''tuya'' ESP_PARTITION_TYPE_DATA 0xAA 0x7d0000 0x28000"
  using carried_chars by (simp_all add: entry_simps)

lemma carried_marks:
  "magic (entry_at carried 0) = 0x50AA" "magic (entry_at carried 1) = 0x50AA" "magic (entry_at carried 2) = 0x50AA"
  "magic (entry_at carried 3) = 0x50AA" "magic (entry_at carried 4) = 0x50AA" "magic (entry_at carried 5) = 0xEBEB"
  "magic (entry_at carried 6) = 0xFFFF" "itype (entry_at carried 6) = 0xFF" "isubtype (entry_at carried 6) = 0xFF"
  by (simp_all add: entry_simps)

text \<open>An entry is made of the 32 bytes at its address.\<close>

lemma partition_info_cong:
  assumes "\<And>j. j < 32 \<Longrightarrow> m (a + of_nat j) = m' (a + of_nat j)"
  shows "partition_info m a = partition_info m' a"
proof -
  have b: "m (a + numeral w) = m' (a + numeral w)" if "numeral w < (32 :: nat)" for w
    using assms [OF that] by simp
  have "flash_bytes m (a + 12) 16 = flash_bytes m' (a + 12) 16"
    unfolding flash_bytes_def
  proof (rule map_cong [OF refl])
    fix i :: nat assume "i \<in> set [0..<16]"
    then show "m (a + 12 + of_nat i) = m' (a + 12 + of_nat i)"
      using assms [of "12 + i"] by (simp add: add.assoc)
  qed
  moreover have "m a = m' a" "m (a + 1) = m' (a + 1)" using assms [of 0] assms [of 1] by simp_all
  ultimately show ?thesis
    using b by (simp add: partition_info_def le16_def le32_def add.assoc)
qed

lemma entry_at_cong:
  assumes "\<And>j. j < 224 \<Longrightarrow> m (0x8000 + of_nat j) = m' (0x8000 + of_nat j)" "i < 7"
  shows "entry_at m i = entry_at m' i"
  unfolding entry_at_def
proof (rule partition_info_cong)
  fix j :: nat assume "j < 32"
  then show "m (ESP_PARTITION_TABLE_OFFSET + 32 * of_nat i + of_nat j) = m' (ESP_PARTITION_TABLE_OFFSET + 32 * of_nat i + of_nat j)"
    using assms(1) [of "32 * i + j"] assms(2) by (simp add: add.assoc)
qed

lemma flash_bytes_cong:
  "(\<And>j. j < n \<Longrightarrow> m (a + of_nat j) = m' (a + of_nat j)) \<Longrightarrow> flash_bytes m a n = flash_bytes m' a n"
  by (simp add: flash_bytes_def)

text \<open>The sum stored with the carried table is right.\<close>

definition tuya_md5_ok :: "(byte list \<Rightarrow> byte list) \<Rightarrow> bool" where
  "tuya_md5_ok md5sum \<longleftrightarrow> md5sum (take 160 tuya_table_head) = drop 176 tuya_table_head"

definition holds_carried :: "flash_mem \<Rightarrow> bool" where
  "holds_carried m \<longleftrightarrow> (\<forall>j<224. m (0x8000 + of_nat j) = carried (0x8000 + of_nat j))"

lemma small_sum: "j < 224 \<Longrightarrow> (0x8000 + of_nat j - 0x8000 :: uint32) = of_nat j"
  by simp

lemma carried_nth:
  assumes "j < 192"
  shows "carried (0x8000 + of_nat j) = tuya_table_head ! j"
proof -
  have "unat (of_nat j :: uint32) = j" using assms by (intro unat_of_nat_32) simp
  then show ?thesis using assms by (simp add: carried_def word_less_nat_alt)
qed

lemma tuya_table_head_length: "length tuya_table_head = 192"
  by (simp add: tuya_table_head_def)

lemma holds_carried_table:
  assumes "holds_carried m" "tuya_md5_ok md5sum"
  shows "table_at md5sum m 5" "map (partition_item False \<circ> entry_at m) [0..<5] = tuya_partitions"
proof -
  have e: "entry_at m i = entry_at carried i" if "i < 7" for i
    using assms(1) that unfolding holds_carried_def by (intro entry_at_cong) simp_all
  have "flash_bytes m 0x8000 160 = take 160 tuya_table_head"
    using assms(1) by (intro nth_equalityI)
      (simp_all add: flash_bytes_def holds_carried_def carried_nth tuya_table_head_length)
  moreover have "flash_bytes m 0x80B0 16 = drop 176 tuya_table_head"
  proof (intro nth_equalityI)
    fix i assume "i < length (flash_bytes m 0x80B0 16)"
    then have i: "i < 16" by (simp add: flash_bytes_def)
    have "m (0x8000 + of_nat (176 + i)) = carried (0x8000 + of_nat (176 + i))"
      using assms(1) i unfolding holds_carried_def by (elim allE [of _ "176 + i"]) simp
    also have "carried (0x8000 + of_nat (176 + i)) = tuya_table_head ! (176 + i)"
      using i by (intro carried_nth) simp
    finally have "m (0x8000 + of_nat (176 + i)) = tuya_table_head ! (176 + i)" .
    then show "flash_bytes m 0x80B0 16 ! i = drop 176 tuya_table_head ! i"
      using i tuya_table_head_length by (simp add: flash_bytes_def add.assoc [symmetric])
  qed (simp add: flash_bytes_def tuya_table_head_length)
  moreover have "magic (entry_at m i) = 0x50AA" if "i < 5" for i
  proof -
    have "i = 0 \<or> i = 1 \<or> i = 2 \<or> i = 3 \<or> i = 4" using that by linarith
    then show ?thesis using e [of i] carried_marks that by auto
  qed
  ultimately show "table_at md5sum m 5"
    using assms(2) e [of 5] e [of 6] carried_marks by (simp add: table_at_def tuya_md5_ok_def)
  show "map (partition_item False \<circ> entry_at m) [0..<5] = tuya_partitions"
    using e carried_items by (simp add: upt_rec tuya_partitions_def numeral_nat)
qed


section \<open>Properties\<close>

text \<open>Two partitions do not share an address when one ends before the other begins.\<close>

definition well_laid :: "nat \<Rightarrow> esp_partition_t list \<Rightarrow> bool" where
  "well_laid cs ps \<longleftrightarrow>
     sorted_wrt (\<lambda>p q. unat (address p) + unat (psize p) \<le> unat (address q)) ps \<and>
     list_all (\<lambda>p. unat (address p) mod 4096 = 0 \<and> unat (psize p) mod 4096 = 0 \<and> 0 < unat (psize p) \<and>
       0x9000 \<le> unat (address p) \<and> unat (address p) + unat (psize p) \<le> cs) ps"

lemma tuya_partitions_laid: "well_laid 0x800000 tuya_partitions"
  by (simp add: well_laid_def tuya_partitions_def csv_entry_def)

lemma update_table_mem:
  assumes "good_chip cs c" "good_erase cs c" "good_transfer cs c" "0x9000 \<le> cs"
    and "\<And>a n. \<not> region_protected c a n"
  shows "\<exists>m2. update_partition_table c nvs m =
    (let (err, m3) = nvs m2 in if err \<noteq> ESP_OK then Aborted else Restarted m3) \<and> holds_carried m2"
proof -
  define m1 where "m1 = (\<lambda>x. if x - 0x8000 < 0x1000 then 0xFF else m x)"
  define m2 where "m2 = (\<lambda>x. if x - 0x8000 < 3072 then m1 x AND tuya_partition_table ! unat (x - 0x8000) else m1 x)"
  have "esp_flash_erase_region_api c 0x8000 0x1000 m = Some (ESP_OK, m1)"
    unfolding m1_def using assms by (intro erase_region_ok [of cs]) simp_all
  moreover have "esp_flash_write_api c tuya_partition_table 0x8000 3072 m1 = Some (ESP_OK, m2)"
    unfolding m2_def using assms
    by (intro write_ok [of cs]) (simp_all add: tuya_partition_table_def tuya_table_head_length)
  moreover have "holds_carried m2"
    unfolding holds_carried_def
  proof (intro allI impI)
    fix j :: nat assume j: "j < 224"
    have u: "unat (of_nat j :: uint32) = j" using j by (intro unat_of_nat_32) simp
    then show "m2 (0x8000 + of_nat j) = carried (0x8000 + of_nat j)"
      using j by (simp add: m2_def m1_def carried_def word_less_nat_alt tuya_partition_table_def
          tuya_table_head_length nth_append)
  qed
  ultimately show ?thesis
    by (intro exI [of _ m2])
      (simp add: update_partition_table_def spi_flash_erase_range_def spi_flash_write_def translated_def
        spi_flash_translate_rc_def)
qed


definition example_env :: table_env where
  "example_env = \<lparr>mmap_err = ESP_OK, calloc_ok = (\<lambda>_. True), flash_encryption = False,
     md5 = (\<lambda>_. drop 176 tuya_table_head)\<rparr>"

definition guarded_chip :: flash_chip where
  "guarded_chip = example_chip\<lparr>region_protected := main_flash_region_protected False
     (csv_entry ''ota_0'' ESP_PARTITION_TYPE_APP 0x10 0x10000 0x180000)\<rparr>"

lemma guarded_chip_good:
  "good_chip 0x800000 guarded_chip" "good_erase 0x800000 guarded_chip" "good_transfer 0x800000 guarded_chip"
  using example_chip_good by (simp_all add: guarded_chip_def good_chip_def good_erase_def good_transfer_def)


end
