(* ===== verification/Bootloader.thy ===== *)
theory Bootloader
  imports Partition_Table
begin

text \<open>
  How the second stage bootloader chooses the application to start:
  \<^verbatim>\<open>esp-idf/components/bootloader_support/src/bootloader_utility.c\<close> and
  \<^verbatim>\<open>bootloader_common_loader.c\<close>, in the configuration without rollback, anti-rollback, secure boot and
  factory reset. The choice rests on two records, one in each sector of the otadata partition.

  The checksum of the ROM, the mapping of the flash and the verification of images are parameters.
\<close>

section \<open>Selection records\<close>

record esp_ota_select_entry_t =
  ota_seq :: uint32
  seq_label :: "byte list"
  ota_state :: uint32
  crc :: uint32

definition ESP_OTA_IMG_NEW :: uint32 where [simp]: "ESP_OTA_IMG_NEW = 0"
definition ESP_OTA_IMG_PENDING_VERIFY :: uint32 where [simp]: "ESP_OTA_IMG_PENDING_VERIFY = 1"
definition ESP_OTA_IMG_VALID :: uint32 where [simp]: "ESP_OTA_IMG_VALID = 2"
definition ESP_OTA_IMG_INVALID :: uint32 where [simp]: "ESP_OTA_IMG_INVALID = 3"
definition ESP_OTA_IMG_ABORTED :: uint32 where [simp]: "ESP_OTA_IMG_ABORTED = 4"
definition ESP_OTA_IMG_UNDEFINED :: uint32 where [simp]: "ESP_OTA_IMG_UNDEFINED = 0xFFFFFFFF"
definition UINT32_MAX :: uint32 where [simp]: "UINT32_MAX = 0xFFFFFFFF"

text \<open>The 32 bytes of a record.\<close>

definition select_entry :: "flash_mem \<Rightarrow> uint32 \<Rightarrow> esp_ota_select_entry_t" where
  "select_entry m a =
     \<lparr>ota_seq = le32 m a, seq_label = flash_bytes m (a + 4) 20, ota_state = le32 m (a + 24),
      crc = le32 m (a + 28)\<rparr>"

definition u32_bytes :: "uint32 \<Rightarrow> byte list" where
  "u32_bytes w = [ucast w, ucast (drop_bit 8 w), ucast (drop_bit 16 w), ucast (drop_bit 24 w)]"

definition entry_bytes :: "esp_ota_select_entry_t \<Rightarrow> byte list" where
  "entry_bytes e = u32_bytes (ota_seq e) @ seq_label e @ u32_bytes (ota_state e) @ u32_bytes (crc e)"

definition bootloader_common_ota_select_crc :: "(uint32 \<Rightarrow> uint32) \<Rightarrow> esp_ota_select_entry_t \<Rightarrow> uint32" where
  "bootloader_common_ota_select_crc crc32 s = crc32 (ota_seq s)"

definition bootloader_common_ota_select_invalid :: "esp_ota_select_entry_t \<Rightarrow> bool" where
  "bootloader_common_ota_select_invalid s \<longleftrightarrow>
     ota_seq s = UINT32_MAX \<or> ota_state s = ESP_OTA_IMG_INVALID \<or> ota_state s = ESP_OTA_IMG_ABORTED"

definition bootloader_common_ota_select_valid :: "(uint32 \<Rightarrow> uint32) \<Rightarrow> esp_ota_select_entry_t \<Rightarrow> bool" where
  "bootloader_common_ota_select_valid crc32 s \<longleftrightarrow>
     \<not> bootloader_common_ota_select_invalid s \<and> crc s = bootloader_common_ota_select_crc crc32 s"

text \<open>The index of a record, \<open>None\<close> for -1.\<close>

definition bootloader_common_select_otadata ::
  "esp_ota_select_entry_t list \<Rightarrow> bool list \<Rightarrow> bool \<Rightarrow> nat option" where
  "bootloader_common_select_otadata two_otadata valid_two_otadata mx =
     (if valid_two_otadata ! 0 \<and> valid_two_otadata ! 1 then
        (let condition = (if mx then max (ota_seq (two_otadata ! 0)) (ota_seq (two_otadata ! 1))
                          else min (ota_seq (two_otadata ! 0)) (ota_seq (two_otadata ! 1)))
         in if condition = ota_seq (two_otadata ! 0) then Some 0 else Some 1)
      else find (\<lambda>i. valid_two_otadata ! i) [0, 1])"

definition bootloader_common_get_active_otadata ::
  "(uint32 \<Rightarrow> uint32) \<Rightarrow> esp_ota_select_entry_t list \<Rightarrow> nat option" where
  "bootloader_common_get_active_otadata crc32 two_otadata =
     bootloader_common_select_otadata two_otadata
       [bootloader_common_ota_select_valid crc32 (two_otadata ! 0),
        bootloader_common_ota_select_valid crc32 (two_otadata ! 1)] True"

section \<open>Loading the table\<close>

record bootloader_state_t =
  bs_ota_info :: esp_partition_pos_t
  bs_factory :: esp_partition_pos_t
  bs_test :: esp_partition_pos_t
  bs_ota :: "esp_partition_pos_t list"
  app_count :: nat

definition MAX_OTA_SLOTS :: nat where [simp]: "MAX_OTA_SLOTS = 16"
definition FACTORY_INDEX :: int where [simp]: "FACTORY_INDEX = - 1"
definition TEST_APP_INDEX :: int where [simp]: "TEST_APP_INDEX = - 2"
definition INVALID_INDEX :: int where [simp]: "INVALID_INDEX = - 99"

definition no_pos :: esp_partition_pos_t where
  "no_pos = \<lparr>pos_offset = 0, pos_size = 0\<rparr>"

definition bs_zero :: bootloader_state_t where
  "bs_zero = \<lparr>bs_ota_info = no_pos, bs_factory = no_pos, bs_test = no_pos,
     bs_ota = replicate MAX_OTA_SLOTS no_pos, app_count = 0\<rparr>"

definition classify_partition :: "esp_partition_info_t \<Rightarrow> bootloader_state_t \<Rightarrow> bootloader_state_t" where
  "classify_partition e bs =
     (if itype e = 0 then
        (if isubtype e = 0 then bs\<lparr>bs_factory := ipos e\<rparr>
         else if isubtype e = 0x20 then bs\<lparr>bs_test := ipos e\<rparr>
         else if isubtype e AND NOT 0x0F = 0x10
         then bs\<lparr>bs_ota := (bs_ota bs)[unat (isubtype e AND 0x0F) := ipos e], app_count := app_count bs + 1\<rparr>
         else bs)
      else if itype e = 1 \<and> isubtype e = 0 then bs\<lparr>bs_ota_info := ipos e\<rparr>
      else bs)"

definition bootloader_utility_load_partition_table ::
  "(byte list \<Rightarrow> byte list) \<Rightarrow> uint32 \<Rightarrow> bool \<Rightarrow> flash_mem \<Rightarrow> bootloader_state_t option" where
  "bootloader_utility_load_partition_table md5sum chip_size mmap_ok m =
     (if \<not> mmap_ok then None
      else let (err, num_partitions) = esp_partition_table_verify md5sum chip_size m
           in if err \<noteq> ESP_OK then None
              else Some (fold classify_partition (map (entry_at m) [0..<num_partitions]) bs_zero))"

section \<open>Choosing the partition\<close>

definition SPI_SEC_SIZE :: uint32 where [simp]: "SPI_SEC_SIZE = 0x1000"

definition boot_read_otadata ::
  "bool \<Rightarrow> esp_partition_pos_t \<Rightarrow> flash_mem \<Rightarrow> esp_ota_select_entry_t list option" where
  "boot_read_otadata mmap_ok ota_info m =
     (if pos_offset ota_info = 0 then None
      else if pos_size ota_info < 2 * SPI_SEC_SIZE then None
      else if \<not> mmap_ok then None
      else Some [select_entry m (pos_offset ota_info), select_entry m (pos_offset ota_info + SPI_SEC_SIZE)])"

definition otadata_initial :: "(uint32 \<Rightarrow> uint32) \<Rightarrow> esp_ota_select_entry_t \<Rightarrow> bool" where
  "otadata_initial crc32 e \<longleftrightarrow>
     ota_seq e = UINT32_MAX \<or> crc e \<noteq> bootloader_common_ota_select_crc crc32 e"

text \<open>The second component is \<^verbatim>\<open>ota_has_initial_contents\<close>, false unless set here.\<close>

definition bootloader_utility_get_selected_boot_partition ::
  "(uint32 \<Rightarrow> uint32) \<Rightarrow> bool \<Rightarrow> bootloader_state_t \<Rightarrow> flash_mem \<Rightarrow> int \<times> bool" where
  "bootloader_utility_get_selected_boot_partition crc32 mmap_ok bs m =
     (if pos_offset (bs_ota_info bs) = 0 then (FACTORY_INDEX, False)
      else case boot_read_otadata mmap_ok (bs_ota_info bs) m of
          None \<Rightarrow> (INVALID_INDEX, False)
        | Some otadata \<Rightarrow>
            if (bootloader_common_ota_select_invalid (otadata ! 0)
                \<and> bootloader_common_ota_select_invalid (otadata ! 1)) \<or> app_count bs = 0 then
              (if pos_offset (bs_factory bs) \<noteq> 0 then (FACTORY_INDEX, False)
               else (0, otadata_initial crc32 (otadata ! 0) \<and> otadata_initial crc32 (otadata ! 1)))
            else case bootloader_common_get_active_otadata crc32 otadata of
                Some active \<Rightarrow>
                  (int (unat ((ota_seq (otadata ! active) - 1) mod of_nat (app_count bs))), False)
              | None \<Rightarrow> (FACTORY_INDEX, False))"

definition index_to_partition :: "bootloader_state_t \<Rightarrow> int \<Rightarrow> esp_partition_pos_t" where
  "index_to_partition bs index =
     (if index = FACTORY_INDEX then bs_factory bs
      else if index = TEST_APP_INDEX then bs_test bs
      else if index \<ge> 0 \<and> index < int MAX_OTA_SLOTS \<and> index < int (app_count bs)
      then bs_ota bs ! nat index
      else no_pos)"

definition try_load_partition :: "(esp_partition_pos_t \<Rightarrow> bool) \<Rightarrow> esp_partition_pos_t \<Rightarrow> bool" where
  "try_load_partition image_ok pos \<longleftrightarrow> pos_size pos \<noteq> 0 \<and> image_ok pos"

text \<open>The bootloader's own erase and write functions are \<open>d\<close>.\<close>

definition write_otadata ::
  "flash_driver \<Rightarrow> esp_ota_select_entry_t \<Rightarrow> uint32 \<Rightarrow> flash_mem \<Rightarrow> int \<times> flash_mem" where
  "write_otadata d otadata off m =
     (let (err, m1) = esp_flash_erase_region d m (off div SPI_SEC_SIZE * SPI_SEC_SIZE) SPI_SEC_SIZE
      in if err = ESP_OK then esp_flash_write d m1 (entry_bytes otadata) off 32 else (err, m1))"

definition set_actual_ota_seq ::
  "flash_driver \<Rightarrow> (uint32 \<Rightarrow> uint32) \<Rightarrow> bootloader_state_t \<Rightarrow> bool \<Rightarrow> int \<Rightarrow> flash_mem \<Rightarrow> flash_mem" where
  "set_actual_ota_seq d crc32 bs ota_has_initial_contents index m =
     (if index > FACTORY_INDEX \<and> ota_has_initial_contents then
        (let seq = of_int (index + 1);
             otadata = \<lparr>ota_seq = seq, seq_label = replicate 20 0xFF, ota_state = ESP_OTA_IMG_VALID, crc = crc32 seq\<rparr>
         in snd (write_otadata d otadata (pos_offset (bs_ota_info bs)) m))
      else m)"

text \<open>What is started, with the flash at that moment; \<open>None\<close> is a reset.\<close>

definition bootloader_utility_load_boot_image ::
  "flash_driver \<Rightarrow> (uint32 \<Rightarrow> uint32) \<Rightarrow> (esp_partition_pos_t \<Rightarrow> bool) \<Rightarrow> bootloader_state_t \<Rightarrow> bool \<Rightarrow> int
   \<Rightarrow> flash_mem \<Rightarrow> (int \<times> flash_mem) option" where
  "bootloader_utility_load_boot_image d crc32 image_ok bs initial start_index m =
     (if start_index = TEST_APP_INDEX then
        (if try_load_partition image_ok (bs_test bs) then Some (TEST_APP_INDEX, m) else None)
      else
        let order = rev [FACTORY_INDEX..start_index] @ [start_index + 1..int (app_count bs) - 1]
        in case find (\<lambda>i. try_load_partition image_ok (index_to_partition bs i)) order of
             Some index \<Rightarrow> Some (index, set_actual_ota_seq d crc32 bs initial index m)
           | None \<Rightarrow> if try_load_partition image_ok (bs_test bs) then Some (TEST_APP_INDEX, m) else None)"

text \<open>\<^verbatim>\<open>call_start_cpu0\<close>: from the flash to the application.\<close>

definition select_partition_number ::
  "(byte list \<Rightarrow> byte list) \<Rightarrow> uint32 \<Rightarrow> bool \<Rightarrow> (uint32 \<Rightarrow> uint32) \<Rightarrow> flash_mem \<Rightarrow> bootloader_state_t \<times> int \<times> bool" where
  "select_partition_number md5sum chip_size mmap_ok crc32 m =
     (case bootloader_utility_load_partition_table md5sum chip_size mmap_ok m of
        None \<Rightarrow> (bs_zero, INVALID_INDEX, False)
      | Some bs \<Rightarrow> (bs, bootloader_utility_get_selected_boot_partition crc32 mmap_ok bs m))"

definition call_start_cpu0 ::
  "flash_driver \<Rightarrow> (byte list \<Rightarrow> byte list) \<Rightarrow> uint32 \<Rightarrow> bool \<Rightarrow> (uint32 \<Rightarrow> uint32) \<Rightarrow> (esp_partition_pos_t \<Rightarrow> bool)
   \<Rightarrow> flash_mem \<Rightarrow> (int \<times> flash_mem) option" where
  "call_start_cpu0 d md5sum chip_size mmap_ok crc32 image_ok m =
     (let (bs, boot_index, initial) = select_partition_number md5sum chip_size mmap_ok crc32 m
      in if boot_index = INVALID_INDEX then None
         else bootloader_utility_load_boot_image d crc32 image_ok bs initial boot_index m)"

section \<open>Records in flash\<close>

lemma le32_bytes:
  assumes "m a = ucast w" "m (a + 1) = ucast (drop_bit 8 w)" "m (a + 2) = ucast (drop_bit 16 w)"
    "m (a + 3) = ucast (drop_bit 24 (w :: uint32))"
  shows "le32 m a = w"
proof (rule bit_word_eqI)
  fix n assume "n < LENGTH(32)"
  then have n: "n < 32" by simp
  consider "n < 8" | "8 \<le> n \<and> n < 16" | "16 \<le> n \<and> n < 24" | "24 \<le> n" by linarith
  then show "bit (le32 m a) n = bit w n"
    using n by cases (auto simp: le32_def assms bit_or_iff bit_push_bit_iff bit_unsigned_iff bit_drop_bit_eq)
qed

lemma entry_bytes_length: "length (seq_label e) = 20 \<Longrightarrow> length (entry_bytes e) = 32"
  by (simp add: entry_bytes_def u32_bytes_def)

text \<open>A record whose bytes lie at an address is read back from there.\<close>

lemma select_entry_bytes:
  assumes "length (seq_label e) = 20" "\<And>i. i < 32 \<Longrightarrow> m (a + of_nat i) = entry_bytes e ! i"
  shows "select_entry m a = e"
proof -
  have b: "m (a + numeral w) = entry_bytes e ! numeral w" if "numeral w < (32 :: nat)" for w
    using assms(2) [OF that] by simp
  have "m a = entry_bytes e ! 0" "m (a + 1) = entry_bytes e ! 1" using assms(2) [of 0] assms(2) [of 1] by simp_all
  then have "le32 m a = ota_seq e"
    using b [of "Num.Bit0 Num.One"] b [of "Num.Bit1 Num.One"]
    by (intro le32_bytes) (simp_all add: entry_bytes_def u32_bytes_def)
  moreover have "flash_bytes m (a + 4) 20 = seq_label e"
  proof (rule nth_equalityI)
    fix i assume "i < length (flash_bytes m (a + 4) 20)"
    then have i: "i < 20" by (simp add: flash_bytes_def)
    then have "m (a + of_nat (4 + i)) = entry_bytes e ! (4 + i)" by (intro assms(2)) simp
    then show "flash_bytes m (a + 4) 20 ! i = seq_label e ! i"
      using i assms(1) by (simp add: flash_bytes_def entry_bytes_def u32_bytes_def nth_append add.assoc)
  qed (simp add: flash_bytes_def assms(1))
  moreover have "le32 m (a + 24) = ota_state e"
    by (rule le32_bytes) (use assms(1) in \<open>simp_all add: add.assoc b entry_bytes_def u32_bytes_def nth_append\<close>)
  moreover have "le32 m (a + 28) = crc e"
    by (rule le32_bytes) (use assms(1) in \<open>simp_all add: add.assoc b entry_bytes_def u32_bytes_def nth_append\<close>)
  ultimately show ?thesis by (simp add: select_entry_def)
qed

lemma select_entry_cong:
  assumes "\<And>i. i < 32 \<Longrightarrow> m (a + of_nat i) = m' (a + of_nat i)"
  shows "select_entry m a = select_entry m' a"
proof -
  have b: "m (a + numeral w) = m' (a + numeral w)" if "numeral w < (32 :: nat)" for w
    using assms [OF that] by simp
  have "flash_bytes m (a + 4) 20 = flash_bytes m' (a + 4) 20"
  proof (rule flash_bytes_cong)
    fix j :: nat assume "j < 20"
    then show "m (a + 4 + of_nat j) = m' (a + 4 + of_nat j)"
      using assms [of "4 + j"] by (simp add: add.assoc)
  qed
  moreover have "m a = m' a" "m (a + 1) = m' (a + 1)" using assms [of 0] assms [of 1] by simp_all
  ultimately show ?thesis using b by (simp add: select_entry_def le32_def add.assoc)
qed

lemma select_entry_label: "length (seq_label (select_entry m a)) = 20"
  by (simp add: select_entry_def flash_bytes_def)

end
