(* ===== verification/Esp_Ota.thy ===== *)
theory Esp_Ota
  imports Bootloader
begin

text \<open>
  ESP-IDF's upgrade functions, \<^verbatim>\<open>esp-idf/components/app_update/esp_ota_ops.c\<close>: sessions that write an
  image into a partition, and the selection records that tell the bootloader which partition to
  start. The record \<open>esp_ota\<close> is the flash with the loaded partition list, the list of open sessions
  and the last handle. The configuration has neither rollback nor anti-rollback.

  The checksum, the mapping, the verification of images, the allocation of sessions and the address
  the program runs from are parameters (\<open>ota_env\<close>), the chip is a driver of \<open>Flash\<close>. A call that aborts
  or that fails an assertion is \<open>None\<close>.
\<close>

section \<open>State\<close>

record ota_ops_entry =
  ehandle :: uint32
  part :: esp_partition_t
  need_erase :: bool
  wrote_size :: uint32
  partial_bytes :: nat
  partial_data :: "byte list"

record ota_env =
  crc32 :: "uint32 \<Rightarrow> uint32"
  otadata_mmap :: int
  image_verify :: "flash_mem \<Rightarrow> esp_partition_pos_t \<Rightarrow> bool"
  entry_calloc :: "uint32 \<Rightarrow> bool"
  phys_offs :: uint32
  flash_encrypted :: bool

record esp_ota =
  fl :: flash
  s_ota_ops_entries :: "ota_ops_entry list"
  s_ota_ops_last_handle :: uint32

definition ESP_FAIL :: int where [simp]: "ESP_FAIL = -1"
definition ESP_ERR_OTA_PARTITION_CONFLICT :: int where [simp]: "ESP_ERR_OTA_PARTITION_CONFLICT = 0x1501"
definition ESP_ERR_OTA_VALIDATE_FAILED :: int where [simp]: "ESP_ERR_OTA_VALIDATE_FAILED = 0x1503"
definition ESP_ERR_OTA_ROLLBACK_FAILED :: int where [simp]: "ESP_ERR_OTA_ROLLBACK_FAILED = 0x1505"
definition OTA_SIZE_UNKNOWN :: uint32 where [simp]: "OTA_SIZE_UNKNOWN = 0xffffffff"
definition OTA_WITH_SEQUENTIAL_WRITES :: uint32 where [simp]: "OTA_WITH_SEQUENTIAL_WRITES = 0xfffffffe"
definition ESP_IMAGE_HEADER_MAGIC :: byte where [simp]: "ESP_IMAGE_HEADER_MAGIC = 0xE9"
definition ESP_PARTITION_SUBTYPE_APP_OTA_MIN :: nat where [simp]: "ESP_PARTITION_SUBTYPE_APP_OTA_MIN = 0x10"
definition ESP_PARTITION_SUBTYPE_APP_OTA_MAX :: nat where [simp]: "ESP_PARTITION_SUBTYPE_APP_OTA_MAX = 0x20"

definition SUB_TYPE_ID :: "nat \<Rightarrow> uint32" where
  "SUB_TYPE_ID i = of_nat i AND 0x0F"

definition is_ota_partition :: "esp_partition_t \<Rightarrow> bool" where
  "is_ota_partition p \<longleftrightarrow> ptype p = ESP_PARTITION_TYPE_APP \<and>
     subtype p \<ge> ESP_PARTITION_SUBTYPE_APP_OTA_MIN \<and> subtype p < ESP_PARTITION_SUBTYPE_APP_OTA_MAX"

definition find_app :: "nat \<Rightarrow> flash \<Rightarrow> esp_partition_t option" where
  "find_app sub f = esp_partition_find_first (Some ESP_PARTITION_TYPE_APP) (Some sub) None f"

definition find_otadata :: "flash \<Rightarrow> esp_partition_t option" where
  "find_otadata f = esp_partition_find_first (Some ESP_PARTITION_TYPE_DATA) (Some 0) None f"

text \<open>The otadata partition with its two records.\<close>

definition read_otadata :: "ota_env \<Rightarrow> flash \<Rightarrow> (esp_partition_t \<times> esp_ota_select_entry_t list) option" where
  "read_otadata env f =
     (case find_otadata f of
        None \<Rightarrow> None
      | Some p \<Rightarrow>
          let (err, a) = esp_partition_mmap (otadata_mmap env) p 0 (psize p)
          in if err \<noteq> ESP_OK then None
             else Some (p, [select_entry (mem f) a, select_entry (mem f) (a + SPI_FLASH_SEC_SIZE)]))"

definition image_validate :: "ota_env \<Rightarrow> esp_partition_t \<Rightarrow> flash \<Rightarrow> int" where
  "image_validate env p f =
     (if \<not> image_verify env (mem f) \<lparr>pos_offset = address p, pos_size = psize p\<rparr>
      then ESP_ERR_OTA_VALIDATE_FAILED else ESP_OK)"

definition set_new_state_otadata :: uint32 where
  "set_new_state_otadata = ESP_OTA_IMG_UNDEFINED"

text \<open>The answer is computed once and kept by the code; it does not change while the program runs.\<close>

definition esp_ota_get_running_partition :: "ota_env \<Rightarrow> flash \<Rightarrow> esp_partition_t option" where
  "esp_ota_get_running_partition env f =
     find (\<lambda>p. address p \<le> phys_offs env \<and> address p + psize p > phys_offs env)
       (esp_partition_find (Some ESP_PARTITION_TYPE_APP) None None f)"

section \<open>Sessions\<close>

definition esp_ota_begin ::
  "ota_env \<Rightarrow> flash_driver \<Rightarrow> esp_partition_t option \<Rightarrow> uint32 \<Rightarrow> esp_ota \<Rightarrow> ((int \<times> uint32) \<times> esp_ota) option" where
  "esp_ota_begin env d target image_size s =
     (case target of
        None \<Rightarrow> Some ((ESP_ERR_INVALID_ARG, 0), s)
      | Some p0 \<Rightarrow>
          (case esp_partition_verify p0 (fl s) of
             None \<Rightarrow> Some ((ESP_ERR_NOT_FOUND, 0), s)
           | Some p \<Rightarrow>
               if \<not> is_ota_partition p then Some ((ESP_ERR_INVALID_ARG, 0), s)
               else case esp_ota_get_running_partition env (fl s) of
                   None \<Rightarrow> None
                 | Some running \<Rightarrow>
                     if p = running then Some ((ESP_ERR_OTA_PARTITION_CONFLICT, 0), s)
                     else
                       let (ret, f1) =
                             (if image_size \<noteq> OTA_WITH_SEQUENTIAL_WRITES then
                                (if image_size = 0 \<or> image_size = OTA_SIZE_UNKNOWN
                                 then esp_partition_erase_range d p 0 (psize p) (fl s)
                                 else esp_partition_erase_range d p 0
                                        ((image_size + SPI_FLASH_SEC_SIZE - 1) AND NOT (SPI_FLASH_SEC_SIZE - 1)) (fl s))
                              else (ESP_OK, fl s));
                           s1 = s\<lparr>fl := f1\<rparr>;
                           h = s_ota_ops_last_handle s + 1
                       in if ret \<noteq> ESP_OK then Some ((ret, 0), s1)
                          else if \<not> entry_calloc env h then Some ((ESP_ERR_NO_MEM, 0), s1)
                          else Some ((ESP_OK, h),
                            s1\<lparr>s_ota_ops_last_handle := h,
                               s_ota_ops_entries :=
                                 \<lparr>ehandle = h, part = p, need_erase = (image_size = OTA_WITH_SEQUENTIAL_WRITES),
                                  wrote_size = 0, partial_bytes = 0, partial_data = replicate 16 0\<rparr>
                                 # s_ota_ops_entries s1\<rparr>)))"

definition get_ota_ops_entry :: "uint32 \<Rightarrow> esp_ota \<Rightarrow> ota_ops_entry option" where
  "get_ota_ops_entry h s = find (\<lambda>it. ehandle it = h) (s_ota_ops_entries s)"

text \<open>The first entry with the handle is changed or removed.\<close>

fun set_entry :: "ota_ops_entry \<Rightarrow> ota_ops_entry list \<Rightarrow> ota_ops_entry list" where
  "set_entry it [] = []"
| "set_entry it (e # es) = (if ehandle e = ehandle it then it # es else e # set_entry it es)"

fun remove_entry :: "uint32 \<Rightarrow> ota_ops_entry list \<Rightarrow> ota_ops_entry list" where
  "remove_entry h [] = []"
| "remove_entry h (e # es) = (if ehandle e = h then es else e # remove_entry h es)"

definition erase_for_write :: "flash_driver \<Rightarrow> ota_ops_entry \<Rightarrow> uint32 \<Rightarrow> flash \<Rightarrow> int \<times> flash" where
  "erase_for_write d it n f =
     (if need_erase it then
        (let first_sector = wrote_size it div SPI_FLASH_SEC_SIZE;
             last_sector = (wrote_size it + n) div SPI_FLASH_SEC_SIZE
         in if wrote_size it mod SPI_FLASH_SEC_SIZE = 0
            then esp_partition_erase_range d (part it) (wrote_size it)
                   ((last_sector - first_sector + 1) * SPI_FLASH_SEC_SIZE) f
            else if first_sector \<noteq> last_sector
            then esp_partition_erase_range d (part it) ((first_sector + 1) * SPI_FLASH_SEC_SIZE)
                   ((last_sector - first_sector) * SPI_FLASH_SEC_SIZE) f
            else (ESP_OK, f))
      else (ESP_OK, f))"

text \<open>Writing behind what was written.\<close>

definition write_rest ::
  "flash_driver \<Rightarrow> ota_ops_entry \<Rightarrow> byte list \<Rightarrow> uint32 \<Rightarrow> esp_ota \<Rightarrow> int \<times> esp_ota" where
  "write_rest d it data_bytes n s =
     (let (ret, f1) = esp_partition_write d (part it) (wrote_size it) data_bytes n (fl s);
          it1 = (if ret = ESP_OK then it\<lparr>wrote_size := wrote_size it + n\<rparr> else it)
      in (ret, s\<lparr>fl := f1, s_ota_ops_entries := set_entry it1 (s_ota_ops_entries s)\<rparr>))"

text \<open>With encryption only blocks of 16 bytes are written; the remainder waits in the session.\<close>

definition write_blocks ::
  "flash_driver \<Rightarrow> ota_ops_entry \<Rightarrow> byte list \<Rightarrow> uint32 \<Rightarrow> esp_ota \<Rightarrow> int \<times> esp_ota" where
  "write_blocks d it data_bytes n s =
     (let k = unat n mod 16
      in write_rest d
           (it\<lparr>partial_bytes := k,
               partial_data := (if k \<noteq> 0 then take k (drop (unat n - k) data_bytes) @ drop k (partial_data it)
                                else partial_data it)\<rparr>)
           data_bytes (n - of_nat k) s)"

definition esp_ota_write ::
  "ota_env \<Rightarrow> flash_driver \<Rightarrow> uint32 \<Rightarrow> byte list option \<Rightarrow> uint32 \<Rightarrow> esp_ota \<Rightarrow> int \<times> esp_ota" where
  "esp_ota_write env d handle data n s =
     (case data of
        None \<Rightarrow> (ESP_ERR_INVALID_ARG, s)
      | Some data_bytes \<Rightarrow>
          (case get_ota_ops_entry handle s of
             None \<Rightarrow> (ESP_ERR_INVALID_ARG, s)
           | Some it \<Rightarrow>
               let (ret, f1) = erase_for_write d it n (fl s); s1 = s\<lparr>fl := f1\<rparr>
               in if ret \<noteq> ESP_OK then (ret, s1)
                  else if wrote_size it = 0 \<and> partial_bytes it = 0 \<and> n > 0 \<and> data_bytes ! 0 \<noteq> ESP_IMAGE_HEADER_MAGIC
                  then (ESP_ERR_OTA_VALIDATE_FAILED, s1)
                  else if \<not> flash_encrypted env then write_rest d it data_bytes n s1
                  else if partial_bytes it = 0 then write_blocks d it data_bytes n s1
                  else
                    let copy_len = min (16 - partial_bytes it) (unat n);
                        it1 = it\<lparr>partial_data := take (partial_bytes it) (partial_data it) @ take copy_len data_bytes
                                   @ drop (partial_bytes it + copy_len) (partial_data it),
                                 partial_bytes := partial_bytes it + copy_len\<rparr>;
                        s2 = s1\<lparr>s_ota_ops_entries := set_entry it1 (s_ota_ops_entries s1)\<rparr>
                    in if partial_bytes it1 \<noteq> 16 then (ESP_OK, s2)
                       else
                         let (ret1, f2) = esp_partition_write d (part it1) (wrote_size it1) (partial_data it1) 16 (fl s2);
                             s3 = s2\<lparr>fl := f2\<rparr>
                         in if ret1 \<noteq> ESP_OK then (ret1, s3)
                            else write_blocks d
                                   (it1\<lparr>partial_bytes := 0, partial_data := replicate 16 0xFF,
                                        wrote_size := wrote_size it1 + 16\<rparr>)
                                   (drop copy_len data_bytes) (n - of_nat copy_len) s3))"

definition esp_ota_write_with_offset ::
  "ota_env \<Rightarrow> flash_driver \<Rightarrow> uint32 \<Rightarrow> byte list option \<Rightarrow> uint32 \<Rightarrow> uint32 \<Rightarrow> esp_ota \<Rightarrow> (int \<times> esp_ota) option" where
  "esp_ota_write_with_offset env d handle data n off s =
     (case data of
        None \<Rightarrow> Some (ESP_ERR_INVALID_ARG, s)
      | Some data_bytes \<Rightarrow>
          (case get_ota_ops_entry handle s of
             None \<Rightarrow> Some (ESP_ERR_INVALID_ARG, s)
           | Some it \<Rightarrow>
               if need_erase it then None
               else if flash_encrypted env \<and> n mod 16 \<noteq> 0 then Some (ESP_ERR_INVALID_ARG, s)
               else
                 let (ret, f1) = esp_partition_write d (part it) off data_bytes n (fl s);
                     it1 = (if ret = ESP_OK then it\<lparr>wrote_size := wrote_size it + n\<rparr> else it)
                 in Some (ret, s\<lparr>fl := f1, s_ota_ops_entries := set_entry it1 (s_ota_ops_entries s)\<rparr>)))"

definition esp_ota_abort :: "uint32 \<Rightarrow> esp_ota \<Rightarrow> int \<times> esp_ota" where
  "esp_ota_abort handle s =
     (case get_ota_ops_entry handle s of
        None \<Rightarrow> (ESP_ERR_NOT_FOUND, s)
      | Some it \<Rightarrow> (ESP_OK, s\<lparr>s_ota_ops_entries := remove_entry handle (s_ota_ops_entries s)\<rparr>))"

definition esp_ota_end :: "ota_env \<Rightarrow> flash_driver \<Rightarrow> uint32 \<Rightarrow> esp_ota \<Rightarrow> int \<times> esp_ota" where
  "esp_ota_end env d handle s =
     (case get_ota_ops_entry handle s of
        None \<Rightarrow> (ESP_ERR_NOT_FOUND, s)
      | Some it \<Rightarrow>
          let cleanup = (\<lambda>ret f. (ret, s\<lparr>fl := f, s_ota_ops_entries := remove_entry handle (s_ota_ops_entries s)\<rparr>))
          in if wrote_size it = 0 then cleanup ESP_ERR_INVALID_ARG (fl s)
             else
               let (ret, f1) = (if partial_bytes it > 0
                                then esp_partition_write d (part it) (wrote_size it) (partial_data it) 16 (fl s)
                                else (ESP_OK, fl s))
               in if ret \<noteq> ESP_OK then cleanup ESP_ERR_INVALID_STATE f1
                  else if \<not> image_verify env (mem f1) \<lparr>pos_offset = address (part it), pos_size = psize (part it)\<rparr>
                  then cleanup ESP_ERR_OTA_VALIDATE_FAILED f1
                  else cleanup ESP_OK f1)"

section \<open>Selection records\<close>

definition rewrite_ota_seq ::
  "ota_env \<Rightarrow> flash_driver \<Rightarrow> esp_ota_select_entry_t list \<Rightarrow> uint32 \<Rightarrow> nat \<Rightarrow> esp_partition_t \<Rightarrow> flash \<Rightarrow> int \<times> flash" where
  "rewrite_ota_seq env d two_otadata seq sec_id ota_data_partition f =
     (if sec_id > 1 then (ESP_ERR_INVALID_ARG, f)
      else
        let e1 = (two_otadata ! sec_id)\<lparr>ota_seq := seq\<rparr>;
            e2 = e1\<lparr>crc := bootloader_common_ota_select_crc (crc32 env) e1\<rparr>;
            off = of_nat sec_id * SPI_FLASH_SEC_SIZE;
            (ret, f1) = esp_partition_erase_range d ota_data_partition off SPI_FLASH_SEC_SIZE f
        in if ret \<noteq> ESP_OK then (ret, f1)
           else esp_partition_write d ota_data_partition off (entry_bytes e2) 32 f1)"

text \<open>The number of consecutive OTA partitions from the first on; more than 16 fail an assertion.\<close>

fun count_apps :: "flash \<Rightarrow> nat \<Rightarrow> nat \<Rightarrow> nat option" where
  "count_apps f k 0 = (if find_app (ESP_PARTITION_SUBTYPE_APP_OTA_MIN + k) f = None then Some k else None)"
| "count_apps f k (Suc n) =
     (if find_app (ESP_PARTITION_SUBTYPE_APP_OTA_MIN + k) f = None then Some k else count_apps f (Suc k) n)"

definition esp_ota_get_app_partition_count :: "flash \<Rightarrow> nat option" where
  "esp_ota_get_app_partition_count f = count_apps f 0 16"

text \<open>The loop that looks for the next sequence number of a slot: \<open>c\<close> is the slot's residue. The
  arithmetic is that of 32 bits.\<close>

partial_function (option) next_seq :: "uint32 \<Rightarrow> uint32 \<Rightarrow> uint32 \<Rightarrow> uint32 \<Rightarrow> uint32 option" where
  "next_seq seq c n i = (if seq > c + i * n then next_seq seq c n (i + 1) else Some (c + i * n))"

definition esp_rewrite_ota_data ::
  "ota_env \<Rightarrow> flash_driver \<Rightarrow> nat \<Rightarrow> flash \<Rightarrow> (int \<times> flash) option" where
  "esp_rewrite_ota_data env d sub f =
     (case read_otadata env f of
        None \<Rightarrow> Some (ESP_ERR_NOT_FOUND, f)
      | Some (otadata_partition, otadata) \<Rightarrow>
          (case esp_ota_get_app_partition_count f of
             None \<Rightarrow> None
           | Some ota_app_count \<Rightarrow>
               let n = of_nat ota_app_count :: uint32; x = SUB_TYPE_ID sub
               in if x \<ge> n then Some (ESP_ERR_INVALID_ARG, f)
                  else case bootloader_common_get_active_otadata (crc32 env) otadata of
                      Some active \<Rightarrow>
                        (case next_seq (ota_seq (otadata ! active)) ((x + 1) mod n) n 0 of
                           None \<Rightarrow> None
                         | Some seq \<Rightarrow>
                             let next = 1 - active;
                                 otadata1 = otadata[next := (otadata ! next)\<lparr>ota_state := set_new_state_otadata\<rparr>]
                             in Some (rewrite_ota_seq env d otadata1 seq next otadata_partition f))
                    | None \<Rightarrow>
                        let otadata1 = otadata[0 := (otadata ! 0)\<lparr>ota_state := set_new_state_otadata\<rparr>]
                        in Some (rewrite_ota_seq env d otadata1 (x + 1) 0 otadata_partition f)))"

definition esp_ota_set_boot_partition ::
  "ota_env \<Rightarrow> flash_driver \<Rightarrow> esp_partition_t option \<Rightarrow> flash \<Rightarrow> (int \<times> flash) option" where
  "esp_ota_set_boot_partition env d target f =
     (case target of
        None \<Rightarrow> Some (ESP_ERR_INVALID_ARG, f)
      | Some p \<Rightarrow>
          if image_validate env p f \<noteq> ESP_OK then Some (ESP_ERR_OTA_VALIDATE_FAILED, f)
          else if ptype p = ESP_PARTITION_TYPE_APP then
            (if subtype p = 0 then
               (case find_otadata f of
                  Some q \<Rightarrow> Some (esp_partition_erase_range d q 0 (psize q) f)
                | None \<Rightarrow> Some (ESP_ERR_NOT_FOUND, f))
             else esp_rewrite_ota_data env d (subtype p) f)
          else Some (ESP_ERR_INVALID_ARG, f))"

definition find_default_boot_partition :: "flash \<Rightarrow> esp_partition_t option" where
  "find_default_boot_partition f =
     (case find_app 0 f of
        Some p \<Rightarrow> Some p
      | None \<Rightarrow>
          (case List.map_filter (\<lambda>t. find_app t f)
                  [ESP_PARTITION_SUBTYPE_APP_OTA_MIN..<ESP_PARTITION_SUBTYPE_APP_OTA_MAX] of
             p # _ \<Rightarrow> Some p
           | [] \<Rightarrow> find_app 0x20 f))"

text \<open>The outer option tells an abort, the inner one \<^verbatim>\<open>NULL\<close>.\<close>

definition esp_ota_get_boot_partition :: "ota_env \<Rightarrow> flash \<Rightarrow> esp_partition_t option option" where
  "esp_ota_get_boot_partition env f =
     (case read_otadata env f of
        None \<Rightarrow> Some None
      | Some (_, otadata) \<Rightarrow>
          (case esp_ota_get_app_partition_count f of
             None \<Rightarrow> None
           | Some ota_app_count \<Rightarrow>
               if (bootloader_common_ota_select_invalid (otadata ! 0)
                   \<and> bootloader_common_ota_select_invalid (otadata ! 1)) \<or> ota_app_count = 0
               then Some (find_default_boot_partition f)
               else case bootloader_common_get_active_otadata (crc32 env) otadata of
                   Some active \<Rightarrow>
                     let ota_slot = unat ((ota_seq (otadata ! active) - 1) mod of_nat ota_app_count)
                     in Some (find_app (ESP_PARTITION_SUBTYPE_APP_OTA_MIN + ota_slot) f)
                 | None \<Rightarrow> Some (find_default_boot_partition f)))"

text \<open>The walk over the slots: the partition behind \<open>start_from\<close>, else the first one.\<close>

fun after_partition :: "esp_partition_t \<Rightarrow> bool \<Rightarrow> esp_partition_t list \<Rightarrow> esp_partition_t option" where
  "after_partition start_from next_is_result [] = None"
| "after_partition start_from next_is_result (p # ps) =
     (if p = start_from then after_partition start_from True ps
      else if next_is_result then Some p
      else after_partition start_from next_is_result ps)"

definition esp_ota_get_next_update_partition ::
  "ota_env \<Rightarrow> esp_partition_t option \<Rightarrow> flash \<Rightarrow> esp_partition_t option option" where
  "esp_ota_get_next_update_partition env start_from f =
     (case (case start_from of None \<Rightarrow> esp_ota_get_running_partition env f | Some p \<Rightarrow> esp_partition_verify p f) of
        None \<Rightarrow> None
      | Some start \<Rightarrow>
          let slots = List.map_filter (\<lambda>t. find_app t f)
                [ESP_PARTITION_SUBTYPE_APP_OTA_MIN..<ESP_PARTITION_SUBTYPE_APP_OTA_MAX]
          in Some (case after_partition start False slots of
               Some p \<Rightarrow> Some p
             | None \<Rightarrow> (case slots of [] \<Rightarrow> None | p # _ \<Rightarrow> Some p)))"

section \<open>State of images\<close>

definition slot_of :: "esp_ota_select_entry_t \<Rightarrow> nat \<Rightarrow> nat" where
  "slot_of e ota_app_count = unat ((ota_seq e - 1) mod of_nat ota_app_count)"

definition esp_ota_check_rollback_is_possible :: "ota_env \<Rightarrow> flash \<Rightarrow> bool option" where
  "esp_ota_check_rollback_is_possible env f =
     (case read_otadata env f of
        None \<Rightarrow> Some False
      | Some (_, otadata) \<Rightarrow>
          (case esp_ota_get_app_partition_count f of
             None \<Rightarrow> None
           | Some n \<Rightarrow>
               if n = 0 then Some False
               else
                 let valid = map (bootloader_common_ota_select_valid (crc32 env)) otadata
                 in (case bootloader_common_select_otadata otadata valid True of
                       None \<Rightarrow> Some False
                     | Some active \<Rightarrow>
                         let last = 1 - active;
                             loads = (\<lambda>p. case p of None \<Rightarrow> False | Some q \<Rightarrow> image_validate env q f = ESP_OK)
                         in Some (if \<not> valid ! last then loads (find_app 0 f)
                            else loads (find_app (ESP_PARTITION_SUBTYPE_APP_OTA_MIN + slot_of (otadata ! last) n) f)))))"

text \<open>The boolean tells whether the chip restarts.\<close>

definition esp_ota_current_ota_is_workable ::
  "ota_env \<Rightarrow> flash_driver \<Rightarrow> bool \<Rightarrow> flash \<Rightarrow> ((int \<times> bool) \<times> flash) option" where
  "esp_ota_current_ota_is_workable env d valid f =
     (case read_otadata env f of
        None \<Rightarrow> Some ((ESP_ERR_NOT_FOUND, False), f)
      | Some (otadata_partition, otadata) \<Rightarrow>
          (case bootloader_common_get_active_otadata (crc32 env) otadata of
             None \<Rightarrow> Some ((ESP_FAIL, False), f)
           | Some active \<Rightarrow>
               (case esp_ota_get_app_partition_count f of
                  None \<Rightarrow> None
                | Some n \<Rightarrow>
                    let mark = (\<lambda>st. rewrite_ota_seq env d (otadata[active := (otadata ! active)\<lparr>ota_state := st\<rparr>])
                                  (ota_seq (otadata ! active)) active otadata_partition f)
                    in if n = 0 then Some ((ESP_FAIL, False), f)
                       else if valid \<and> ota_state (otadata ! active) \<noteq> ESP_OTA_IMG_VALID
                       then (let (err, f1) = mark ESP_OTA_IMG_VALID in Some ((err, False), f1))
                       else if \<not> valid then
                         (case esp_ota_check_rollback_is_possible env f of
                            None \<Rightarrow> None
                          | Some possible \<Rightarrow>
                              if \<not> possible then Some ((ESP_ERR_OTA_ROLLBACK_FAILED, False), f)
                              else let (err, f1) = mark ESP_OTA_IMG_INVALID
                                   in if err \<noteq> ESP_OK then Some ((err, False), f1) else Some ((ESP_OK, True), f1))
                       else Some ((ESP_OK, False), f))))"

definition esp_ota_mark_app_valid_cancel_rollback where
  "esp_ota_mark_app_valid_cancel_rollback env d f = esp_ota_current_ota_is_workable env d True f"

definition esp_ota_mark_app_invalid_rollback_and_reboot where
  "esp_ota_mark_app_invalid_rollback_and_reboot env d f = esp_ota_current_ota_is_workable env d False f"

definition check_invalid_otadata :: "ota_env \<Rightarrow> esp_ota_select_entry_t \<Rightarrow> bool" where
  "check_invalid_otadata env s \<longleftrightarrow> ota_seq s \<noteq> UINT32_MAX \<and>
     crc s = bootloader_common_ota_select_crc (crc32 env) s \<and>
     (ota_state s = ESP_OTA_IMG_INVALID \<or> ota_state s = ESP_OTA_IMG_ABORTED)"

definition get_last_invalid_otadata :: "ota_env \<Rightarrow> esp_ota_select_entry_t list \<Rightarrow> nat option" where
  "get_last_invalid_otadata env two_otadata =
     bootloader_common_select_otadata two_otadata
       [check_invalid_otadata env (two_otadata ! 0), check_invalid_otadata env (two_otadata ! 1)] False"

definition esp_ota_get_last_invalid_partition :: "ota_env \<Rightarrow> flash \<Rightarrow> esp_partition_t option option" where
  "esp_ota_get_last_invalid_partition env f =
     (case read_otadata env f of
        None \<Rightarrow> Some None
      | Some (_, otadata) \<Rightarrow>
          (case esp_ota_get_app_partition_count f of
             None \<Rightarrow> None
           | Some n \<Rightarrow>
               (case get_last_invalid_otadata env otadata of
                  None \<Rightarrow> Some None
                | Some i \<Rightarrow>
                    if n = 0 then Some None
                    else case find_app (ESP_PARTITION_SUBTYPE_APP_OTA_MIN + slot_of (otadata ! i) n) f of
                        None \<Rightarrow> Some None
                      | Some p \<Rightarrow> Some (if image_validate env p f \<noteq> ESP_OK then None else Some p))))"

definition esp_ota_get_state_partition ::
  "ota_env \<Rightarrow> esp_partition_t option \<Rightarrow> flash \<Rightarrow> (int \<times> uint32) option" where
  "esp_ota_get_state_partition env target f =
     (case target of
        None \<Rightarrow> Some (ESP_ERR_INVALID_ARG, 0)
      | Some p \<Rightarrow>
          if \<not> is_ota_partition p then Some (ESP_ERR_NOT_SUPPORTED, 0)
          else case esp_ota_get_app_partition_count f of
              None \<Rightarrow> None
            | Some n \<Rightarrow>
                (case read_otadata env f of
                   None \<Rightarrow> Some (ESP_ERR_NOT_FOUND, 0)
                 | Some (_, otadata) \<Rightarrow>
                     if n = 0 then Some (ESP_ERR_NOT_FOUND, 0)
                     else case find (\<lambda>e. slot_of e n = subtype p - ESP_PARTITION_SUBTYPE_APP_OTA_MIN
                              \<and> crc e = bootloader_common_ota_select_crc (crc32 env) e) otadata of
                         None \<Rightarrow> Some (ESP_ERR_NOT_FOUND, 0)
                       | Some e \<Rightarrow> Some (ESP_OK, ota_state e)))"

definition esp_ota_erase_last_boot_app_partition ::
  "ota_env \<Rightarrow> flash_driver \<Rightarrow> flash \<Rightarrow> (int \<times> flash) option" where
  "esp_ota_erase_last_boot_app_partition env d f =
     (case read_otadata env f of
        None \<Rightarrow> Some (ESP_FAIL, f)
      | Some (ota_data_partition, otadata) \<Rightarrow>
          (case esp_ota_get_app_partition_count f of
             None \<Rightarrow> None
           | Some n \<Rightarrow>
               (case bootloader_common_get_active_otadata (crc32 env) otadata of
                  None \<Rightarrow> Some (ESP_FAIL, f)
                | Some active \<Rightarrow>
                    let inactive = 1 - active; e = otadata ! inactive
                    in if n = 0 then Some (ESP_FAIL, f)
                       else if ota_seq e = UINT32_MAX \<or> crc e \<noteq> bootloader_common_ota_select_crc (crc32 env) e
                       then Some (ESP_FAIL, f)
                       else case find_app (ESP_PARTITION_SUBTYPE_APP_OTA_MIN + slot_of e n) f of
                           None \<Rightarrow> Some (ESP_FAIL, f)
                         | Some p \<Rightarrow>
                             (case esp_ota_get_running_partition env f of
                                None \<Rightarrow> None
                              | Some running \<Rightarrow>
                                  if p = running then Some (ESP_FAIL, f)
                                  else let (err, f1) = esp_partition_erase_range d p 0 (psize p) f
                                       in if err \<noteq> ESP_OK then Some (err, f1)
                                          else Some (esp_partition_erase_range d ota_data_partition
                                            (of_nat inactive * SPI_FLASH_SEC_SIZE) SPI_FLASH_SEC_SIZE f1)))))"

end
