(* ===== verification/Boot_Switch.thy ===== *)
theory Boot_Switch
  imports Esp_Ota "HOL-Library.Multiset"
begin

text \<open>
  What the upgrade functions (\<open>Esp_Ota\<close>) and the bootloader (\<open>Bootloader\<close>) do together. The lemmas go
  from the search for the next sequence number and the record written with it, over the two readings
  of the partition table (\<open>boot_layout\<close> says that the table is accepted, loaded and has its slots
  numbered), to the selection after a switch, after an interrupted switch, and without any record.
\<close>

section \<open>Sequence numbers\<close>

lemma next_seq_from:
  assumes "0 < unat n" "unat seq + unat n < 2 ^ 32" "unat c + unat i * unat n < 2 ^ 32"
  shows "\<exists>j. next_seq seq c n i = Some (of_nat (unat c + j * unat n)) \<and> unat seq \<le> unat c + j * unat n \<and>
    (j = unat i \<or> unat c + j * unat n < unat seq + unat n)"
  using assms(3)
proof (induction "unat seq - (unat c + unat i * unat n)" arbitrary: i rule: less_induct)
  case less
  have v: "unat (c + i * n) = unat c + unat i * unat n"
    using less.prems unat_mult_lem [of i n] by (subst unat_plus_exact) auto
  show ?case
  proof (cases "seq > c + i * n")
    case False
    then have "next_seq seq c n i = Some (of_nat (unat c + unat i * unat n))" by (subst next_seq.simps) simp
    moreover have "unat seq \<le> unat c + unat i * unat n" using False unfolding word_less_nat_alt v by simp
    ultimately show ?thesis by (intro exI [of _ "unat i"]) simp
  next
    case True
    then have lt: "unat c + unat i * unat n < unat seq" using v by (simp add: word_less_nat_alt)
    have "unat i \<le> unat i * unat n" using assms(1) by simp
    then have "unat i + 1 < 2 ^ 32" using lt unat_less_32 [of seq] by linarith
    then have i1: "unat (i + 1) = unat i + 1" by (subst unat_plus_exact) simp_all
    have big: "unat c + unat (i + 1) * unat n < unat seq + unat n" using lt i1 by simp
    have d: "unat seq - (unat c + unat (i + 1) * unat n) < unat seq - (unat c + unat i * unat n)"
      using lt i1 assms(1) by (intro diff_less_mono2) simp_all
    have "unat c + unat (i + 1) * unat n < 2 ^ 32" using big assms(2) by (rule order.strict_trans)
    from less.hyps [OF d this] obtain j where j: "next_seq seq c n (i + 1) = Some (of_nat (unat c + j * unat n))"
      "unat seq \<le> unat c + j * unat n" "j = unat (i + 1) \<or> unat c + j * unat n < unat seq + unat n"
      by blast
    moreover have "next_seq seq c n i = next_seq seq c n (i + 1)" using True by (subst next_seq.simps) simp
    ultimately show ?thesis using big j(3) by (intro exI [of _ j] conjI) (auto simp: j(2))
  qed
qed

lemma next_seq_ok:
  assumes "0 < unat n" "c < n" "unat seq + unat n < 2 ^ 32" "0 < unat seq"
  obtains v where "next_seq seq c n 0 = Some v" "unat v mod unat n = unat c" "unat seq \<le> unat v" "unat v < unat seq + unat n"
proof -
  have cn: "unat c < unat n" using assms(2) by (simp add: word_less_nat_alt)
  have "unat c + unat (0 :: uint32) * unat n < 2 ^ 32" using unat_less_32 [of c] by simp
  from next_seq_from [OF assms(1,3) this] obtain j where
    j: "next_seq seq c n 0 = Some (of_nat (unat c + j * unat n))" "unat seq \<le> unat c + j * unat n"
    "j = 0 \<or> unat c + j * unat n < unat seq + unat n" by auto
  have lt: "unat c + j * unat n < unat seq + unat n" using j(3) cn by auto
  then have "unat (of_nat (unat c + j * unat n) :: uint32) = unat c + j * unat n"
    using assms(3) by (intro unat_of_nat_32) simp
  then show ?thesis using that [OF j(1)] j(2) lt cn by (simp add: mod_less)
qed

lemma mod_Suc_cancel:
  assumes "Suc a mod n = Suc b mod n" "0 < (n :: nat)"
  shows "a mod n = b mod n"
  using assms by (auto simp: mod_Suc split: if_splits)

text \<open>A number in the residue class of a slot selects the slot.\<close>

lemma slot_of_seq:
  assumes "unat v mod N = (x + 1) mod N" "0 < unat v" "x < N" "N < 2 ^ 32"
  shows "unat ((v - 1) mod of_nat N :: uint32) = x"
proof -
  have v1: "unat (v - 1) = unat v - 1" using assms(2) by (simp add: unat_minus_one unat_gt_0)
  have N: "unat (of_nat N :: uint32) = N" using assms(4) by (rule unat_of_nat_32)
  have "Suc (unat v - 1) mod N = Suc x mod N" using assms(1,2) by simp
  then have "(unat v - 1) mod N = x" using mod_Suc_cancel [of "unat v - 1" N x] assms(3) by simp
  then show ?thesis by (simp add: unat_mod v1 N)
qed

section \<open>Writing a record\<close>

lemma mmap_address: "(a AND 0xFFFF0000) + (a AND 0xFFFF) = (a :: uint32)"
proof -
  have "(a AND 0xFFFF0000) AND (a AND 0xFFFF) = 0"
    by (simp add: and.assoc and.left_commute)
  then have "(a AND 0xFFFF0000) + (a AND 0xFFFF) = (a AND 0xFFFF0000) OR (a AND 0xFFFF)"
    by (rule disjunctive_add_eq_or)
  also have "\<dots> = a AND (0xFFFF0000 OR 0xFFFF)" by (simp only: bit.conj_disj_distrib)
  also have "\<dots> = a"
  proof -
    have "(0xFFFF0000 OR 0xFFFF :: uint32) = - 1" by simp
    then show ?thesis by (simp only: and.right_neutral)
  qed
  finally show ?thesis .
qed

definition sector_of :: "esp_partition_t \<Rightarrow> nat \<Rightarrow> uint32" where
  "sector_of q i = address q + of_nat i * SPI_FLASH_SEC_SIZE"

text \<open>The otadata partition as both sides of the upgrade rely on it.\<close>

definition good_otadata :: "ota_env \<Rightarrow> (uint32 \<Rightarrow> uint32 \<Rightarrow> bool) \<Rightarrow> nat \<Rightarrow> esp_partition_t \<Rightarrow> flash \<Rightarrow> bool" where
  "good_otadata env safe cs q f \<longleftrightarrow> find_otadata f = Some q \<and> usable safe cs q \<and> flash_chip_default q \<and>
     0x2000 \<le> unat (psize q) \<and> 0x9000 \<le> unat (address q) \<and> otadata_mmap env = ESP_OK"

lemma read_otadata_ok:
  assumes "good_otadata env safe cs q f"
  shows "read_otadata env f = Some (q, [select_entry (mem f) (sector_of q 0), select_entry (mem f) (sector_of q 1)])"
  using assms by (simp add: read_otadata_def good_otadata_def esp_partition_mmap_def Let_def mmap_address sector_of_def)

lemma sectors_apart:
  assumes "y - (a :: uint32) < 4096"
  shows "\<not> y - (a + 4096) < 4096" "\<not> y - (a - 4096) < 4096"
proof -
  define z where "z = y - a"
  have z: "unat z < 4096" using assms by (simp add: z_def word_less_nat_alt)
  have e: "y - (a + 4096) = z - 4096" "y - (a - 4096) = z + 4096" by (simp_all add: z_def algebra_simps)
  have "unat (z - 4096) = 2 ^ 32 + unat z - 4096" using z by (simp add: unat_sub_if')
  then show "\<not> y - (a + 4096) < 4096" using z by (simp only: e word_less_nat_alt) simp
  have "unat (z + 4096) = unat z + 4096" using z by (intro unat_plus_exact [of z 4096, simplified]) simp
  then show "\<not> y - (a - 4096) < 4096" by (simp only: e word_less_nat_alt) simp
qed

lemma in_sector: "i < 32 \<Longrightarrow> (a + of_nat i) - a < (4096 :: uint32)" "i < 32 \<Longrightarrow> (a + of_nat i) - a < (32 :: uint32)"
  using unat_of_nat_32 [of i] by (simp_all add: word_less_nat_alt)

lemma rewrite_ok:
  assumes "nor_flash safe cs d" "good_otadata env safe cs q f" "i \<le> 1" "length (seq_label (es ! i)) = 20"
  obtains f' where "rewrite_ota_seq env d es seq i q f = (ESP_OK, f')" "s_partition_list f' = s_partition_list f"
    "select_entry (mem f') (sector_of q i) = (es ! i)\<lparr>ota_seq := seq, crc := crc32 env seq\<rparr>"
    "\<forall>y. \<not> y - sector_of q i < 4096 \<longrightarrow> mem f' y = mem f y"
proof -
  define e where "e = (es ! i)\<lparr>ota_seq := seq, crc := crc32 env seq\<rparr>"
  define off where "off = (of_nat i * 4096 :: uint32)"
  have off: "off = 0 \<or> off = 4096" using assms(3) by (cases i) (auto simp: off_def)
  have a: "address q + off = sector_of q i" by (simp add: sector_of_def off_def)
  have u: "usable safe cs q" "0x2000 \<le> unat (psize q)" using assms(2) by (simp_all add: good_otadata_def)
  have len: "length (entry_bytes e) = 32" using assms(4) by (intro entry_bytes_length) (simp add: e_def)
  define f1 where "f1 = f\<lparr>mem := \<lambda>x. if x - sector_of q i < 4096 then 0xFF else mem f x\<rparr>"
  define f2 where "f2 = f1\<lparr>mem := \<lambda>x. if x - sector_of q i < 32
      then mem f1 x AND entry_bytes e ! unat (x - sector_of q i) else mem f1 x\<rparr>"
  have er: "esp_partition_erase_range d q off 4096 f = (ESP_OK, f1)"
    using partition_erase_ok [OF assms(1) u(1), of off 4096 f] off u(2) by (auto simp: f1_def a)
  have wr: "esp_partition_write d q off (entry_bytes e) 32 f1 = (ESP_OK, f2)"
    using partition_write_ok [OF assms(1) u(1), of off 32 "entry_bytes e" f1] off u(2) len
    by (auto simp: f2_def a cong: if_cong)
  have "rewrite_ota_seq env d es seq i q f = (ESP_OK, f2)"
    using assms(3) er wr
    by (simp add: rewrite_ota_seq_def Let_def off_def e_def bootloader_common_ota_select_crc_def)
  moreover have "select_entry (mem f2) (sector_of q i) = e"
  proof (rule select_entry_bytes)
    show "length (seq_label e) = 20" using assms(4) by (simp add: e_def)
    fix j :: nat assume j: "j < 32"
    then have "unat (of_nat j :: uint32) = j" by (intro unat_of_nat_32) simp
    then show "mem f2 (sector_of q i + of_nat j) = entry_bytes e ! j"
      using in_sector [OF j, of "sector_of q i"] by (simp add: f2_def f1_def)
  qed
  moreover have "mem f2 y = mem f y" if "\<not> y - sector_of q i < 4096" for y
  proof -
    have "\<not> y - sector_of q i < 32" using that by (simp add: word_less_nat_alt)
    then show ?thesis using that by (simp add: f2_def f1_def)
  qed
  moreover have "s_partition_list f2 = s_partition_list f" by (simp add: f2_def f1_def)
  ultimately show ?thesis using that by (simp add: e_def)
qed

section \<open>The two readings of the table\<close>

definition ota_entry :: "esp_partition_info_t \<Rightarrow> bool" where
  "ota_entry e \<longleftrightarrow> itype e = 0 \<and> isubtype e AND NOT 0x0F = 0x10"

definition otadata_entry :: "esp_partition_info_t \<Rightarrow> bool" where
  "otadata_entry e \<longleftrightarrow> itype e = 1 \<and> isubtype e = 0"

definition factory_entry :: "esp_partition_info_t \<Rightarrow> bool" where
  "factory_entry e \<longleftrightarrow> itype e = 0 \<and> isubtype e = 0"

definition slot_entry :: "nat \<Rightarrow> esp_partition_info_t \<Rightarrow> bool" where
  "slot_entry k e \<longleftrightarrow> itype e = 0 \<and> unat (isubtype e) = 16 + k"

lemma low_bits: "(b :: byte) AND 0x0F = b mod 16"
proof -
  have "(0x0F :: byte) = mask 4" by (simp add: mask_eq_exp_minus_1)
  then show ?thesis by (simp only: take_bit_eq_mask [symmetric] take_bit_eq_mod) simp
qed

lemma high_bits: "(b :: byte) AND NOT 0x0F = b - b mod 16"
proof -
  have "(b AND 0x0F) AND (b AND NOT 0x0F) = 0"
    by (simp add: and.assoc and.left_commute)
  then have "(b AND 0x0F) + (b AND NOT 0x0F) = (b AND 0x0F) OR (b AND NOT 0x0F)"
    by (rule disjunctive_add_eq_or)
  also have "\<dots> = b AND (0x0F OR NOT 0x0F)" by (simp only: bit.conj_disj_distrib)
  also have "\<dots> = b" by (simp only: bit.disj_cancel_right and.right_neutral)
  finally show ?thesis unfolding low_bits by (simp add: eq_diff_eq add.commute)
qed

lemma unat_mod_16: "unat (b mod 16 :: byte) = unat b mod 16"
  by (simp add: unat_mod)

lemma ota_bits: "(b :: byte) AND NOT 0x0F = 0x10 \<longleftrightarrow> 16 \<le> unat b \<and> unat b < 32"
proof -
  have "b mod 16 \<le> b" by (simp add: word_le_nat_alt unat_mod_16)
  then have "unat (b - b mod 16) = unat b - unat b mod 16" by (simp add: unat_sub unat_mod_16)
  then have "b AND NOT 0x0F = 0x10 \<longleftrightarrow> unat b - unat b mod 16 = 16"
    unfolding high_bits by (simp add: word_unat_eq_iff)
  also have "\<dots> \<longleftrightarrow> unat b div 16 = 1" by (simp add: minus_mod_eq_mult_div)
  also have "\<dots> \<longleftrightarrow> 16 \<le> unat b \<and> unat b < 32" by linarith
  finally show ?thesis .
qed

lemma slot_bits: "16 \<le> unat b \<and> unat b < 32 \<longrightarrow> unat (b AND 0x0F :: byte) = unat b - 16"
  unfolding low_bits unat_mod_16 by (auto simp: mod_if)

lemma find_filter: "find P xs = (case filter P xs of [] \<Rightarrow> None | x # _ \<Rightarrow> Some x)"
  by (induction xs) auto

lemma find_rev_unique:
  assumes "length (filter P xs) \<le> 1"
  shows "find P (rev xs) = find P xs"
proof -
  have "rev (filter P xs) = filter P xs" using assms by (cases "filter P xs") auto
  then show ?thesis by (simp only: find_filter rev_filter [symmetric])
qed

lemma find_append: "find P (xs @ ys) = (case find P xs of None \<Rightarrow> find P ys | Some x \<Rightarrow> Some x)"
  by (induction xs) auto

text \<open>The bootloader keeps the last entry of a kind.\<close>

lemma classify_otadata:
  "bs_ota_info (fold classify_partition es bs) =
     (case find otadata_entry (rev es) of None \<Rightarrow> bs_ota_info bs | Some e \<Rightarrow> ipos e)"
  by (induction es arbitrary: bs)
    (auto simp: find_append classify_partition_def otadata_entry_def split: option.splits)

lemma classify_factory:
  "bs_factory (fold classify_partition es bs) =
     (case find factory_entry (rev es) of None \<Rightarrow> bs_factory bs | Some e \<Rightarrow> ipos e)"
  by (induction es arbitrary: bs)
    (auto simp: find_append classify_partition_def factory_entry_def split: option.splits)

lemma classify_count:
  "app_count (fold classify_partition es bs) = app_count bs + length (filter ota_entry es)"
  by (induction es arbitrary: bs) (auto simp: classify_partition_def ota_entry_def)

lemma classify_length: "length (bs_ota (fold classify_partition es bs)) = length (bs_ota bs)"
  by (induction es arbitrary: bs) (auto simp: classify_partition_def)

lemma classify_slot:
  assumes "k < 16" "length (bs_ota bs) = 16"
  shows "bs_ota (fold classify_partition es bs) ! k =
     (case find (slot_entry k) (rev es) of None \<Rightarrow> bs_ota bs ! k | Some e \<Rightarrow> ipos e)"
  using assms(2)
proof (induction es arbitrary: bs)
  case (Cons e es)
  have len: "length (bs_ota (classify_partition e bs)) = 16" using Cons.prems by (simp add: classify_partition_def)
  have "bs_ota (classify_partition e bs) ! k = (if slot_entry k e then ipos e else bs_ota bs ! k)"
    using assms(1) Cons.prems slot_bits [of "isubtype e"]
    by (auto simp: classify_partition_def slot_entry_def ota_bits [simplified] nth_list_update)
  then show ?case using Cons.IH [OF len] by (auto simp: find_append split: option.splits)
qed simp

text \<open>The application finds the first item of a kind.\<close>

lemma item_type [simp]: "ptype (partition_item enc e) = ESP_PARTITION_TYPE_APP \<longleftrightarrow> itype e = 0"
    "ptype (partition_item enc e) = ESP_PARTITION_TYPE_DATA \<longleftrightarrow> itype e = 1"
    "subtype (partition_item enc e) = unat (isubtype e)"
    "address (partition_item enc e) = pos_offset (ipos e)" "psize (partition_item enc e) = pos_size (ipos e)"
  by (simp_all add: partition_item_def type_of_byte_def)

lemma find_map: "find P (map g xs) = map_option g (find (P \<circ> g) xs)"
  by (induction xs) auto

lemma find_app_items:
  assumes "s_partition_list f = map (partition_item enc) es"
  shows "find_app sub f = map_option (partition_item enc) (find (\<lambda>e. itype e = 0 \<and> unat (isubtype e) = sub) es)"
  using assms
  by (simp add: find_app_def esp_partition_find_first_def find_map partition_matches_def comp_def eq_commute [of _ "ptype _"]
      eq_commute [of sub])

lemma find_otadata_items:
  assumes "s_partition_list f = map (partition_item enc) es"
  shows "find_otadata f = map_option (partition_item enc) (find otadata_entry es)"
  using assms
  by (simp add: find_otadata_def esp_partition_find_first_def find_map partition_matches_def comp_def
      otadata_entry_def [abs_def] eq_commute [of _ "ptype _"] eq_commute [of 0] unat_eq_zero)

text \<open>A flash both sides read alike: the table is accepted, the application has loaded it, it has one
  otadata entry and its \<open>n\<close> slots are numbered from 0 on without a repetition.\<close>

definition entries :: "flash_mem \<Rightarrow> nat \<Rightarrow> esp_partition_info_t list" where
  "entries m N = map (entry_at m) [0..<N]"

definition boot_layout :: "(byte list \<Rightarrow> byte list) \<Rightarrow> uint32 \<Rightarrow> nat \<Rightarrow> nat \<Rightarrow> flash \<Rightarrow> bool" where
  "boot_layout md5sum chip N n f \<longleftrightarrow> table_at md5sum (mem f) N \<and>
     (\<forall>i<N. \<not> pos_offset (ipos (entry_at (mem f) i)) > chip \<and>
        \<not> pos_offset (ipos (entry_at (mem f) i)) + pos_size (ipos (entry_at (mem f) i)) > chip) \<and>
     s_partition_list f = map (partition_item False) (entries (mem f) N) \<and> 0 < n \<and> n < 16 \<and>
     mset (map (unat \<circ> isubtype) (filter ota_entry (entries (mem f) N))) = mset [16..<16 + n] \<and>
     length (filter otadata_entry (entries (mem f) N)) = 1"

definition boot_state :: "flash_mem \<Rightarrow> nat \<Rightarrow> bootloader_state_t" where
  "boot_state m N = fold classify_partition (entries m N) bs_zero"

definition pos_of :: "esp_partition_t \<Rightarrow> esp_partition_pos_t" where
  "pos_of p = \<lparr>pos_offset = address p, pos_size = psize p\<rparr>"

lemma pos_of_item [simp]: "pos_of (partition_item enc e) = ipos e"
  by (simp add: pos_of_def)

lemma pos_of_fields [simp]: "pos_offset (pos_of p) = address p" "pos_size (pos_of p) = psize p"
  by (simp_all add: pos_of_def)

lemma boot_state_loaded:
  assumes "boot_layout md5sum chip N n f"
  shows "bootloader_utility_load_partition_table md5sum chip True (mem f) = Some (boot_state (mem f) N)"
  using assms table_verify_at [of md5sum "mem f" N chip]
  by (simp add: bootloader_utility_load_partition_table_def boot_layout_def boot_state_def entries_def)

lemma length_filter_count: "length (filter (\<lambda>x. g x = y) xs) = count (mset (map g xs)) y"
  by (induction xs) auto

lemma slot_filter:
  assumes "k < 16"
  shows "filter (slot_entry k) es = filter (\<lambda>e. (unat \<circ> isubtype) e = 16 + k) (filter ota_entry es)"
  using assms by (auto simp: slot_entry_def ota_entry_def ota_bits [simplified] intro!: filter_cong)

lemma slot_count:
  assumes "boot_layout md5sum chip N n f" "k < 16"
  shows "length (filter (slot_entry k) (entries (mem f) N)) = of_bool (k < n)"
proof -
  have "length (filter (slot_entry k) (entries (mem f) N)) = count (mset [16..<16 + n]) (16 + k)"
    using assms(1) by (simp only: slot_filter [OF assms(2)] length_filter_count boot_layout_def)
  then show ?thesis by (simp add: count_mset_set)
qed

lemma find_none: "length (filter P xs) = 0 \<Longrightarrow> find P xs = None"
  by (simp add: find_filter)

lemma find_one:
  assumes "length (filter P xs) = 1"
  obtains x where "find P xs = Some x" "find P (rev xs) = Some x" "P x"
proof -
  obtain x where x: "filter P xs = [x]" using assms by (cases "filter P xs") auto
  then have "x \<in> set (filter P xs)" by simp
  then have "P x" by simp
  then show ?thesis using that [of x] x find_rev_unique [of P xs] by (simp add: find_filter)
qed

lemma layout_slot:
  assumes "boot_layout md5sum chip N n f" "k < n"
  obtains p where "find_app (16 + k) f = Some p" "bs_ota (boot_state (mem f) N) ! k = pos_of p" "ptype p = ESP_PARTITION_TYPE_APP"
    "subtype p = 16 + k"
proof -
  have k: "k < 16" using assms by (simp add: boot_layout_def)
  obtain e where e: "find (slot_entry k) (entries (mem f) N) = Some e"
    "find (slot_entry k) (rev (entries (mem f) N)) = Some e" "slot_entry k e"
    using find_one [of "slot_entry k" "entries (mem f) N"] slot_count [OF assms(1) k] assms(2) by auto
  have "bs_ota (boot_state (mem f) N) ! k = ipos e"
    unfolding boot_state_def by (subst classify_slot [OF k]) (simp_all add: bs_zero_def e(2))
  moreover have "find_app (16 + k) f = Some (partition_item False e)"
    using assms(1) e(1) find_app_items [of f False "entries (mem f) N" "16 + k"]
    by (simp add: boot_layout_def slot_entry_def [abs_def])
  ultimately show ?thesis using that [of "partition_item False e"] e(3) by (simp add: slot_entry_def)
qed

lemma layout_no_slot:
  assumes "boot_layout md5sum chip N n f" "n \<le> k" "k < 16"
  shows "find_app (16 + k) f = None"
  using assms(1) find_app_items [of f False "entries (mem f) N" "16 + k"] find_none [of "slot_entry k" "entries (mem f) N"]
    slot_count [OF assms(1,3)] assms(2)
  by (simp add: boot_layout_def slot_entry_def [abs_def])

lemma layout_count:
  assumes "boot_layout md5sum chip N n f"
  shows "esp_ota_get_app_partition_count f = Some n" "app_count (boot_state (mem f) N) = n"
proof -
  have n: "n < 16" using assms by (simp add: boot_layout_def)
  have "count_apps f k m = Some n" if "k \<le> n" "n - k < m" for k m
    using that
  proof (induction m arbitrary: k)
    case (Suc m)
    then show ?case
      using layout_no_slot [OF assms, of n] n by (cases "k = n") (auto intro: layout_slot [OF assms, of k])
  qed simp
  then show "esp_ota_get_app_partition_count f = Some n" using n by (simp add: esp_ota_get_app_partition_count_def)
  have "length (filter ota_entry (entries (mem f) N)) = n"
    using assms unfolding boot_layout_def by (metis diff_add_inverse length_map length_upt size_mset)
  then show "app_count (boot_state (mem f) N) = n" by (simp add: boot_state_def classify_count bs_zero_def)
qed

lemma layout_otadata:
  assumes "boot_layout md5sum chip N n f"
  obtains q where "find_otadata f = Some q" "bs_ota_info (boot_state (mem f) N) = pos_of q"
proof -
  obtain e where "find otadata_entry (entries (mem f) N) = Some e" "find otadata_entry (rev (entries (mem f) N)) = Some e"
    using find_one [of otadata_entry "entries (mem f) N"] assms by (auto simp: boot_layout_def)
  then show ?thesis
    using that [of "partition_item False e"] assms find_otadata_items [of f False "entries (mem f) N"]
    by (simp add: boot_layout_def boot_state_def classify_otadata)
qed

section \<open>Selection\<close>

definition records :: "esp_partition_t \<Rightarrow> flash_mem \<Rightarrow> esp_ota_select_entry_t list" where
  "records q m = [select_entry m (sector_of q 0), select_entry m (sector_of q 1)]"

lemma active_pair:
  "bootloader_common_get_active_otadata cf [e0, e1] =
     (if bootloader_common_ota_select_valid cf e0 then
        (if bootloader_common_ota_select_valid cf e1 \<and> ota_seq e0 < ota_seq e1 then Some 1 else Some 0)
      else if bootloader_common_ota_select_valid cf e1 then Some 1 else None)"
  by (auto simp: bootloader_common_get_active_otadata_def bootloader_common_select_otadata_def max_def)

lemma active_valid:
  assumes "bootloader_common_get_active_otadata cf [e0, e1] = Some a"
  shows "a \<le> 1" "bootloader_common_ota_select_valid cf ([e0, e1] ! a)"
    "bootloader_common_ota_select_valid cf ([e0, e1] ! (1 - a)) \<Longrightarrow> ota_seq ([e0, e1] ! (1 - a)) \<le> ota_seq ([e0, e1] ! a)"
  using assms by (auto simp: active_pair split: if_splits)

text \<open>A valid record that is not older than the other is active, or has the number of the active one.\<close>

lemma active_new:
  assumes "i \<le> 1" "bootloader_common_ota_select_valid cf ([e0, e1] ! i)"
    and "bootloader_common_ota_select_valid cf ([e0, e1] ! (1 - i)) \<Longrightarrow> ota_seq ([e0, e1] ! (1 - i)) \<le> ota_seq ([e0, e1] ! i)"
  obtains k where "bootloader_common_get_active_otadata cf [e0, e1] = Some k" "k \<le> 1"
    "ota_seq ([e0, e1] ! k) = ota_seq ([e0, e1] ! i)"
proof -
  have "\<exists>k\<le>1. bootloader_common_get_active_otadata cf [e0, e1] = Some k \<and> ota_seq ([e0, e1] ! k) = ota_seq ([e0, e1] ! i)"
    using assms by (cases i) (auto simp: active_pair)
  then show ?thesis using that by blast
qed

lemma active_kept:
  assumes "bootloader_common_get_active_otadata cf [e0, e1] = Some a"
    and "[d0, d1] ! a = [e0, e1] ! a" "\<not> bootloader_common_ota_select_valid cf ([d0, d1] ! (1 - a))"
  shows "bootloader_common_get_active_otadata cf [d0, d1] = Some a"
proof -
  consider "a = 0" | "a = 1" using active_valid(1) [OF assms(1)] by linarith
  then show ?thesis using active_valid(2) [OF assms(1)] assms(2,3) by cases (auto simp: active_pair)
qed

lemma boot_selected:
  assumes "boot_layout md5sum chip N n f" "good_otadata env safe cs q f"
    and "bootloader_common_get_active_otadata (crc32 env) (records q (mem f)) = Some k"
  shows "select_partition_number md5sum chip True (crc32 env) (mem f) =
      (boot_state (mem f) N, int (slot_of (records q (mem f) ! k) n), False)"
    "esp_ota_get_boot_partition env f = Some (find_app (16 + slot_of (records q (mem f) ! k) n) f)"
proof -
  have q: "bs_ota_info (boot_state (mem f) N) = pos_of q"
    using layout_otadata [OF assms(1)] assms(2) by (auto simp: good_otadata_def)
  have "address q \<noteq> 0" using assms(2) by (auto simp: good_otadata_def)
  moreover have "\<not> psize q < 8192" using assms(2) by (simp add: good_otadata_def word_less_nat_alt)
  ultimately have r: "boot_read_otadata True (pos_of q) (mem f) = Some (records q (mem f))"
    by (simp add: boot_read_otadata_def records_def sector_of_def)
  have "k \<le> 1" "bootloader_common_ota_select_valid (crc32 env) (records q (mem f) ! k)"
    using active_valid assms(3) unfolding records_def by blast+
  then have v: "\<not> (bootloader_common_ota_select_invalid (records q (mem f) ! 0)
      \<and> bootloader_common_ota_select_invalid (records q (mem f) ! 1))"
    by (cases k) (auto simp: bootloader_common_ota_select_valid_def)
  have n: "n \<noteq> 0" using assms(1) by (simp add: boot_layout_def)
  show "select_partition_number md5sum chip True (crc32 env) (mem f) =
      (boot_state (mem f) N, int (slot_of (records q (mem f) ! k) n), False)"
    using v n \<open>address q \<noteq> 0\<close> assms(3)
    by (simp add: select_partition_number_def boot_state_loaded [OF assms(1)] r q
        bootloader_utility_get_selected_boot_partition_def layout_count [OF assms(1)] slot_of_def
        del: de_Morgan_conj)
  have "read_otadata env f = Some (q, records q (mem f))"
    using read_otadata_ok [OF assms(2)] by (simp add: records_def)
  then show "esp_ota_get_boot_partition env f = Some (find_app (16 + slot_of (records q (mem f) ! k) n) f)"
    using v n assms(3) by (simp add: esp_ota_get_boot_partition_def layout_count [OF assms(1)] slot_of_def Let_def
        del: de_Morgan_conj)
qed

lemma slot_index:
  assumes "boot_layout md5sum chip N n f" "k < n" "find_app (16 + k) f = Some p"
  shows "index_to_partition (boot_state (mem f) N) (int k) = pos_of p"
proof -
  have "n < 16" using assms(1) by (simp add: boot_layout_def)
  then show ?thesis
    using layout_slot [OF assms(1,2)] assms(2,3) layout_count(2) [OF assms(1)] by (auto simp: index_to_partition_def)
qed

section \<open>The table stays\<close>

lemma table_entry_cong:
  assumes "\<And>j. j < 3072 \<Longrightarrow> m' (0x8000 + of_nat j) = m (0x8000 + of_nat j)" "i < 96"
  shows "entry_at m' i = entry_at m i"
  unfolding entry_at_def
proof (rule partition_info_cong)
  fix j :: nat assume "j < 32"
  then show "m' (ESP_PARTITION_TABLE_OFFSET + 32 * of_nat i + of_nat j) = m (ESP_PARTITION_TABLE_OFFSET + 32 * of_nat i + of_nat j)"
    using assms(1) [of "32 * i + j"] assms(2) by (simp add: add.assoc)
qed

lemma layout_cong:
  assumes "boot_layout md5sum chip N n f" "s_partition_list f' = s_partition_list f"
    and same: "\<And>j. j < 3072 \<Longrightarrow> mem f' (0x8000 + of_nat j) = mem f (0x8000 + of_nat j)"
  shows "boot_layout md5sum chip N n f'" "boot_state (mem f') N = boot_state (mem f) N"
proof -
  have N: "N \<le> 94" using assms(1) by (simp add: boot_layout_def table_at_def)
  have e: "entry_at (mem f') i = entry_at (mem f) i" if "i < 96" for i
    using same that by (rule table_entry_cong [of "mem f'" "mem f"])
  have es: "entries (mem f') N = entries (mem f) N" unfolding entries_def using N e by (intro map_cong) auto
  have "flash_bytes (mem f') ESP_PARTITION_TABLE_OFFSET (32 * N) = flash_bytes (mem f) ESP_PARTITION_TABLE_OFFSET (32 * N)"
    using N same by (intro flash_bytes_cong) simp
  moreover have "flash_bytes (mem f') (ESP_PARTITION_TABLE_OFFSET + 32 * of_nat N + ESP_PARTITION_MD5_OFFSET) 16 =
      flash_bytes (mem f) (ESP_PARTITION_TABLE_OFFSET + 32 * of_nat N + ESP_PARTITION_MD5_OFFSET) 16"
  proof (rule flash_bytes_cong)
    fix j :: nat assume "j < 16"
    then show "mem f' (ESP_PARTITION_TABLE_OFFSET + 32 * of_nat N + ESP_PARTITION_MD5_OFFSET + of_nat j) =
        mem f (ESP_PARTITION_TABLE_OFFSET + 32 * of_nat N + ESP_PARTITION_MD5_OFFSET + of_nat j)"
      using same [of "32 * N + 16 + j"] N by (simp add: algebra_simps)
  qed
  ultimately have "table_at md5sum (mem f') N"
    using assms(1) N e by (simp add: boot_layout_def table_at_def)
  then show "boot_layout md5sum chip N n f'"
    using assms(1,2) N e es by (simp add: boot_layout_def)
  show "boot_state (mem f') N = boot_state (mem f) N" by (simp add: boot_state_def es)
qed

lemma below_range:
  assumes "unat (y :: uint32) < unat a" "unat a + unat n \<le> 2 ^ 32"
  shows "\<not> y - a < n"
proof -
  have "unat (y - a) = 2 ^ 32 + unat y - unat a" using assms(1) by (simp add: unat_sub_if')
  then show ?thesis using assms by (simp only: word_less_nat_alt)
qed

lemma sector_above:
  assumes "good_otadata env safe cs q f" "i \<le> 1" "j < 3072"
  shows "\<not> (0x8000 + of_nat j) - sector_of q i < 4096"
proof (rule below_range)
  have q: "0x9000 \<le> unat (address q)" "0x2000 \<le> unat (psize q)" "unat (address q) + unat (psize q) < 2 ^ 32"
    using assms(1) by (simp_all add: good_otadata_def usable_def)
  have o: "unat (of_nat i * 4096 :: uint32) = i * 4096" using assms(2) by (cases i) auto
  have s: "unat (sector_of q i) = unat (address q) + i * 4096"
    using q assms(2) o by (simp add: sector_of_def unat_plus_exact)
  have "unat (0x8000 + of_nat j :: uint32) = 0x8000 + j"
    using assms(3) unat_of_nat_32 [of j] by (subst unat_plus_exact) simp_all
  then show "unat (0x8000 + of_nat j :: uint32) < unat (sector_of q i)" using q(1) s assms(3) by simp
  show "unat (sector_of q i) + unat (4096 :: uint32) \<le> 2 ^ 32" using q s assms(2) by simp
qed

section \<open>Switching\<close>

text \<open>The sector the next record is written to, and room for its number.\<close>

definition fresh_sector :: "(uint32 \<Rightarrow> uint32) \<Rightarrow> esp_ota_select_entry_t list \<Rightarrow> nat" where
  "fresh_sector cf es = (case bootloader_common_get_active_otadata cf es of None \<Rightarrow> 0 | Some a \<Rightarrow> 1 - a)"

definition seq_room :: "(uint32 \<Rightarrow> uint32) \<Rightarrow> esp_ota_select_entry_t list \<Rightarrow> nat \<Rightarrow> bool" where
  "seq_room cf es n \<longleftrightarrow>
     (case bootloader_common_get_active_otadata cf es of
        None \<Rightarrow> True
      | Some a \<Rightarrow> 0 < unat (ota_seq (es ! a)) \<and> unat (ota_seq (es ! a)) + n < 2 ^ 32)"

lemma sub_type_slot: "x < 16 \<Longrightarrow> SUB_TYPE_ID (16 + x) = of_nat x"
proof -
  assume x: "x < 16"
  have "(0x0F :: uint32) = mask 4" by (simp add: mask_eq_exp_minus_1)
  then have "SUB_TYPE_ID (16 + x) = take_bit 4 (of_nat (16 + x))"
    by (simp only: SUB_TYPE_ID_def take_bit_eq_mask)
  also have "\<dots> = of_nat (take_bit 4 (16 + x))" by (simp only: take_bit_of_nat)
  also have "take_bit 4 (16 + x) = x" using x by (simp add: take_bit_eq_mod)
  finally show ?thesis .
qed

lemma fresh_sector_le: "fresh_sector cf [e0, e1] \<le> 1"
  by (auto simp: fresh_sector_def active_pair split: option.splits)

lemma next_record:
  assumes "x < n" "n < 16" "seq_room cf es n"
  obtains v where "unat v mod n = (x + 1) mod n" "0 < unat v" "v \<noteq> UINT32_MAX"
    "\<forall>a. bootloader_common_get_active_otadata cf es = Some a \<longrightarrow>
        ota_seq (es ! a) \<le> v \<and> next_seq (ota_seq (es ! a)) ((of_nat x + 1) mod of_nat n) (of_nat n) 0 = Some v"
    "bootloader_common_get_active_otadata cf es = None \<longrightarrow> v = of_nat x + 1"
proof (cases "bootloader_common_get_active_otadata cf es")
  case None
  have "unat (of_nat x + 1 :: uint32) = x + 1" using assms(1,2) unat_of_nat_32 [of "x + 1"] by (simp add: add.commute)
  moreover from this have "unat (of_nat x + 1 :: uint32) < unat UINT32_MAX" using assms(1,2) by simp
  then have "of_nat x + 1 \<noteq> UINT32_MAX" by (metis less_irrefl)
  ultimately show ?thesis using that [of "of_nat x + 1"] None by simp
next
  case (Some a)
  let ?n = "of_nat n :: uint32" and ?s = "ota_seq (es ! a)"
  have n: "unat ?n = n" using assms(2) by (intro unat_of_nat_32) simp
  have "unat (of_nat x + 1 :: uint32) = x + 1" using assms(1,2) unat_of_nat_32 [of "x + 1"] by (simp add: add.commute)
  then have c: "unat ((of_nat x + 1) mod ?n) = (x + 1) mod n" by (simp add: unat_mod n)
  then have lt: "(of_nat x + 1) mod ?n < ?n" using assms(1) by (simp add: word_less_nat_alt n)
  have room: "0 < unat ?s" "unat ?s + n < 2 ^ 32" using assms(3) Some by (simp_all add: seq_room_def)
  obtain v where v: "next_seq ?s ((of_nat x + 1) mod ?n) ?n 0 = Some v" "unat v mod n = (x + 1) mod n"
    "unat ?s \<le> unat v" "unat v < unat ?s + n"
    using next_seq_ok [of ?n "(of_nat x + 1) mod ?n" ?s] lt assms(1) room by (auto simp: n c)
  have "unat v < unat UINT32_MAX" using v(4) room(2) by simp
  then have "v \<noteq> UINT32_MAX" by (metis less_irrefl)
  moreover have "?s \<le> v" using v(3) by (simp add: word_le_nat_alt)
  ultimately show ?thesis using that [of v] v room(1) Some by simp
qed

text \<open>The record written into the fresh sector becomes active.\<close>

lemma fresh_record_active:
  assumes "i = fresh_sector cf (records q m)" "records q m' ! (1 - i) = records q m ! (1 - i)"
    and "bootloader_common_ota_select_valid cf (records q m' ! i)"
    and "\<forall>a. bootloader_common_get_active_otadata cf (records q m) = Some a \<longrightarrow>
      ota_seq (records q m ! a) \<le> ota_seq (records q m' ! i)"
  obtains k where "bootloader_common_get_active_otadata cf (records q m') = Some k"
    "ota_seq (records q m' ! k) = ota_seq (records q m' ! i)"
proof -
  have i: "i \<le> 1" by (simp only: assms(1) records_def fresh_sector_le)
  have "ota_seq (records q m' ! (1 - i)) \<le> ota_seq (records q m' ! i)"
    if "bootloader_common_ota_select_valid cf (records q m' ! (1 - i))"
    using that assms(4) unfolding assms(2)
    by (cases "bootloader_common_get_active_otadata cf (records q m)")
      (auto simp: assms(1) fresh_sector_def records_def active_pair split: if_splits)
  then show ?thesis using active_new [OF i] assms(3) that unfolding records_def by metis
qed

lemma other_sector:
  assumes "i \<le> 1" "\<forall>y. \<not> y - sector_of q i < 4096 \<longrightarrow> m' y = m y"
  shows "records q m' ! (1 - i) = records q m ! (1 - i)"
proof -
  have "select_entry m' (sector_of q (1 - i)) = select_entry m (sector_of q (1 - i))"
  proof (rule select_entry_cong, rule assms(2) [rule_format])
    fix j :: nat assume "j < 32"
    then show "\<not> (sector_of q (1 - i) + of_nat j) - sector_of q i < 4096"
      using sectors_apart [OF in_sector(1) [of j "sector_of q (1 - i)"]] assms(1)
      by (cases i) (auto simp: sector_of_def)
  qed
  then show ?thesis using assms(1) by (cases i) (simp_all add: records_def)
qed

lemma rewrite_data_ok:
  assumes "nor_flash safe cs d" "good_otadata env safe cs q f" "boot_layout md5sum chip N n f" "x < n"
    and "seq_room (crc32 env) (records q (mem f)) n"
  defines "i \<equiv> fresh_sector (crc32 env) (records q (mem f))"
  obtains f' k where "esp_rewrite_ota_data env d (16 + x) f = Some (ESP_OK, f')" "s_partition_list f' = s_partition_list f"
    "\<forall>y. \<not> y - sector_of q i < 4096 \<longrightarrow> mem f' y = mem f y"
    "bootloader_common_get_active_otadata (crc32 env) (records q (mem f')) = Some k"
    "slot_of (records q (mem f') ! k) n = x"
proof -
  have n: "n < 16" using assms(3) by (simp add: boot_layout_def)
  have i: "i \<le> 1" by (simp only: i_def records_def fresh_sector_le)
  obtain v where v: "unat v mod n = (x + 1) mod n" "0 < unat v" "v \<noteq> UINT32_MAX"
    "\<forall>a. bootloader_common_get_active_otadata (crc32 env) (records q (mem f)) = Some a \<longrightarrow>
        ota_seq (records q (mem f) ! a) \<le> v \<and>
        next_seq (ota_seq (records q (mem f) ! a)) ((of_nat x + 1) mod of_nat n) (of_nat n) 0 = Some v"
    "bootloader_common_get_active_otadata (crc32 env) (records q (mem f)) = None \<longrightarrow> v = of_nat x + 1"
    using next_record [OF assms(4) n assms(5)] .
  have two: "length (records q (mem f)) = 2" by (simp add: records_def)
  let ?es = "(records q (mem f))[i := (records q (mem f) ! i)\<lparr>ota_state := set_new_state_otadata\<rparr>]"
  have len: "length (seq_label (?es ! i)) = 20" using i by (cases i) (auto simp: records_def select_entry_label)
  obtain f' where f': "rewrite_ota_seq env d ?es v i q f = (ESP_OK, f')" "s_partition_list f' = s_partition_list f"
    "select_entry (mem f') (sector_of q i) = (?es ! i)\<lparr>ota_seq := v, crc := crc32 env v\<rparr>"
    "\<forall>y. \<not> y - sector_of q i < 4096 \<longrightarrow> mem f' y = mem f y"
    using rewrite_ok [OF assms(1,2) i len] .
  have rd: "read_otadata env f = Some (q, records q (mem f))"
    using read_otadata_ok [OF assms(2)] by (simp add: records_def)
  have xn: "\<not> (of_nat n :: uint32) \<le> of_nat x"
    using assms(4) n unat_of_nat_32 [of n] unat_of_nat_32 [of x] by (simp add: word_le_nat_alt)
  have call: "esp_rewrite_ota_data env d (16 + x) f = Some (rewrite_ota_seq env d ?es v i q f)"
    using v(4,5) xn assms(4) n
    by (cases "bootloader_common_get_active_otadata (crc32 env) (records q (mem f))")
      (simp_all add: esp_rewrite_ota_data_def rd layout_count [OF assms(3)] sub_type_slot i_def fresh_sector_def Let_def)
  have r: "records q (mem f') ! i = (?es ! i)\<lparr>ota_seq := v, crc := crc32 env v\<rparr>"
    using f'(3) i by (cases i) (simp_all add: records_def)
  have "bootloader_common_ota_select_valid (crc32 env) (records q (mem f') ! i)"
    unfolding r using v(3) i by (simp add: two bootloader_common_ota_select_valid_def
        bootloader_common_ota_select_invalid_def bootloader_common_ota_select_crc_def set_new_state_otadata_def)
  then obtain k where k: "bootloader_common_get_active_otadata (crc32 env) (records q (mem f')) = Some k"
    "ota_seq (records q (mem f') ! k) = ota_seq (records q (mem f') ! i)"
    using fresh_record_active [OF meta_eq_to_obj_eq [OF i_def] other_sector [OF i f'(4)]] v(4) i
    by (auto simp: r two)
  have "slot_of (records q (mem f') ! k) n = x"
    using slot_of_seq [OF v(1,2) assms(4)] n by (simp add: slot_of_def k(2) r)
  then show ?thesis using that call f' k(1) by simp
qed

lemma load_selected:
  assumes "0 \<le> i" "try_load_partition ok (index_to_partition bs i)"
  shows "bootloader_utility_load_boot_image d cf ok bs False i m = Some (i, m)"
  using assms by (simp add: bootloader_utility_load_boot_image_def upto_rec2 set_actual_ota_seq_def)

text \<open>The verification of an image reads the partition only.\<close>

definition local_verify :: "(flash_mem \<Rightarrow> esp_partition_pos_t \<Rightarrow> bool) \<Rightarrow> bool" where
  "local_verify verify \<longleftrightarrow>
     (\<forall>m m' pos. (\<forall>y. y - pos_offset pos < pos_size pos \<longrightarrow> m y = m' y) \<longrightarrow> verify m pos = verify m' pos)"

definition apart :: "esp_partition_t \<Rightarrow> esp_partition_t \<Rightarrow> bool" where
  "apart p q \<longleftrightarrow> (\<forall>y. y - address p < psize p \<longrightarrow> \<not> y - address q < psize q)"

lemma sector_inside:
  assumes "good_otadata env safe cs q f" "i \<le> 1" "y - sector_of q i < 4096"
  shows "y - address q < psize q"
proof -
  have "unat (of_nat i * 4096 :: uint32) + 4096 \<le> unat (psize q)"
    using assms(1,2) by (cases i) (auto simp: good_otadata_def)
  then show ?thesis
    using sub_range [of "of_nat i * 4096" 4096 "psize q" y "address q"] assms(3) by (simp add: sector_of_def)
qed

lemma good_otadata_list:
  "s_partition_list f' = s_partition_list f \<Longrightarrow> good_otadata env safe cs q f' = good_otadata env safe cs q f"
  by (simp add: good_otadata_def find_otadata_def esp_partition_find_first_def)

lemma table_kept:
  assumes "good_otadata env safe cs q f" "i \<le> 1" "\<forall>y. \<not> y - sector_of q i < 4096 \<longrightarrow> m y = mem f y" "j < 3072"
  shows "m (0x8000 + of_nat j) = mem f (0x8000 + of_nat j)"
  using assms(3) sector_above [OF assms(1,2,4)] by simp

text \<open>A flash that differs from another one in a sector of the records only.\<close>

lemma layout_sector:
  assumes "boot_layout md5sum chip N n f" "good_otadata env safe cs q f" "i \<le> 1"
    and "s_partition_list f' = s_partition_list f" "\<forall>y. \<not> y - sector_of q i < 4096 \<longrightarrow> mem f' y = mem f y"
  shows "boot_layout md5sum chip N n f'" "boot_state (mem f') N = boot_state (mem f) N" "good_otadata env safe cs q f'"
proof -
  show "boot_layout md5sum chip N n f'" "boot_state (mem f') N = boot_state (mem f) N"
    by (rule layout_cong [OF assms(1,4)], rule table_kept [OF assms(2,3,5)], assumption)+
  show "good_otadata env safe cs q f'" using assms(2) good_otadata_list [OF assms(4)] by blast
qed

lemma verify_kept:
  assumes "local_verify verify" "verify m (pos_of p)" "apart p q" "good_otadata env safe cs q f" "i \<le> 1"
    and "\<forall>y. \<not> y - sector_of q i < 4096 \<longrightarrow> m' y = m y"
  shows "verify m' (pos_of p)"
proof -
  have "m y = m' y" if "y - address p < psize p" for y
    using that assms(3,6) sector_inside [OF assms(4,5), of y] unfolding apart_def by metis
  then have "verify m (pos_of p) = verify m' (pos_of p)"
    using assms(1) unfolding local_verify_def by simp
  then show ?thesis using assms(2) by simp
qed

lemma boot_torn:
  assumes "good_otadata env safe cs q f" "boot_layout md5sum chip N n f"
    and "bootloader_common_get_active_otadata (crc32 env) (records q (mem f)) \<noteq> None"
    and i: "i = fresh_sector (crc32 env) (records q (mem f))"
    and m: "\<forall>y. \<not> y - sector_of q i < 4096 \<longrightarrow> m y = mem f y"
    and bad: "\<not> bootloader_common_ota_select_valid (crc32 env) (select_entry m (sector_of q i))"
  shows "select_partition_number md5sum chip True (crc32 env) m
    = select_partition_number md5sum chip True (crc32 env) (mem f)"
proof -
  have i1: "i \<le> 1" by (simp only: i records_def fresh_sector_le)
  from assms(3) obtain a where a: "bootloader_common_get_active_otadata (crc32 env) (records q (mem f)) = Some a" by blast
  have "a \<le> 1" by (rule active_valid(1) [OF a [unfolded records_def]])
  then have ia: "i = 1 - a" "a = 1 - i" using a by (auto simp: i fresh_sector_def)
  have same: "records q m ! a = records q (mem f) ! a" using other_sector [OF i1 m] ia(2) by simp
  have "\<not> bootloader_common_ota_select_valid (crc32 env) (records q m ! (1 - a))"
    using bad i1 unfolding ia(1) [symmetric] by (cases i) (auto simp: records_def)
  then have act: "bootloader_common_get_active_otadata (crc32 env) (records q m) = Some a"
    unfolding records_def by (intro active_kept [OF a [unfolded records_def]]) (use same in \<open>simp_all add: records_def\<close>)
  have g: "boot_layout md5sum chip N n (f\<lparr>mem := m\<rparr>)" "boot_state m N = boot_state (mem f) N"
    "good_otadata env safe cs q (f\<lparr>mem := m\<rparr>)"
    using layout_sector [OF assms(2,1) i1, of "f\<lparr>mem := m\<rparr>"] m by simp_all
  show ?thesis
    using boot_selected(1) [OF g(1,3)] boot_selected(1) [OF assms(2,1) a] act same g(2) by simp
qed

text \<open>The partition both sides fall back to.\<close>

definition all_loadable :: "flash_mem \<Rightarrow> nat \<Rightarrow> bool" where
  "all_loadable m N \<longleftrightarrow> length (filter factory_entry (entries m N)) \<le> 1 \<and>
     list_all (\<lambda>e. pos_offset (ipos e) \<noteq> 0 \<and> pos_size (ipos e) \<noteq> 0) (entries m N)"

lemma factory_found:
  assumes "boot_layout md5sum chip N n f" "all_loadable (mem f) N"
  shows "find_app 0 f = None \<and> bs_factory (boot_state (mem f) N) = no_pos \<or>
    (\<exists>p. find_app 0 f = Some p \<and> bs_factory (boot_state (mem f) N) = pos_of p \<and> psize p \<noteq> 0 \<and> address p \<noteq> 0)"
proof -
  let ?es = "entries (mem f) N"
  have app: "find_app 0 f = map_option (partition_item False) (find factory_entry ?es)"
    using assms(1) find_app_items [of f False ?es 0]
    by (simp add: boot_layout_def factory_entry_def [abs_def] unat_eq_zero)
  have boot: "bs_factory (boot_state (mem f) N) = (case find factory_entry ?es of None \<Rightarrow> no_pos | Some e \<Rightarrow> ipos e)"
    using assms(2) find_rev_unique [of factory_entry ?es]
    by (simp add: boot_state_def classify_factory all_loadable_def bs_zero_def split: option.split)
  show ?thesis
  proof (cases "find factory_entry ?es")
    case None
    then show ?thesis using app boot by simp
  next
    case (Some e)
    then have "e \<in> set ?es" by (metis find_Some_iff nth_mem)
    then show ?thesis using Some app boot assms(2) by (auto simp: all_loadable_def list_all_iff)
  qed
qed

lemma slot_loadable:
  assumes "boot_layout md5sum chip N n f" "all_loadable (mem f) N" "find_app sub f = Some p"
  shows "psize p \<noteq> 0"
proof -
  obtain e where e: "find (\<lambda>e. itype e = 0 \<and> unat (isubtype e) = sub) (entries (mem f) N) = Some e" "p = partition_item False e"
    using assms(1,3) find_app_items [of f False "entries (mem f) N" sub] by (auto simp: boot_layout_def)
  then have "e \<in> set (entries (mem f) N)" by (metis find_Some_iff nth_mem)
  then show ?thesis using assms(2) e(2) by (auto simp: all_loadable_def list_all_iff)
qed

lemma find_default:
  assumes "boot_layout md5sum chip N n f"
  shows "find_default_boot_partition f = (case find_app 0 f of Some p \<Rightarrow> Some p | None \<Rightarrow> find_app 16 f)"
proof -
  have "0 < n" using assms by (simp add: boot_layout_def)
  then obtain p where "find_app 16 f = Some p" using layout_slot [OF assms, of 0] by auto
  then show ?thesis by (simp add: find_default_boot_partition_def upt_conv_Cons List.map_filter_def split: option.splits)
qed

lemma load_first:
  assumes "- 1 \<le> i" "try_load_partition ok (index_to_partition bs i)"
  shows "\<exists>m'. bootloader_utility_load_boot_image d cf ok bs init i m = Some (i, m')"
  using assms by (simp add: bootloader_utility_load_boot_image_def upto_rec2)

lemma load_no_factory:
  assumes "bs_factory bs = no_pos" "0 < app_count bs" "try_load_partition ok (index_to_partition bs 0)"
  shows "\<exists>m'. bootloader_utility_load_boot_image d cf ok bs init (- 1) m = Some (0, m')"
proof -
  have "[0..int (app_count bs) - 1] = 0 # [1..int (app_count bs) - 1]" using assms(2) by (simp add: upto_rec1)
  then show ?thesis
    using assms(1,3)
    by (simp add: bootloader_utility_load_boot_image_def index_to_partition_def try_load_partition_def no_pos_def)
qed

text \<open>Without a valid record.\<close>

lemma boot_default:
  assumes "boot_layout md5sum chip N n f" "good_otadata env safe cs q f" "all_loadable (mem f) N"
    and "bootloader_common_get_active_otadata (crc32 env) (records q (mem f)) = None"
  shows "esp_ota_get_boot_partition env f = Some (case find_app 0 f of Some p \<Rightarrow> Some p | None \<Rightarrow> find_app 16 f)"
    "\<exists>i init. select_partition_number md5sum chip True (crc32 env) (mem f) = (boot_state (mem f) N, i, init) \<and>
      (i = - 1 \<or> i = 0 \<and> find_app 0 f = None)"
proof -
  have q: "bs_ota_info (boot_state (mem f) N) = pos_of q"
    using layout_otadata [OF assms(1)] assms(2) by (auto simp: good_otadata_def)
  have nz: "address q \<noteq> 0" "\<not> psize q < 8192" using assms(2) by (auto simp: good_otadata_def word_less_nat_alt)
  have r: "boot_read_otadata True (pos_of q) (mem f) = Some (records q (mem f))"
    using nz by (simp add: boot_read_otadata_def records_def sector_of_def)
  have n: "0 < n" using assms(1) by (simp add: boot_layout_def)
  show "esp_ota_get_boot_partition env f = Some (case find_app 0 f of Some p \<Rightarrow> Some p | None \<Rightarrow> find_app 16 f)"
    using assms(4) read_otadata_ok [OF assms(2)] n
    by (simp add: esp_ota_get_boot_partition_def records_def layout_count [OF assms(1)] find_default [OF assms(1)])
  show "\<exists>i init. select_partition_number md5sum chip True (crc32 env) (mem f) = (boot_state (mem f) N, i, init) \<and>
      (i = - 1 \<or> i = 0 \<and> find_app 0 f = None)"
    using factory_found [OF assms(1,3)] assms(4) nz n
    by (auto simp: select_partition_number_def boot_state_loaded [OF assms(1)] r q no_pos_def
        bootloader_utility_get_selected_boot_partition_def layout_count [OF assms(1)])
qed

text \<open>A finished switch.\<close>

lemma boot_done:
  assumes "nor_flash safe cs d" "good_otadata env safe cs q f" "boot_layout md5sum chip N n f"
    and "seq_room (crc32 env) (records q (mem f)) n" "x < n" "find_app (16 + x) f = Some p"
    and "psize p \<noteq> 0" "apart p q" "local_verify (image_verify env)" "image_verify env (mem f) (pos_of p)"
    and i: "i = fresh_sector (crc32 env) (records q (mem f))"
  shows "\<exists>f'. esp_ota_set_boot_partition env d (Some p) f = Some (ESP_OK, f')
    \<and> s_partition_list f' = s_partition_list f
    \<and> (\<forall>y. \<not> y - sector_of q i < 4096 \<longrightarrow> mem f' y = mem f y)
    \<and> esp_ota_get_boot_partition env f' = Some (Some p)
    \<and> call_start_cpu0 d md5sum chip True (crc32 env) (image_verify env (mem f')) (mem f') = Some (int x, mem f')
    \<and> index_to_partition (boot_state (mem f') N) (int x) = pos_of p"
proof -
  have i1: "i \<le> 1" by (simp only: i records_def fresh_sector_le)
  obtain f' k where f': "esp_rewrite_ota_data env d (16 + x) f = Some (ESP_OK, f')" "s_partition_list f' = s_partition_list f"
    "\<forall>y. \<not> y - sector_of q i < 4096 \<longrightarrow> mem f' y = mem f y"
    "bootloader_common_get_active_otadata (crc32 env) (records q (mem f')) = Some k"
    "slot_of (records q (mem f') ! k) n = x"
    using rewrite_data_ok [OF assms(1,2,3,5,4)] unfolding i by metis
  note lay = layout_sector [OF assms(3,2) i1 f'(2,3)]
  have app: "find_app (16 + x) f' = Some p" using assms(6) f'(2) by (simp add: find_app_def esp_partition_find_first_def)
  have idx: "index_to_partition (boot_state (mem f') N) (int x) = pos_of p" by (rule slot_index [OF lay(1) assms(5) app])
  have "try_load_partition (image_verify env (mem f')) (pos_of p)"
    using assms(7) verify_kept [OF assms(9,10,8,2) i1 f'(3)] by (simp add: try_load_partition_def)
  then have "call_start_cpu0 d md5sum chip True (crc32 env) (image_verify env (mem f')) (mem f') = Some (int x, mem f')"
    using load_selected [of "int x"] idx by (simp add: call_start_cpu0_def boot_selected(1) [OF lay(1,3) f'(4)] f'(5))
  moreover have "ptype p = ESP_PARTITION_TYPE_APP" "subtype p = 16 + x"
    using layout_slot [OF assms(3,5)] assms(6) by auto
  then have "esp_ota_set_boot_partition env d (Some p) f = Some (ESP_OK, f')"
    using f'(1) assms(10) by (simp add: esp_ota_set_boot_partition_def image_validate_def pos_of_def)
  ultimately show ?thesis
    using f'(2,3) idx app boot_selected(2) [OF lay(1,3) f'(4)] f'(5) by (intro exI [of _ f']) simp
qed

section \<open>Properties\<close>


text \<open>A flash with the carried table, a first record for slot 0 and an image in slot 1.\<close>

definition boot_mem :: flash_mem where
  "boot_mem = carried(0xe000 := 1, 0xe001 := 0, 0xe002 := 0, 0xe003 := 0,
     0xe01c := 1, 0xe01d := 0, 0xe01e := 0, 0xe01f := 0, 0x400000 := 0xE9)"

definition boot_flash :: flash where
  "boot_flash = \<lparr>s_partition_list = tuya_partitions, mem = boot_mem\<rparr>"

definition boot_env :: ota_env where
  "boot_env = \<lparr>crc32 = id, otadata_mmap = ESP_OK,
     image_verify = \<lambda>m pos. pos_size pos \<noteq> 0 \<and> m (pos_offset pos) = ESP_IMAGE_HEADER_MAGIC,
     entry_calloc = \<lambda>_. True, phys_offs = 0x10000, flash_encrypted = False\<rparr>"

definition boot_otadata :: esp_partition_t where
  "boot_otadata = csv_entry ''otadata'' ESP_PARTITION_TYPE_DATA 0x00 0xe000 0x2000"

definition boot_slot_1 :: esp_partition_t where
  "boot_slot_1 = csv_entry ''ota_1'' ESP_PARTITION_TYPE_APP 0x11 0x400000 0x3d0000"

lemma boot_mem_table: "j < 224 \<Longrightarrow> boot_mem (0x8000 + of_nat j) = carried (0x8000 + of_nat j)"
proof -
  assume j: "j < 224"
  have "unat (0x8000 + of_nat j :: uint32) < unat (0x9000 :: uint32)"
    using j unat_of_nat_32 [of j] by (subst unat_plus_exact) simp_all
  then have "0x8000 + of_nat j < (0x9000 :: uint32)" by (simp only: word_less_nat_alt)
  then show ?thesis by (auto simp: boot_mem_def)
qed

lemma carried_kinds:
  "itype (entry_at carried 0) = 1" "isubtype (entry_at carried 0) = 2" "itype (entry_at carried 1) = 1"
  "isubtype (entry_at carried 1) = 0" "itype (entry_at carried 2) = 0" "isubtype (entry_at carried 2) = 0x10"
  "itype (entry_at carried 3) = 0" "isubtype (entry_at carried 3) = 0x11" "itype (entry_at carried 4) = 1"
  "isubtype (entry_at carried 4) = 0xAA"
  "ipos (entry_at carried 0) = \<lparr>pos_offset = 0x9000, pos_size = 0x5000\<rparr>"
  "ipos (entry_at carried 1) = \<lparr>pos_offset = 0xe000, pos_size = 0x2000\<rparr>"
  "ipos (entry_at carried 2) = \<lparr>pos_offset = 0x10000, pos_size = 0x3d0000\<rparr>"
  "ipos (entry_at carried 3) = \<lparr>pos_offset = 0x400000, pos_size = 0x3d0000\<rparr>"
  "ipos (entry_at carried 4) = \<lparr>pos_offset = 0x7d0000, pos_size = 0x28000\<rparr>"
  by (simp_all add: entry_simps)

lemma boot_entry: "i < 5 \<Longrightarrow> entry_at boot_mem i = entry_at carried i"
  using boot_mem_table by (intro entry_at_cong) simp_all

lemma boot_entries: "entries boot_mem 5 =
    [entry_at carried 0, entry_at carried 1, entry_at carried 2, entry_at carried 3, entry_at carried 4]"
  using boot_entry by (simp add: entries_def upt_rec numeral_nat)

lemma boot_flash_layout: "boot_layout (\<lambda>_. drop 176 tuya_table_head) 0x800000 5 2 boot_flash"
proof -
  have table: "table_at (\<lambda>_. drop 176 tuya_table_head) boot_mem 5"
    using boot_mem_table by (intro holds_carried_table(1)) (simp_all add: holds_carried_def tuya_md5_ok_def)
  have "\<not> pos_offset (ipos (entry_at boot_mem i)) > 0x800000 \<and>
      \<not> pos_offset (ipos (entry_at boot_mem i)) + pos_size (ipos (entry_at boot_mem i)) > 0x800000" if "i < 5" for i
  proof -
    have "i = 0 \<or> i = 1 \<or> i = 2 \<or> i = 3 \<or> i = 4" using that by linarith
    then show ?thesis using boot_entry [OF that] carried_kinds by auto
  qed
  moreover have "[16..<16 + 2] = [16, 17 :: nat]" by (simp add: upt_rec)
  ultimately show ?thesis
    using table carried_kinds carried_items
    by (simp add: boot_layout_def boot_flash_def boot_entries ota_entry_def otadata_entry_def tuya_partitions_def)
qed

lemma boot_flash_records:
  "ota_seq (select_entry boot_mem 0xe000) = 1" "ota_state (select_entry boot_mem 0xe000) = 0xFFFFFFFF"
  "crc (select_entry boot_mem 0xe000) = 1" "ota_seq (select_entry boot_mem 0xf000) = 0xFFFFFFFF"
  by (simp_all add: select_entry_def le32_def boot_mem_def carried_def)

lemma boot_flash_active:
  "records boot_otadata boot_mem = [select_entry boot_mem 0xe000, select_entry boot_mem 0xf000]"
  "bootloader_common_get_active_otadata (crc32 boot_env) (records boot_otadata boot_mem) = Some 0"
proof -
  show r: "records boot_otadata boot_mem = [select_entry boot_mem 0xe000, select_entry boot_mem 0xf000]"
    by (simp add: records_def sector_of_def boot_otadata_def csv_entry_def)
  show "bootloader_common_get_active_otadata (crc32 boot_env) (records boot_otadata boot_mem) = Some 0"
    by (simp add: r active_pair bootloader_common_ota_select_valid_def bootloader_common_ota_select_invalid_def
        bootloader_common_ota_select_crc_def boot_flash_records boot_env_def)
qed

lemma boot_otadata_good: "good_otadata boot_env (\<lambda>_ _. True) 0x800000 boot_otadata boot_flash"
  by (simp add: good_otadata_def find_otadata_def esp_partition_find_first_def boot_flash_def tuya_partitions_def
      partition_matches_def csv_entry_def boot_otadata_def usable_def boot_env_def)

lemma boot_slots_apart: "apart boot_slot_1 boot_otadata"
  unfolding apart_def
proof (intro allI impI)
  fix y assume "y - address boot_slot_1 < psize boot_slot_1"
  then have y: "unat (y - 0x400000) < 0x3d0000" by (simp add: boot_slot_1_def csv_entry_def word_less_nat_alt)
  have "y - 0xe000 = (y - 0x400000) + 0x3f2000" by simp
  then have "unat (y - 0xe000) = unat (y - 0x400000) + 0x3f2000"
    using y unat_plus_exact [of "y - 0x400000" "0x3f2000"] by (simp only:) simp
  then show "\<not> y - address boot_otadata < psize boot_otadata"
    by (simp add: boot_otadata_def csv_entry_def word_less_nat_alt)
qed

lemma boot_env_local: "local_verify (image_verify boot_env)"
  unfolding local_verify_def
proof (intro allI impI)
  fix m m' :: flash_mem and pos :: esp_partition_pos_t
  assume "\<forall>y. y - pos_offset pos < pos_size pos \<longrightarrow> m y = m' y"
  from this [rule_format, of "pos_offset pos"] show "image_verify boot_env m pos = image_verify boot_env m' pos"
    by (cases "pos_size pos = 0") (simp_all add: boot_env_def word_neq_0_conv)
qed

text \<open>The write of the new record was cut off after its first byte.\<close>

definition torn_mem :: flash_mem where
  "torn_mem = boot_mem(0xf000 := 2)"

lemma torn_record:
  "\<not> bootloader_common_ota_select_valid (crc32 boot_env) (select_entry torn_mem (sector_of boot_otadata 1))"
  by (simp add: bootloader_common_ota_select_valid_def bootloader_common_ota_select_crc_def boot_env_def
      select_entry_def le32_def torn_mem_def boot_mem_def carried_def sector_of_def boot_otadata_def csv_entry_def)

lemma torn_outside: "\<not> y - sector_of boot_otadata 1 < 4096 \<Longrightarrow> torn_mem y = mem boot_flash y"
  by (auto simp: torn_mem_def boot_flash_def sector_of_def boot_otadata_def csv_entry_def)


text \<open>
  C17: the application and the bootloader agree on the partition to boot. Whatever the two records
  contain (erased, torn, marked invalid, with any number), the partition that
  \<^verbatim>\<open>esp_ota_get_boot_partition\<close> reports is the one the bootloader starts when the images load.
\<close>

theorem boot_agrees:
  assumes "boot_layout md5sum chip N n f" "good_otadata env safe cs q f" "all_loadable (mem f) N"
  shows "\<exists>i m' p. call_start_cpu0 d md5sum chip True (crc32 env) (\<lambda>_. True) (mem f) = Some (i, m')
    \<and> index_to_partition (boot_state (mem f) N) i = pos_of p
    \<and> esp_ota_get_boot_partition env f = Some (Some p)"
proof (cases "bootloader_common_get_active_otadata (crc32 env) (records q (mem f))")
  case (Some k)
  let ?x = "slot_of (records q (mem f) ! k) n"
  have n: "0 < n" "n < 16" using assms(1) by (simp_all add: boot_layout_def)
  then have "?x < n" using unat_of_nat_32 [of n] by (simp add: slot_of_def unat_mod)
  then obtain p where p: "find_app (16 + ?x) f = Some p" "index_to_partition (boot_state (mem f) N) (int ?x) = pos_of p"
    using layout_slot [OF assms(1)] slot_index [OF assms(1)] by metis
  moreover obtain m' where "bootloader_utility_load_boot_image d (crc32 env) (\<lambda>_. True) (boot_state (mem f) N) False (int ?x) (mem f)
      = Some (int ?x, m')"
    using load_first [of "int ?x" "\<lambda>_. True" "boot_state (mem f) N"] p slot_loadable [OF assms(1,3) p(1)]
    by (fastforce simp: try_load_partition_def)
  ultimately show ?thesis
    using boot_selected [OF assms(1,2) Some] by (simp add: call_start_cpu0_def)
next
  case None
  have n: "0 < n" using assms(1) by (simp add: boot_layout_def)
  obtain p0 where p0: "find_app (16 + 0) f = Some p0" using layout_slot [OF assms(1) n] .
  note i0 = slot_index [OF assms(1) n p0] slot_loadable [OF assms(1,3) p0]
  obtain i init where sel: "select_partition_number md5sum chip True (crc32 env) (mem f) = (boot_state (mem f) N, i, init)"
    "i = - 1 \<or> i = 0 \<and> find_app 0 f = None"
    using boot_default(2) [OF assms None] by blast
  note get = boot_default(1) [OF assms None]
  have call: "call_start_cpu0 d md5sum chip True (crc32 env) (\<lambda>_. True) (mem f) =
      bootloader_utility_load_boot_image d (crc32 env) (\<lambda>_. True) (boot_state (mem f) N) init i (mem f)"
    using sel by (auto simp: call_start_cpu0_def)
  show ?thesis
  proof (cases "find_app 0 f")
    case None
    then have "bs_factory (boot_state (mem f) N) = no_pos" using factory_found [OF assms(1,3)] by auto
    then obtain m' where "call_start_cpu0 d md5sum chip True (crc32 env) (\<lambda>_. True) (mem f) = Some (0, m')"
      using sel(2) call i0 n load_no_factory [of "boot_state (mem f) N" "\<lambda>_. True"] load_first [of 0 "\<lambda>_. True"]
        layout_count(2) [OF assms(1)] by (fastforce simp: try_load_partition_def)
    then show ?thesis using get None p0 i0(1) by auto
  next
    case (Some p)
    then have b: "bs_factory (boot_state (mem f) N) = pos_of p" "psize p \<noteq> 0" "i = - 1"
      using factory_found [OF assms(1,3)] sel(2) by auto
    then obtain m' where "call_start_cpu0 d md5sum chip True (crc32 env) (\<lambda>_. True) (mem f) = Some (- 1, m')"
      using call load_first [of "- 1" "\<lambda>_. True" "boot_state (mem f) N"]
      by (fastforce simp: try_load_partition_def index_to_partition_def)
    then show ?thesis using get Some b(1) by (auto simp: index_to_partition_def)
  qed
qed

theorem boot_agrees_witness:
  "\<exists>i m' p. call_start_cpu0 example_driver (\<lambda>_. drop 176 tuya_table_head) 0x800000 True (crc32 boot_env) (\<lambda>_. True)
        (mem boot_flash) = Some (i, m')
    \<and> index_to_partition (boot_state (mem boot_flash) 5) i = pos_of p
    \<and> esp_ota_get_boot_partition boot_env boot_flash = Some (Some p)"
proof (rule boot_agrees [OF boot_flash_layout boot_otadata_good])
  show "all_loadable (mem boot_flash) 5"
    using boot_entries carried_kinds by (simp add: all_loadable_def boot_flash_def factory_entry_def)
qed

end
