(* ===== verification/Ota_System.thy ===== *)
theory Ota_System
  imports Ota Boot_Switch
begin

text \<open>
  The upgrade from the Tuya SDK down to the flash and up to the next start: the adapter \<open>Ota\<close> runs on
  the upgrade functions \<open>Esp_Ota\<close>, which answer from a state that the calls made so far have produced,
  over a flash that the bootloader reads afterwards.
\<close>

section \<open>The platform of the adapter\<close>

text \<open>A pointer to a partition is its position in the loaded list.\<close>

definition ptr_to :: "flash \<Rightarrow> esp_partition_t \<Rightarrow> partition_ptr" where
  "ptr_to f p = length (takeWhile (\<lambda>r. r \<noteq> p) (s_partition_list f))"

definition part_at :: "flash \<Rightarrow> partition_ptr \<Rightarrow> esp_partition_t" where
  "part_at f i = s_partition_list f ! i"

text \<open>What a call returns and leaves; \<open>None\<close> is an abort.\<close>

fun esp_answer :: "ota_env \<Rightarrow> flash_driver \<Rightarrow> ota_call \<Rightarrow> esp_ota \<Rightarrow> (int \<times> esp_ota) option" where
  "esp_answer env d Esp_ota_get_next_update_partition w = Some (ESP_OK, w)"
| "esp_answer env d (Esp_ota_begin ptr n) w =
     map_option (\<lambda>((err, h), w'). (err, w')) (esp_ota_begin env d (Some (part_at (fl w) ptr)) n w)"
| "esp_answer env d (Esp_ota_write h bs n) w = Some (esp_ota_write env d h (Some bs) n w)"
| "esp_answer env d (Esp_ota_end h) w = Some (esp_ota_end env d h w)"
| "esp_answer env d (Esp_ota_set_boot_partition ptr) w =
     map_option (\<lambda>(err, f). (err, w\<lparr>fl := f\<rparr>)) (esp_ota_set_boot_partition env d (map_option (part_at (fl w)) ptr) (fl w))"
| "esp_answer env d Esp_restart w = Some (ESP_OK, w)"

definition world :: "ota_env \<Rightarrow> flash_driver \<Rightarrow> esp_ota \<Rightarrow> ota_call list \<Rightarrow> esp_ota option" where
  "world env d w0 tr = fold (\<lambda>c w. Option.bind w (\<lambda>w. map_option snd (esp_answer env d c w))) tr (Some w0)"

text \<open>The answers after the calls made so far. After an abort there is nobody left to ask.\<close>

definition esp_platform :: "ota_env \<Rightarrow> flash_driver \<Rightarrow> esp_ota \<Rightarrow> ota_platform" where
  "esp_platform env d w0 = \<lparr>
     next_partition = \<lambda>tr.
       (case world env d w0 tr of
          None \<Rightarrow> None
        | Some w \<Rightarrow> map_option (ptr_to (fl w)) (Option.bind (esp_ota_get_next_update_partition env None (fl w)) id)),
     new_handle = \<lambda>tr.
       (case world env d w0 tr of None \<Rightarrow> 0 | Some w \<Rightarrow> s_ota_ops_last_handle w + 1),
     ota_err = \<lambda>tr c.
       (case Option.bind (world env d w0 tr) (esp_answer env d c) of None \<Rightarrow> ESP_FAIL | Some (err, _) \<Rightarrow> err)\<rparr>"

lemma world_Nil [simp]: "world env d w0 [] = Some w0"
  by (simp add: world_def)

lemma world_snoc [simp]:
  "world env d w0 (tr @ [c]) = Option.bind (world env d w0 tr) (\<lambda>w. map_option snd (esp_answer env d c w))"
  by (simp add: world_def)

lemma takeWhile_position: "p \<in> set ps \<Longrightarrow> ps ! length (takeWhile (\<lambda>r. r \<noteq> p) ps) = p"
  by (induction ps) auto

lemma part_ptr: "p \<in> set (s_partition_list f) \<Longrightarrow> part_at f (ptr_to f p) = p"
  unfolding part_at_def ptr_to_def by (rule takeWhile_position)

section \<open>The next slot\<close>

lemma after_partition_other: "after_partition r b ps = Some p \<Longrightarrow> p \<in> set ps \<and> p \<noteq> r"
  by (induction r b ps rule: after_partition.induct) (auto split: if_splits)

lemma after_partition_none:
  "after_partition (hd ps) False ps = None \<Longrightarrow> distinct ps \<Longrightarrow> length ps < 2"
  by (cases ps; cases "tl ps") auto

lemma layout_slots:
  assumes "boot_layout md5sum chip N n f"
  defines "slots \<equiv> List.map_filter (\<lambda>t. find_app t f) [16..<32]"
  shows "length slots = n" "distinct slots" "p \<in> set slots \<Longrightarrow> \<exists>x<n. find_app (16 + x) f = Some p"
proof -
  have n: "n < 16" using assms(1) by (simp add: boot_layout_def)
  have "List.map_filter (\<lambda>t. find_app t f) [16..<16 + k] = map (\<lambda>x. the (find_app (16 + x) f)) [0..<k]" if "k \<le> n" for k
    using that
  proof (induction k)
    case (Suc k)
    obtain p where "find_app (16 + k) f = Some p" using layout_slot [OF assms(1), of k] Suc.prems by auto
    moreover have "[16..<16 + Suc k] = [16..<16 + k] @ [16 + k]" using upt_Suc_append [of 16 "16 + k"] by simp
    ultimately show ?case using Suc by (simp only: List.map_filter_def) simp
  qed (simp add: List.map_filter_def)
  moreover have "List.map_filter (\<lambda>t. find_app t f) [16 + n..<32] = []"
  proof -
    have "find_app t f = None" if "t \<in> set [16 + n..<32]" for t
      using layout_no_slot [OF assms(1), of "t - 16"] that by auto
    then show ?thesis by (simp add: List.map_filter_def filter_False)
  qed
  moreover have "[16..<32] = [16..<16 + n] @ [16 + n..<32 :: nat]"
    using n upt_add_eq_append [of 16 "16 + n" "16 - n"] by simp
  ultimately have s: "slots = map (\<lambda>x. the (find_app (16 + x) f)) [0..<n]"
    unfolding slots_def by (simp add: List.map_filter_def)
  show "length slots = n" by (simp add: s)
  have sub: "find_app (16 + x) f \<noteq> None \<and> subtype (the (find_app (16 + x) f)) = 16 + x" if "x < n" for x
    by (rule layout_slot [OF assms(1) that]) simp
  have "x = y" if "x < n" "y < n" "the (find_app (16 + x) f) = the (find_app (16 + y) f)" for x y
    using arg_cong [OF that(3), of subtype] sub [OF that(1)] sub [OF that(2)] by linarith
  then have "inj_on (\<lambda>x. the (find_app (16 + x) f)) (set [0..<n])" by (intro inj_onI) simp
  then show "distinct slots" by (simp only: s distinct_map distinct_upt)
  assume "p \<in> set slots"
  then obtain x where "x < n" "p = the (find_app (16 + x) f)" by (auto simp: s)
  with sub show "\<exists>x<n. find_app (16 + x) f = Some p" by (metis option.collapse)
qed

text \<open>With two slots the next one is never the partition the program runs from.\<close>

lemma next_update_slot:
  assumes "boot_layout md5sum chip N n f" "2 \<le> n" "esp_ota_get_running_partition env f = Some r"
  obtains x p where "esp_ota_get_next_update_partition env None f = Some (Some p)" "x < n"
    "find_app (16 + x) f = Some p" "p \<noteq> r"
proof -
  let ?slots = "List.map_filter (\<lambda>t. find_app t f) [16..<32]"
  note sl = layout_slots [OF assms(1)]
  have "\<exists>p. esp_ota_get_next_update_partition env None f = Some (Some p) \<and> p \<in> set ?slots \<and> p \<noteq> r"
  proof (cases "after_partition r False ?slots")
    case None
    obtain p ps where ps: "?slots = p # ps" using sl(1) assms(2) by (cases ?slots) auto
    moreover have "p \<noteq> r" using after_partition_none [of ?slots] None sl(1,2) assms(2) ps by auto
    ultimately show ?thesis using None assms(3) by (simp add: esp_ota_get_next_update_partition_def)
  next
    case (Some p)
    then show ?thesis using after_partition_other [OF Some] assms(3) by (simp add: esp_ota_get_next_update_partition_def)
  qed
  then show ?thesis using sl(3) that by blast
qed

section \<open>A session\<close>

lemma and_not_mask: "(w :: 'a :: len word) AND NOT (mask k) = w - take_bit k w"
proof -
  have "(w AND mask k) AND (w AND NOT (mask k)) = 0" by (simp add: and.assoc and.left_commute)
  then have "(w AND mask k) + (w AND NOT (mask k)) = (w AND mask k) OR (w AND NOT (mask k))"
    by (rule disjunctive_add_eq_or)
  also have "\<dots> = w AND (mask k OR NOT (mask k))" by (simp only: bit.conj_disj_distrib)
  also have "\<dots> = w" by (simp only: bit.disj_cancel_right and.right_neutral)
  finally show ?thesis by (simp add: take_bit_eq_mask eq_diff_eq add.commute)
qed

text \<open>Rounding up to whole sectors stays inside an aligned partition.\<close>

lemma round_up:
  assumes "unat n \<le> unat sz" "sz mod 4096 = (0 :: uint32)"
  defines "k \<equiv> (n + SPI_FLASH_SEC_SIZE - 1) AND NOT (SPI_FLASH_SEC_SIZE - 1)"
  shows "unat n \<le> unat k" "unat k \<le> unat sz" "k mod 4096 = 0"
proof -
  define b where "b = n + 4095"
  have "unat (sz mod 4096) = 0" using assms(2) by simp
  then have "unat sz mod 4096 = 0" by (simp add: unat_mod)
  then obtain t where t: "unat sz = 4096 * t" by (auto simp: mod_eq_0_iff_dvd elim: dvdE)
  then have "unat sz \<le> 2 ^ 32 - 4096" using unat_less_32 [of sz] by simp
  then have b: "unat b = unat n + 4095" using assms(1) by (simp add: b_def unat_plus_exact)
  have "(4095 :: uint32) = mask 12" by (simp add: mask_eq_exp_minus_1)
  then have "k = b - take_bit 12 b" unfolding k_def and_not_mask [symmetric] b_def by (simp add: add.commute)
  then have k: "k = b - b mod 4096" by (simp add: take_bit_eq_mod)
  have "b mod 4096 \<le> b" by (simp add: word_le_nat_alt unat_mod)
  then have "unat k = unat b - unat b mod 4096" by (simp add: k unat_sub unat_mod)
  then have K: "unat k = 4096 * ((unat n + 4095) div 4096)" by (simp add: b minus_mod_eq_mult_div)
  show "unat n \<le> unat k" unfolding K by linarith
  have "(unat n + 4095) div 4096 \<le> t" using assms(1) t by linarith
  then show "unat k \<le> unat sz" unfolding K t by simp
  have "unat (k mod 4096) = 0" unfolding unat_mod K by simp
  then show "k mod 4096 = 0" by (simp only: unat_eq_zero)
qed

text \<open>The state while \<open>W\<close> bytes of the image are written.\<close>

definition in_session :: "uint32 \<Rightarrow> esp_partition_t \<Rightarrow> ota_ops_entry list \<Rightarrow> flash \<Rightarrow> byte list \<Rightarrow> nat \<Rightarrow> esp_ota \<Rightarrow> bool" where
  "in_session h p es f0 img W w \<longleftrightarrow>
     s_ota_ops_entries w = \<lparr>ehandle = h, part = p, need_erase = False, wrote_size = of_nat W,
       partial_bytes = 0, partial_data = replicate 16 0\<rparr> # es \<and>
     s_partition_list (fl w) = s_partition_list f0 \<and>
     (\<forall>i<length img. mem (fl w) (address p + of_nat i) = (if i < W then img ! i else 0xFF)) \<and>
     (\<forall>y. \<not> y - address p < psize p \<longrightarrow> mem (fl w) y = mem f0 y)"

text \<open>The partition is one the chip can change, whole sectors, and large enough.\<close>

definition slot_fits :: "(uint32 \<Rightarrow> uint32 \<Rightarrow> bool) \<Rightarrow> nat \<Rightarrow> nat \<Rightarrow> esp_partition_t \<Rightarrow> bool" where
  "slot_fits safe cs n p \<longleftrightarrow> usable safe cs p \<and> psize p mod 4096 = 0 \<and> n \<le> unat (psize p) \<and> 0 < n"

lemma verify_slot:
  assumes "boot_layout md5sum chip N n f" "x < n" "find_app (16 + x) f = Some p"
  shows "esp_partition_verify p f = Some p" "is_ota_partition p" "p \<in> set (s_partition_list f)"
proof -
  have x: "x < 16" "n < 16" using assms(1,2) by (simp_all add: boot_layout_def)
  let ?P = "\<lambda>r. ESP_PARTITION_TYPE_APP = ptype r \<and> 16 + x = subtype r"
  have "length (filter ?P (s_partition_list f)) = length (filter (slot_entry x) (entries (mem f) N))"
    using assms(1) by (simp add: boot_layout_def filter_map comp_def slot_entry_def [abs_def] eq_commute [of _ "ptype _"]
        eq_commute [of "16 + x"])
  then have "length (filter ?P (s_partition_list f)) = 1" using slot_count [OF assms(1) x(1)] assms(2) by simp
  then obtain r where r: "filter ?P (s_partition_list f) = [r]" by (cases "filter ?P (s_partition_list f)") auto
  have "find ?P (s_partition_list f) = Some p"
    using assms(3) by (simp add: find_app_def esp_partition_find_first_def partition_matches_def [abs_def])
  then have p: "filter ?P (s_partition_list f) = [p]" using r by (simp add: find_filter)
  then have "p \<in> set (filter ?P (s_partition_list f))" by simp
  then show mem: "p \<in> set (s_partition_list f)" and "is_ota_partition p"
    using x assms(2) by (auto simp: is_ota_partition_def)
  have sub: "ptype p = ESP_PARTITION_TYPE_APP" "subtype p = 16 + x"
    using \<open>p \<in> set (filter ?P (s_partition_list f))\<close> by auto
  let ?lab = "if label p \<noteq> [] then Some (label p) else None"
  have "filter (partition_matches (Some (ptype p)) (Some (subtype p)) ?lab) (s_partition_list f)
      = filter (partition_matches (Some (ptype p)) (Some (subtype p)) ?lab) (filter ?P (s_partition_list f))"
    unfolding filter_filter by (rule filter_cong) (auto simp: partition_matches_def sub)
  also have "\<dots> = [p]" unfolding p by (simp add: partition_matches_def)
  finally show "esp_partition_verify p f = Some p"
    by (simp add: esp_partition_verify_def esp_partition_find_def)
qed

lemma session_begin_ok:
  assumes "nor_flash safe cs d" "slot_fits safe cs (unat n) p" "esp_partition_verify p (fl w) = Some p"
    and "is_ota_partition p" "esp_ota_get_running_partition env (fl w) = Some r" "p \<noteq> r"
    and "entry_calloc env (s_ota_ops_last_handle w + 1)" "length img = unat n"
  obtains w' where "esp_ota_begin env d (Some p) n w = Some ((ESP_OK, s_ota_ops_last_handle w + 1), w')"
    "in_session (s_ota_ops_last_handle w + 1) p (s_ota_ops_entries w) (fl w) img 0 w'"
proof -
  have fit: "usable safe cs p" "psize p mod 4096 = 0" "unat n \<le> unat (psize p)" "0 < unat n"
    using assms(2) by (simp_all add: slot_fits_def)
  define k where "k = (n + SPI_FLASH_SEC_SIZE - 1) AND NOT (SPI_FLASH_SEC_SIZE - 1)"
  note k = round_up [OF fit(3,2), folded k_def]
  have "unat (psize p mod 4096) = 0" using fit(2) by simp
  then have "unat (psize p) mod 4096 = 0" by (simp add: unat_mod)
  then have "unat (psize p) \<noteq> 2 ^ 32 - 1 \<and> unat (psize p) \<noteq> 2 ^ 32 - 2" by auto
  then have "unat n < 2 ^ 32 - 2" using fit(3) unat_less_32 [of "psize p"] by linarith
  then have n: "n \<noteq> 0" "n \<noteq> OTA_SIZE_UNKNOWN" "n \<noteq> OTA_WITH_SEQUENTIAL_WRITES" using fit(4) by auto
  define f1 where "f1 = (fl w)\<lparr>mem := \<lambda>x. if x - address p < k then 0xFF else mem (fl w) x\<rparr>"
  have er: "esp_partition_erase_range d p 0 k (fl w) = (ESP_OK, f1)"
    using partition_erase_ok [OF assms(1) fit(1), of 0 k "fl w"] k by (simp add: f1_def)
  define w' where "w' = w\<lparr>fl := f1, s_ota_ops_last_handle := s_ota_ops_last_handle w + 1,
      s_ota_ops_entries := \<lparr>ehandle = s_ota_ops_last_handle w + 1, part = p, need_erase = False,
        wrote_size = 0, partial_bytes = 0, partial_data = replicate 16 0\<rparr> # s_ota_ops_entries w\<rparr>"
  have "esp_ota_begin env d (Some p) n w = Some ((ESP_OK, s_ota_ops_last_handle w + 1), w')"
    using assms n er [unfolded k_def] by (simp add: esp_ota_begin_def Let_def w'_def)
  moreover have "address p + of_nat i - address p < k" if "i < unat n" for i
    using that k(1) unat_less_32 [of n] unat_of_nat_32 [of i] by (simp add: word_less_nat_alt)
  moreover have "\<not> y - address p < k" if "\<not> y - address p < psize p" for y
    using that k(2) by (simp add: word_less_nat_alt)
  ultimately show ?thesis
    using that [of w'] assms(8) by (simp add: in_session_def w'_def f1_def)
qed

lemma unat_diff:
  assumes "i < 2 ^ 32" "W < 2 ^ 32"
  shows "unat (of_nat i - of_nat W :: uint32) = (if W \<le> i then i - W else 2 ^ 32 + i - W)"
  using assms unat_of_nat_32 [of i] unat_of_nat_32 [of W] by (auto simp: unat_sub_if')

lemma session_write:
  assumes "in_session h p es f0 img W w" "slot_fits safe cs (length img) p" "W + length bs \<le> length img"
    and "bs = take (length bs) (drop W img)" "length bs = unat l"
    and m_def: "m = (\<lambda>x. if x - (address p + of_nat W) < l
      then mem (fl w) x AND bs ! unat (x - (address p + of_nat W)) else mem (fl w) x)"
  shows "\<forall>i<length img. m (address p + of_nat i) = (if i < W + length bs then img ! i else 0xFF)"
    "\<forall>y. \<not> y - address p < psize p \<longrightarrow> m y = mem f0 y"
proof -
  have big: "length img < 2 ^ 32" using assms(2) unat_less_32 [of "psize p"] by (simp add: slot_fits_def)
  show "\<forall>i<length img. m (address p + of_nat i) = (if i < W + length bs then img ! i else 0xFF)"
  proof (intro allI impI)
    fix i assume i: "i < length img"
    have d: "address p + of_nat i - (address p + of_nat W) = of_nat i - of_nat W" by simp
    have u: "unat (of_nat i - of_nat W :: uint32) = (if W \<le> i then i - W else 2 ^ 32 + i - W)"
      using i big assms(3) by (intro unat_diff) simp_all
    have old: "mem (fl w) (address p + of_nat i) = (if i < W then img ! i else 0xFF)"
      using assms(1) i by (simp add: in_session_def)
    have b: "bs ! (i - W) = img ! i" if "W \<le> i" "i < W + length bs"
      using that i by (subst assms(4)) simp
    show "m (address p + of_nat i) = (if i < W + length bs then img ! i else 0xFF)"
    proof (cases "W \<le> i \<and> i < W + length bs")
      case True
      then have "i - W < unat l" using assms(5) by linarith
      then show ?thesis unfolding m_def d word_less_nat_alt using u old b assms(5) True by simp
    next
      case False
      then have "\<not> unat (of_nat i - of_nat W :: uint32) < unat l" using u assms(3,5) big by auto
      then show ?thesis unfolding m_def d word_less_nat_alt using old False by auto
    qed
  qed
  have "unat (of_nat W :: uint32) + unat l \<le> unat (psize p)"
    using assms(2,3,5) big unat_of_nat_32 [of W] by (simp add: slot_fits_def)
  then have "\<not> y - (address p + of_nat W) < l" if "\<not> y - address p < psize p" for y
    using that sub_range by blast
  then show "\<forall>y. \<not> y - address p < psize p \<longrightarrow> m y = mem f0 y"
    using assms(1) by (simp add: m_def in_session_def)
qed

lemma session_write_ok:
  assumes "nor_flash safe cs d" "slot_fits safe cs (length img) p" "\<not> flash_encrypted env"
    and "in_session h p es f0 img W w" "W + length bs \<le> length img" "bs = take (length bs) (drop W img)"
    and "length bs = unat l" "img ! 0 = ESP_IMAGE_HEADER_MAGIC"
  obtains w' where "esp_ota_write env d h (Some bs) l w = (ESP_OK, w')" "in_session h p es f0 img (W + length bs) w'"
proof -
  define it where "it = \<lparr>ehandle = h, part = p, need_erase = False, wrote_size = of_nat W,
       partial_bytes = 0, partial_data = replicate 16 0\<rparr>"
  have en: "s_ota_ops_entries w = it # es" using assms(4) by (simp add: in_session_def it_def)
  have big: "length img < 2 ^ 32" "W < 2 ^ 32" using assms(2,5) unat_less_32 [of "psize p"] by (simp_all add: slot_fits_def)
  have magic: "bs ! 0 = ESP_IMAGE_HEADER_MAGIC" if "of_nat W = (0 :: uint32)" "l > 0"
  proof -
    have W: "W = 0" using that(1) unat_of_nat_32 [OF big(2)] by simp
    have "0 < length bs" using that(2) assms(7) by (simp add: unat_gt_0 word_neq_0_conv)
    then show ?thesis using assms(8) by (subst assms(6)) (simp add: W)
  qed
  define m where "m = (\<lambda>x. if x - (address p + of_nat W) < l
    then mem (fl w) x AND bs ! unat (x - (address p + of_nat W)) else mem (fl w) x)"
  have "unat (of_nat W :: uint32) + unat l \<le> unat (psize p)"
    using assms(2,5,7) unat_of_nat_32 [OF big(2)] by (simp add: slot_fits_def)
  then have wr: "esp_partition_write d p (of_nat W) bs l (fl w) = (ESP_OK, (fl w)\<lparr>mem := m\<rparr>)"
    using partition_write_ok [OF assms(1)] assms(2,7) unfolding m_def by (simp add: slot_fits_def)
  define w' where "w' = w\<lparr>fl := (fl w)\<lparr>mem := m\<rparr>, s_ota_ops_entries := it\<lparr>wrote_size := of_nat W + l\<rparr> # es\<rparr>"
  have "get_ota_ops_entry h w = Some it" using en by (simp add: get_ota_ops_entry_def it_def)
  then have "esp_ota_write env d h (Some bs) l w = (ESP_OK, w')"
    using assms(3) magic wr en
    by (auto simp: esp_ota_write_def erase_for_write_def write_rest_def Let_def it_def w'_def)
  moreover have "of_nat W + l = of_nat (W + length bs)" using assms(7) by simp
  then have "in_session h p es f0 img (W + length bs) w'"
    using session_write [OF assms(4,2,5,6,7) m_def] assms(4)
    by (simp add: in_session_def w'_def it_def)
  ultimately show ?thesis using that by blast
qed

lemma session_end_ok:
  assumes "in_session h p es f0 img (length img) w" "slot_fits safe cs (length img) p" "image_verify env (mem (fl w)) (pos_of p)"
  shows "esp_ota_end env d h w = (ESP_OK, w\<lparr>s_ota_ops_entries := es\<rparr>)"
proof -
  have "length img < 2 ^ 32" "0 < length img" using assms(2) unat_less_32 [of "psize p"] by (simp_all add: slot_fits_def)
  then have "(of_nat (length img) :: uint32) \<noteq> 0" using unat_of_nat_32 [of "length img"] by (metis less_irrefl unat_0)
  then show ?thesis
    using assms(1,3) by (simp add: esp_ota_end_def get_ota_ops_entry_def in_session_def Let_def pos_of_def)
qed

section \<open>The adapter on the upgrade functions\<close>

lemma platform_answer:
  assumes "world env d w0 tr = Some w" "esp_answer env d c w = Some (e, w')"
  shows "ota_err (esp_platform env d w0) tr c = e" "world env d w0 (tr @ [c]) = Some w'"
  using assms by (simp_all add: esp_platform_def)

lemma chunk_written:
  assumes "nor_flash safe cs d" "slot_fits safe cs (length img) p" "\<not> flash_encrypted env"
    and "img ! 0 = ESP_IMAGE_HEADER_MAGIC" "state s \<in> {TKL_OTA_BEGIN, TKL_OTA_IN_PROGRESS}"
    and "world env d w0 (calls s) = Some w" "in_session (handle s) p es f0 img W w"
    and "W + length (data c) \<le> length img" "data c = take (length (data c)) (drop W img)"
    and "length (data c) = unat (len c)"
  shows "\<exists>w'. ota_step (esp_platform env d w0) (chunk_input c) s =
      s\<lparr>calls := calls s @ [write_of (handle s) c],
        state := (if offset_image_size s + len c = image_size s then TKL_OTA_SUCCESS else TKL_OTA_IN_PROGRESS),
        offset_image_size := offset_image_size s + len c\<rparr>
    \<and> world env d w0 (calls s @ [write_of (handle s) c]) = Some w'
    \<and> in_session (handle s) p es f0 img (W + length (data c)) w'"
proof -
  obtain w' where w': "esp_ota_write env d (handle s) (Some (data c)) (len c) w = (ESP_OK, w')"
    "in_session (handle s) p es f0 img (W + length (data c)) w'"
    using session_write_ok [OF assms(1,2,3,7,8,9,10,4)] .
  then have "esp_answer env d (write_of (handle s) c) w = Some (ESP_OK, w')" by (simp add: write_of_def)
  note pa = platform_answer [OF assms(6) this]
  have "ota_step (esp_platform env d w0) (chunk_input c) s =
      s\<lparr>calls := calls s @ [write_of (handle s) c],
        state := (if offset_image_size s + len c = image_size s then TKL_OTA_SUCCESS else TKL_OTA_IN_PROGRESS),
        offset_image_size := offset_image_size s + len c\<rparr>"
    using pa(1) assms(5) by (auto simp: tkl_ota_data_process_def issue_def Let_def write_of_def)
  then show ?thesis using pa(2) w'(2) by blast
qed

lemma chunks_written:
  assumes "nor_flash safe cs d" "slot_fits safe cs (length img) p" "\<not> flash_encrypted env"
    and "img ! 0 = ESP_IMAGE_HEADER_MAGIC"
    and "state s \<in> {TKL_OTA_BEGIN, TKL_OTA_IN_PROGRESS}"
    and "world env d w0 (calls s) = Some w" "in_session (handle s) p es f0 img W w"
    and "unat (offset_image_size s) = W" "unat (image_size s) = length img"
    and "ds \<noteq> []" "\<forall>c \<in> set ds. len c \<noteq> 0 \<and> length (data c) = unat (len c)" "concat (map data ds) = drop W img"
  shows "\<exists>s' w'. fold (ota_step (esp_platform env d w0)) (map chunk_input ds) s = s' \<and> state s' = TKL_OTA_SUCCESS
    \<and> handle s' = handle s \<and> partition s' = partition s
    \<and> world env d w0 (calls s') = Some w' \<and> in_session (handle s) p es f0 img (length img) w'"
  using assms(5-)
proof (induction ds arbitrary: s w W)
  case (Cons c ds)
  have c: "length (data c) = unat (len c)" "len c \<noteq> 0" using Cons.prems(7) by simp_all
  have dr: "drop W img = data c @ concat (map data ds)" using Cons.prems(8) by simp
  from arg_cong [OF dr, of length] c(2) have fit: "W + length (data c) \<le> length img"
    using c(1) by (cases "W \<le> length img") (auto simp: unat_eq_zero)
  have tk: "data c = take (length (data c)) (drop W img)" by (simp add: dr)
  obtain w' where w': "ota_step (esp_platform env d w0) (chunk_input c) s =
      s\<lparr>calls := calls s @ [write_of (handle s) c],
        state := (if offset_image_size s + len c = image_size s then TKL_OTA_SUCCESS else TKL_OTA_IN_PROGRESS),
        offset_image_size := offset_image_size s + len c\<rparr>"
    "world env d w0 (calls s @ [write_of (handle s) c]) = Some w'"
    "in_session (handle s) p es f0 img (W + length (data c)) w'"
    using chunk_written [OF assms(1,2,3,4) Cons.prems(1,2,3) fit tk c(1)] by blast
  have rest: "concat (map data ds) = drop (W + length (data c)) img"
    by (metis add.commute append_eq_conv_conj dr drop_drop)
  have off: "unat (offset_image_size s + len c) = W + length (data c)"
    using Cons.prems(4,5) c(1) fit unat_less_32 [of "image_size s"] by (simp add: unat_plus_exact)
  show ?case
  proof (cases "ds = []")
    case True
    then have "W + length (data c) = length img" using rest fit by simp
    moreover from this off have "offset_image_size s + len c = image_size s"
      using Cons.prems(5) by (metis unsigned_word_eqI)
    ultimately show ?thesis using True w' by (simp del: ota_step.simps)
  next
    case False
    then obtain e es' where ds: "ds = e # es'" by (cases ds) auto
    then have "data e \<noteq> []" using Cons.prems(7) by (auto simp: unat_eq_zero)
    then have "W + length (data c) < length img" using rest ds by (cases "W + length (data c) < length img") auto
    then have "offset_image_size s + len c \<noteq> image_size s" using off Cons.prems(5) by auto
    then show ?thesis
      using Cons.IH [of "ota_step (esp_platform env d w0) (chunk_input c) s" w' "W + length (data c)"]
        Cons.prems(5,7) False off rest w' by (simp del: ota_step.simps)
  qed
qed simp

section \<open>Around the session\<close>

text \<open>The slots and the image that is to be installed.\<close>

definition slots_ready :: "(uint32 \<Rightarrow> uint32 \<Rightarrow> bool) \<Rightarrow> nat \<Rightarrow> nat \<Rightarrow> esp_partition_t \<Rightarrow> nat \<Rightarrow> flash \<Rightarrow> bool" where
  "slots_ready safe cs k q n f \<longleftrightarrow>
     (\<forall>x<n. \<forall>p. find_app (16 + x) f = Some p \<longrightarrow>
        slot_fits safe cs k p \<and> apart p q \<and> 0x9000 \<le> unat (address p))"

definition image_valid :: "ota_env \<Rightarrow> byte list \<Rightarrow> bool" where
  "image_valid env img \<longleftrightarrow> img ! 0 = ESP_IMAGE_HEADER_MAGIC \<and>
     (\<forall>m pos. length img \<le> unat (pos_size pos) \<and> (\<forall>i<length img. m (pos_offset pos + of_nat i) = img ! i) \<longrightarrow>
        image_verify env m pos)"

text \<open>A session in a slot changes neither the table nor the records.\<close>

lemma session_layout:
  assumes "in_session h p es f0 img W w" "boot_layout md5sum chip N n f0" "good_otadata env safe cs q f0"
    and "usable safe cs p" "apart p q" "0x9000 \<le> unat (address p)"
  shows "boot_layout md5sum chip N n (fl w)" "good_otadata env safe cs q (fl w)"
    "records q (mem (fl w)) = records q (mem f0)"
proof -
  have list: "s_partition_list (fl w) = s_partition_list f0" and out: "\<forall>y. \<not> y - address p < psize p \<longrightarrow> mem (fl w) y = mem f0 y"
    using assms(1) by (simp_all add: in_session_def)
  show "boot_layout md5sum chip N n (fl w)"
  proof (rule layout_cong(1) [OF assms(2) list])
    fix j :: nat assume j: "j < 3072"
    have "unat (0x8000 + of_nat j :: uint32) = 0x8000 + j"
      using j unat_of_nat_32 [of j] by (subst unat_plus_exact) simp_all
    then have "\<not> (0x8000 + of_nat j) - address p < psize p"
      using assms(4,6) j by (intro below_range) (simp_all add: usable_def)
    then show "mem (fl w) (0x8000 + of_nat j) = mem f0 (0x8000 + of_nat j)" using out by blast
  qed
  show good: "good_otadata env safe cs q (fl w)" using assms(3) good_otadata_list [OF list] by blast
  have "select_entry (mem (fl w)) (sector_of q i) = select_entry (mem f0) (sector_of q i)" if "i \<le> 1" for i
  proof (rule select_entry_cong, rule out [rule_format])
    fix j :: nat assume "j < 32"
    then have "sector_of q i + of_nat j - address q < psize q"
      by (intro sector_inside [OF assms(3) that] in_sector(1))
    then show "\<not> sector_of q i + of_nat j - address p < psize p" using assms(5) unfolding apart_def by blast
  qed
  then show "records q (mem (fl w)) = records q (mem f0)" by (simp add: records_def)
qed

lemma ota_start_ok:
  assumes "world env d w0 [] = Some w" "esp_ota_get_next_update_partition env None (fl w) = Some (Some p)"
    and "p \<in> set (s_partition_list (fl w))"
    and "esp_ota_begin env d (Some p) sz w = Some ((ESP_OK, s_ota_ops_last_handle w + 1), w1)" "sz \<noteq> 0"
  shows "\<exists>s1. ota_step (esp_platform env d w0) (Start sz ty path) tkl_ota_handle = s1 \<and> state s1 = TKL_OTA_BEGIN
    \<and> handle s1 = s_ota_ops_last_handle w + 1 \<and> partition s1 = Some (ptr_to (fl w) p) \<and> image_size s1 = sz
    \<and> offset_image_size s1 = 0 \<and> world env d w0 (calls s1) = Some w1"
proof -
  have w: "world env d w0 [Esp_ota_get_next_update_partition] = Some w"
    using platform_answer(2) [OF assms(1), of Esp_ota_get_next_update_partition ESP_OK w] by simp
  have "esp_answer env d (Esp_ota_begin (ptr_to (fl w) p) sz) w = Some (ESP_OK, w1)"
    using assms(4) part_ptr [OF assms(3)] by simp
  note pa = platform_answer [OF w this]
  have "next_partition (esp_platform env d w0) [] = Some (ptr_to (fl w) p)"
    using assms(1,2) by (simp add: esp_platform_def)
  moreover have "new_handle (esp_platform env d w0) [Esp_ota_get_next_update_partition] = s_ota_ops_last_handle w + 1"
    using w by (simp add: esp_platform_def)
  ultimately show ?thesis
    using pa assms(5) by (simp add: tkl_ota_handle_def ota_op_defs)
qed

lemma ota_finish_ok:
  assumes "state s = TKL_OTA_SUCCESS" "partition s = Some (ptr_to (fl w) p)" "p \<in> set (s_partition_list (fl w))"
    and "world env d w0 (calls s) = Some w" "esp_ota_end env d (handle s) w = (ESP_OK, w\<lparr>s_ota_ops_entries := es\<rparr>)"
    and "esp_ota_set_boot_partition env d (Some p) (fl w) = Some (ESP_OK, f')"
  shows "\<exists>s'. tkl_ota_end_notify (esp_platform env d w0) reset s = (OPRT_OK, s')
    \<and> world env d w0 (calls s') = Some (w\<lparr>s_ota_ops_entries := es, fl := f'\<rparr>)"
proof -
  let ?w = "w\<lparr>s_ota_ops_entries := es\<rparr>"
  have e: "esp_answer env d (Esp_ota_end (handle s)) w = Some (ESP_OK, ?w)" using assms(5) by simp
  note p1 = platform_answer [OF assms(4) e]
  have b: "esp_answer env d (Esp_ota_set_boot_partition (partition s)) ?w = Some (ESP_OK, ?w\<lparr>fl := f'\<rparr>)"
    using assms(2,6) part_ptr [OF assms(3)] by simp
  note p2 = platform_answer [OF p1(2) b]
  show ?thesis
    using assms(1) p1 p2 platform_answer(2) [OF p2(2), of Esp_restart ESP_OK "?w\<lparr>fl := f'\<rparr>"]
    by (simp add: ota_op_defs del: world_snoc)
qed

text \<open>From the announcement to the last chunk.\<close>

lemma ota_downloaded:
  assumes "nor_flash safe cs d" "boot_layout md5sum chip N n (fl w)" "2 \<le> n"
    and "esp_ota_get_running_partition env (fl w) = Some r" "entry_calloc env (s_ota_ops_last_handle w + 1)"
    and "\<not> flash_encrypted env" "slots_ready safe cs (unat sz) q n (fl w)" "concat (map data ds) ! 0 = ESP_IMAGE_HEADER_MAGIC"
    and "\<forall>c \<in> set ds. len c \<noteq> 0 \<and> length (data c) = unat (len c)" "length (concat (map data ds)) = unat sz"
  obtains x p s2 w2 where "x < n" "find_app (16 + x) (fl w) = Some p" "p \<noteq> r" "p \<in> set (s_partition_list (fl w))"
    "slot_fits safe cs (unat sz) p" "apart p q" "0x9000 \<le> unat (address p)"
    "fold (ota_step (esp_platform env d w)) (Start sz ty path # map chunk_input ds) tkl_ota_handle = s2"
    "state s2 = TKL_OTA_SUCCESS" "partition s2 = Some (ptr_to (fl w) p)" "world env d w (calls s2) = Some w2"
    "in_session (handle s2) p (s_ota_ops_entries w) (fl w) (concat (map data ds)) (unat sz) w2"
proof -
  let ?P = "esp_platform env d w" and ?img = "concat (map data ds)" and ?h = "s_ota_ops_last_handle w + 1"
  obtain x p where p: "esp_ota_get_next_update_partition env None (fl w) = Some (Some p)" "x < n"
    "find_app (16 + x) (fl w) = Some p" "p \<noteq> r"
    using next_update_slot [OF assms(2,3,4)] .
  note v = verify_slot [OF assms(2) p(2,3)]
  have fit: "slot_fits safe cs (unat sz) p" "apart p q" "0x9000 \<le> unat (address p)" and sz: "0 < unat sz"
    using assms(7) p(2,3) by (auto simp: slots_ready_def slot_fits_def)
  obtain w1 where w1: "esp_ota_begin env d (Some p) sz w = Some ((ESP_OK, ?h), w1)"
    "in_session ?h p (s_ota_ops_entries w) (fl w) ?img 0 w1"
    using session_begin_ok [OF assms(1) fit(1) v(1,2) assms(4) p(4) assms(5,10)] .
  obtain s1 where s1: "ota_step ?P (Start sz ty path) tkl_ota_handle = s1" "state s1 = TKL_OTA_BEGIN" "handle s1 = ?h"
    "partition s1 = Some (ptr_to (fl w) p)" "image_size s1 = sz" "offset_image_size s1 = 0" "world env d w (calls s1) = Some w1"
    using ota_start_ok [OF world_Nil p(1) v(3) w1(1)] sz by (metis less_irrefl unat_0)
  have "ds \<noteq> []" using assms(10) sz by auto
  then obtain s2 w2 where s2: "fold (ota_step ?P) (map chunk_input ds) s1 = s2" "state s2 = TKL_OTA_SUCCESS"
    "handle s2 = ?h" "partition s2 = Some (ptr_to (fl w) p)" "world env d w (calls s2) = Some w2"
    "in_session ?h p (s_ota_ops_entries w) (fl w) ?img (length ?img) w2"
    using chunks_written [OF assms(1) _ assms(6,8), of p s1 w w1 "s_ota_ops_entries w" "fl w" 0 ds]
      assms(9,10) s1 w1(2) fit(1) by auto
  show ?thesis
    by (rule that [OF p(2,3,4) v(3) fit _ s2(2,4,5)]) (use s1(1) s2(1,3,6) assms(10) in \<open>simp_all del: ota_step.simps\<close>)
qed

section \<open>Properties\<close>


text \<open>A device that runs from slot 0 and downloads three bytes in two chunks.\<close>

definition device :: esp_ota where
  "device = \<lparr>fl = boot_flash, s_ota_ops_entries = [], s_ota_ops_last_handle = 0\<rparr>"

definition chunk_1 :: TUYA_OTA_DATA_T where
  "chunk_1 = \<lparr>total_len = 3, offset = 0, data = [0xE9, 1], len = 2, pri_data = 0\<rparr>"

definition chunk_2 :: TUYA_OTA_DATA_T where
  "chunk_2 = \<lparr>total_len = 3, offset = 2, data = [2], len = 1, pri_data = 0\<rparr>"

definition boot_slot_0 :: esp_partition_t where
  "boot_slot_0 = csv_entry ''ota_0'' ESP_PARTITION_TYPE_APP 0x10 0x10000 0x3d0000"

lemma device_slots:
  "find_app (16 + 0) boot_flash = Some boot_slot_0" "find_app (16 + 1) boot_flash = Some boot_slot_1"
  by (simp_all add: find_app_def esp_partition_find_first_def boot_flash_def tuya_partitions_def
      partition_matches_def csv_entry_def boot_slot_0_def boot_slot_1_def)

lemma boot_slot_0_apart: "apart boot_slot_0 boot_otadata"
  unfolding apart_def
proof (intro allI impI)
  fix y assume "y - address boot_slot_0 < psize boot_slot_0"
  then have y: "unat (y - 0x10000) < 0x3d0000" by (simp add: boot_slot_0_def csv_entry_def word_less_nat_alt)
  have "y - 0xe000 = (y - 0x10000) + 0x2000" by simp
  then have "unat (y - 0xe000) = unat (y - 0x10000) + 0x2000"
    using y unat_plus_exact [of "y - 0x10000" "0x2000"] by (simp only:) simp
  then show "\<not> y - address boot_otadata < psize boot_otadata"
    by (simp add: boot_otadata_def csv_entry_def word_less_nat_alt)
qed

lemma device_slots_ready: "slots_ready (\<lambda>_ _. True) 0x800000 3 boot_otadata 2 boot_flash"
  unfolding slots_ready_def
proof (intro allI impI)
  fix x p assume x: "x < 2" "find_app (16 + x) boot_flash = Some p"
  from x(1) have "x = 0 \<or> x = 1" by linarith
  then have "p = boot_slot_0 \<or> p = boot_slot_1" using device_slots x(2) by auto
  then show "slot_fits (\<lambda>_ _. True) 0x800000 3 p \<and> apart p boot_otadata \<and> 0x9000 \<le> unat (address p)"
    using boot_slot_0_apart boot_slots_apart
    by (auto simp: slot_fits_def usable_def boot_slot_0_def boot_slot_1_def csv_entry_def)
qed

lemma device_running: "esp_ota_get_running_partition boot_env boot_flash = Some boot_slot_0"
  by (simp add: esp_ota_get_running_partition_def esp_partition_find_def boot_flash_def tuya_partitions_def
      partition_matches_def csv_entry_def boot_slot_0_def boot_env_def)


end
