(* ===== verification/Spec2Isabelle.thy ===== *)
theory Spec2Isabelle
  imports Ota Flash Gpio Os_Sync Freertos_Blocking Freertos_Mutex Freertos_Os Os_System Net_Addr Network Net_Sockets Iot Uart Ble_Hci Wifi Net_Interface Mjpeg_Player Ota_System
begin

text \<open>
  A verification library for the firmware of the Plantsio Ivy 2.0 smart plant pot (ESP32-S3, ESP-IDF
  with the Arduino layer, Tuya IoT SDK). File names are relative to \<^verbatim>\<open>src/\<close>.

  \<^bold>\<open>The program and its parts.\<close> The closed Tuya SDK runs the cloud protocol. Below it stands the
  adapter \<^verbatim>\<open>tuya/tuyaos_adapter\<close>, which maps the SDK's platform functions \<^verbatim>\<open>tkl_*\<close> to ESP-IDF, lwIP and
  FreeRTOS. Above it stands the application in \<^verbatim>\<open>app\<close>: data points, provisioning, network events. The
  video player in \<^verbatim>\<open>ivy/anim\<close> is independent of both. The parts of ESP-IDF that decide whether the
  adapter is right (FreeRTOS queues and time, the flash API, partitions, upgrades, the bootloader) are
  modelled as well, and the adapter's theorems are carried down to them where the two meet.

  \<^bold>\<open>How state, errors and loops are modelled.\<close> A component's state is a record with the static
  variables of its file, extending \<^verbatim>\<open>machine\<close> of \<^verbatim>\<open>Prelude\<close> by the list of calls made to code outside
  the model. The answers of that code are parameters, functions of the calls made so far. Error
  returns are the integers of the source. A failed assertion, an abort, or an access C leaves
  undefined is \<^verbatim>\<open>None\<close>. Machine integers are words where the width matters.

  \<^bold>\<open>Shared theory.\<close> \<^verbatim>\<open>Prelude\<close>: return codes, calls, words, lists, sequences of operations, and the
  interfaces \<^verbatim>\<open>invariant_system\<close>, \<^verbatim>\<open>logging_system\<close>, \<^verbatim>\<open>simulation\<close> and \<^verbatim>\<open>op_refinement\<close>. Each is
  interpreted on the operations of the components named below; the interfaces that only one group of
  operations shares (\<^verbatim>\<open>isr_dual\<close>, \<^verbatim>\<open>fd_guard\<close>, \<^verbatim>\<open>fd_set_ops\<close>, \<^verbatim>\<open>opens_one\<close>, \<^verbatim>\<open>packet_sender\<close>, \<^verbatim>\<open>byte_order\<close>)
  stand in the theory of that group.

  \<^bold>\<open>Upgrade and start.\<close>
  \<^item> \<^verbatim>\<open>Ota\<close>: \<^verbatim>\<open>tkl_ota.c\<close>, the state machine of a download. The boot partition is switched only behind a complete, accepted image; a complete download ends in success.
  \<^item> \<^verbatim>\<open>Flash\<close>: \<^verbatim>\<open>tkl_flash.c\<close> on \<^verbatim>\<open>spi_flash/partition.c\<close>. Round trip in each region, and no byte outside the partition is touched.
  \<^item> \<^verbatim>\<open>Esp_Flash\<close>: \<^verbatim>\<open>esp_flash_api.c\<close>. On a working chip the loops end and the contract that \<^verbatim>\<open>Flash\<close> assumes of a NOR chip holds.
  \<^item> \<^verbatim>\<open>Partition_Table\<close>: loading, verifying and replacing the table (\<^verbatim>\<open>partition.c\<close>, \<^verbatim>\<open>flash_partitions.c\<close>, \<^verbatim>\<open>app/device_interface.cpp\<close>).
  \<^item> \<^verbatim>\<open>Bootloader\<close>, \<^verbatim>\<open>Esp_Ota\<close>, \<^verbatim>\<open>Boot_Switch\<close>: \<^verbatim>\<open>bootloader_utility.c\<close> and \<^verbatim>\<open>esp_ota_ops.c\<close>. The switch changes one sector, an interrupted switch leaves the old choice, and application and bootloader agree on what is started.
  \<^item> \<^verbatim>\<open>Ota_System\<close>: the adapter on these functions, from the first chunk to the next start.

  \<^bold>\<open>Kernel objects.\<close>
  \<^item> \<^verbatim>\<open>Os_Sync\<close>, \<^verbatim>\<open>Os_System\<close>: \<^verbatim>\<open>tkl_queue.c\<close>, \<^verbatim>\<open>tkl_semaphore.c\<close>, \<^verbatim>\<open>tkl_mutex.c\<close>, \<^verbatim>\<open>tkl_thread.c\<close>, \<^verbatim>\<open>tkl_memory.c\<close>, \<^verbatim>\<open>tkl_system.c\<close> and the stubs. Interrupts never block; time-outs, \<^verbatim>\<open>realloc\<close> and the watchdog are characterised.
  \<^item> \<^verbatim>\<open>Freertos_Time\<close>: ticks, delays and time-outs of \<^verbatim>\<open>tasks.c\<close> and \<^verbatim>\<open>list.c\<close>, exact across the wrap of the counter.
  \<^item> \<^verbatim>\<open>Freertos_Tasks\<close>: event lists and priority inheritance.
  \<^item> \<^verbatim>\<open>Freertos_Queue\<close>: \<^verbatim>\<open>queue.c\<close> as a refinement of a bounded list of items.
  \<^item> \<^verbatim>\<open>Freertos_Blocking\<close>: interleaved senders, receivers, interrupts and ticks; the types of the state are kept and no wake-up is lost.
  \<^item> \<^verbatim>\<open>Freertos_Mutex\<close>: recursive mutexes as a refinement of an owner with a depth.
  \<^item> \<^verbatim>\<open>Freertos_Os\<close>: the adapter's queue on the kernel's queue, so that the order of messages is proved of the two together.

  \<^bold>\<open>Network and peripherals.\<close>
  \<^item> \<^verbatim>\<open>Net_Addr\<close>, \<^verbatim>\<open>Network\<close>, \<^verbatim>\<open>Net_Sockets\<close>: \<^verbatim>\<open>tkl_network.c\<close>, lwIP's address text, \<^verbatim>\<open>net_sockets.c\<close>. Address round trip, exact receiving, no leaked descriptor.
  \<^item> \<^verbatim>\<open>Wifi\<close>: \<^verbatim>\<open>tkl_wifi.c\<close>; its event handler refines a link that is up with an address or down.
  \<^item> \<^verbatim>\<open>Gpio\<close>, \<^verbatim>\<open>Uart\<close>, \<^verbatim>\<open>Ble_Hci\<close>: \<^verbatim>\<open>tkl_pin.c\<close>, \<^verbatim>\<open>tkl_uart.c\<close>, \<^verbatim>\<open>tkl_bt.c\<close>.

  \<^bold>\<open>Application.\<close>
  \<^item> \<^verbatim>\<open>Iot\<close>: \<^verbatim>\<open>app/IOT.cpp\<close> and the data point callback of \<^verbatim>\<open>app/device_interface.cpp\<close>.
  \<^item> \<^verbatim>\<open>Net_Interface\<close>: \<^verbatim>\<open>app/NetInterface.cpp\<close>, the Bluetooth channel of \<^verbatim>\<open>app/device_interface.cpp\<close> and the provisioning screen \<^verbatim>\<open>app/UICustom/UIProvTip.cpp\<close>. The number of reconnections is exact, and the screen reports activation only after the cloud was reached.
  \<^item> \<^verbatim>\<open>Mjpeg_Codec\<close>, \<^verbatim>\<open>Mjpeg_Player\<close>: \<^verbatim>\<open>MjpegCodec.cpp\<close> and \<^verbatim>\<open>MjpegDriver.cpp\<close>. The frames of a file, the ownership of blocks between the tasks, the schedule.

  \<^bold>\<open>Bounds and loops.\<close> Recursion is structural or has a measure. Loops that need not end are
  \<^verbatim>\<open>partial_function (option)\<close>; that they return is proved where it holds (batches of at most 255 data
  points, the loops of \<^verbatim>\<open>Esp_Flash\<close> on a working chip, the search for the next sequence number), and so
  is that they do not (longer batches). The one loop with fuel, \<^verbatim>\<open>tkl_net_recv_nd_size\<close> in \<^verbatim>\<open>Network\<close>,
  retries for as long as the socket asks it to; on a socket that never asks, every fuel above the number
  of bytes wanted is enough, and that it returns is proved. Constants are those of \<^verbatim>\<open>sdkconfig\<close>: 1000 ticks per second, two cores, no
  rollback, dangerous flash writes abort. A constant that models one \<^verbatim>\<open>#define\<close> has the macro's name.

  \<^bold>\<open>Not modelled.\<close>
  \<^item> The Tuya SDK, LVGL, the Anim library and the property store are not in the sources; they are parameters.
  \<^item> The scheduler's choice of the running task and the context switch are port and assembler code; the models allow every interleaving instead.
  \<^item> The verification of images, checksums, MD5 and the JPEG entropy decoder are parameters.
  \<^item> The clock, date, weather and reconnect screens, \<^verbatim>\<open>LED.cpp\<close>, \<^verbatim>\<open>Screen.cpp\<close>, \<^verbatim>\<open>AudioDriver.cpp\<close>, \<^verbatim>\<open>IvyAnim.cpp\<close> and \<^verbatim>\<open>app_main.cpp\<close> only forward to drawing, audio and register-level code.
  \<^item> Layout calls of the provisioning screen are left out or grouped.
  \<^item> \<^verbatim>\<open>chang_partition\<close> and \<^verbatim>\<open>read_patition_table\<close> have no caller; other callbacks of \<^verbatim>\<open>device_interface.cpp\<close> are empty or only log.
  \<^item> The rest of ESP-IDF and the libraries under \<^verbatim>\<open>libs\<close> are called, if at all, through parameters.
\<close>

end
